(* ===== verification/F64.thy ===== *)
theory F64
  imports Prelude Complex_Main "HOL-Library.Log_Nat"
begin

text \<open>
  Rust's \<open>f64\<close>: IEEE 754 binary64 values as rationals with the two infinities and NaN.
  Every operation computes the exact rational result and rounds it to nearest, ties to
  even, with 53 significant bits, the subnormal exponent \<open>-1074\<close> and overflow to infinity
  from \<open>2 ^ 1024\<close>. The sign of zero is not kept: the modelled code never divides by zero
  and compares zeros only by value, so it cannot be observed.
\<close>

section \<open>Values and rounding\<close>

datatype f64 = Fin rat | PInf | NInf | NaN

abbreviation pow2 :: "int \<Rightarrow> rat" where "pow2 e \<equiv> 2 powi e"

definition ilog2 :: "rat \<Rightarrow> int" where
  "ilog2 q = (let (a, b) = quotient_of q; e = bitlen a - bitlen b
              in if pow2 e \<le> q then e else e - 1)"

definition rne :: "rat \<Rightarrow> int" where
  "rne q = (let n = \<lfloor>q\<rfloor>; d = q - of_int n
            in if d < 1/2 \<or> (d = 1/2 \<and> even n) then n else n + 1)"

definition f64_exp :: "rat \<Rightarrow> int" where
  "f64_exp q = max (ilog2 \<bar>q\<bar> - 52) (- 1074)"

definition fl :: "rat \<Rightarrow> rat" where
  "fl q = (if q = 0 then 0 else of_int (rne (q / pow2 (f64_exp q))) * pow2 (f64_exp q))"

definition f64_round :: "rat \<Rightarrow> f64" where
  "f64_round q = (let r = fl q in
     if 2 ^ 1024 \<le> r then PInf else if r \<le> - (2 ^ 1024) then NInf else Fin r)"

section \<open>Operations\<close>

fun f64_neg :: "f64 \<Rightarrow> f64" where
  "f64_neg (Fin q) = Fin (- q)"
| "f64_neg PInf = NInf"
| "f64_neg NInf = PInf"
| "f64_neg NaN = NaN"

fun f64_add :: "f64 \<Rightarrow> f64 \<Rightarrow> f64" where
  "f64_add (Fin a) (Fin b) = f64_round (a + b)"
| "f64_add NaN _ = NaN"
| "f64_add _ NaN = NaN"
| "f64_add PInf NInf = NaN"
| "f64_add NInf PInf = NaN"
| "f64_add PInf _ = PInf"
| "f64_add NInf _ = NInf"
| "f64_add (Fin _) x = x"

definition f64_sub :: "f64 \<Rightarrow> f64 \<Rightarrow> f64" where
  "f64_sub a b = f64_add a (f64_neg b)"

definition inf_signed :: "bool \<Rightarrow> f64" where
  "inf_signed positive = (if positive then PInf else NInf)"

fun f64_mul :: "f64 \<Rightarrow> f64 \<Rightarrow> f64" where
  "f64_mul (Fin a) (Fin b) = f64_round (a * b)"
| "f64_mul NaN _ = NaN"
| "f64_mul _ NaN = NaN"
| "f64_mul (Fin a) PInf = (if a = 0 then NaN else inf_signed (0 < a))"
| "f64_mul (Fin a) NInf = (if a = 0 then NaN else inf_signed (a < 0))"
| "f64_mul PInf (Fin b) = (if b = 0 then NaN else inf_signed (0 < b))"
| "f64_mul NInf (Fin b) = (if b = 0 then NaN else inf_signed (b < 0))"
| "f64_mul PInf PInf = PInf"
| "f64_mul NInf NInf = PInf"
| "f64_mul PInf NInf = NInf"
| "f64_mul NInf PInf = NInf"

fun f64_div :: "f64 \<Rightarrow> f64 \<Rightarrow> f64" where
  "f64_div (Fin a) (Fin b) =
     (if b = 0 then (if a = 0 then NaN else inf_signed (0 < a)) else f64_round (a / b))"
| "f64_div NaN _ = NaN"
| "f64_div _ NaN = NaN"
| "f64_div (Fin _) PInf = Fin 0"
| "f64_div (Fin _) NInf = Fin 0"
| "f64_div PInf (Fin b) = inf_signed (0 \<le> b)"
| "f64_div NInf (Fin b) = inf_signed (b < 0)"
| "f64_div _ _ = NaN"

fun f64_lt :: "f64 \<Rightarrow> f64 \<Rightarrow> bool" where
  "f64_lt (Fin a) (Fin b) = (a < b)"
| "f64_lt NaN _ = False"
| "f64_lt _ NaN = False"
| "f64_lt NInf b = (b \<noteq> NInf)"
| "f64_lt _ NInf = False"
| "f64_lt a PInf = (a \<noteq> PInf)"
| "f64_lt PInf _ = False"

definition f64_eq :: "f64 \<Rightarrow> f64 \<Rightarrow> bool" where
  "f64_eq a b \<longleftrightarrow> a = b \<and> a \<noteq> NaN"

definition f64_le :: "f64 \<Rightarrow> f64 \<Rightarrow> bool" where
  "f64_le a b \<longleftrightarrow> f64_lt a b \<or> f64_eq a b"

fun is_finite :: "f64 \<Rightarrow> bool" where
  "is_finite (Fin _) = True"
| "is_finite _ = False"

fun f64_ceil :: "f64 \<Rightarrow> f64" where
  "f64_ceil (Fin a) = Fin (of_int \<lceil>a\<rceil>)"
| "f64_ceil x = x"

fun f64_as_u64 :: "f64 \<Rightarrow> u64" where
  "f64_as_u64 (Fin a) = (if a < 0 then 0 else min u64_max (nat \<lfloor>a\<rfloor>))"
| "f64_as_u64 PInf = u64_max"
| "f64_as_u64 NInf = 0"
| "f64_as_u64 NaN = 0"

definition f64_of_nat :: "nat \<Rightarrow> f64" where
  "f64_of_nat n = f64_round (of_nat n)"

section \<open>Rounding is monotone, exact on small integers and close elsewhere\<close>

lemma rne_of_int [simp]: "rne (of_int n) = n"
  by (simp add: rne_def)

lemma rne_bounds: "\<lfloor>q\<rfloor> \<le> rne q" "rne q \<le> \<lceil>q\<rceil>"
proof -
  show "\<lfloor>q\<rfloor> \<le> rne q" by (simp add: rne_def Let_def)
  show "rne q \<le> \<lceil>q\<rceil>"
  proof (cases "q = of_int \<lfloor>q\<rfloor>")
    case True
    then show ?thesis by (metis ceiling_of_int rne_of_int order_refl)
  next
    case False
    then have "\<lceil>q\<rceil> = \<lfloor>q\<rfloor> + 1" by (metis ceiling_altdef)
    then show ?thesis by (simp add: rne_def Let_def)
  qed
qed

lemma rne_mono: "p \<le> q \<Longrightarrow> rne p \<le> rne q"
proof (cases "\<lfloor>p\<rfloor> = \<lfloor>q\<rfloor>")
  case True
  assume "p \<le> q"
  with True show ?thesis by (auto simp: rne_def Let_def)
next
  case False
  assume "p \<le> q"
  with False have "\<lfloor>p\<rfloor> + 1 \<le> \<lfloor>q\<rfloor>" using floor_mono[of p q] by linarith
  then show ?thesis using rne_bounds(1)[of q] by (auto simp: rne_def Let_def)
qed

lemma rne_nearest: "\<bar>of_int (rne q) - q\<bar> \<le> 1/2"
proof -
  define n d where "n = \<lfloor>q\<rfloor>" and "d = q - of_int n"
  have "q = of_int n + d" "0 \<le> d" "d < 1" unfolding d_def n_def by linarith+
  moreover have "rne q = (if d < 1/2 \<or> (d = 1/2 \<and> even n) then n else n + 1)"
    by (simp add: rne_def n_def d_def Let_def)
  ultimately show ?thesis by auto
qed

lemma pow2_mono: "a \<le> b \<Longrightarrow> pow2 a \<le> pow2 b"
  by (rule power_int_increasing) auto

lemma pow2_strict_mono_iff: "pow2 a < pow2 b \<longleftrightarrow> a < b"
proof
  show "a < b \<Longrightarrow> pow2 a < pow2 b" by (rule power_int_strict_increasing) auto
  show "pow2 a < pow2 b \<Longrightarrow> a < b" by (metis linorder_not_less pow2_mono)
qed

lemma bitlen_rat: 
  assumes "0 < a"
  shows "pow2 (bitlen a - 1) \<le> of_int a" "of_int a < pow2 (bitlen a)"
proof -
  have b: "1 \<le> bitlen a" using assms by (simp add: bitlen_def floorlog_def)
  from bitlen_bounds[OF assms] have 1: "2 ^ nat (bitlen a - 1) \<le> a" and 2: "a < 2 ^ nat (bitlen a)" by auto
  have "pow2 (bitlen a - 1) = of_int (2 ^ nat (bitlen a - 1))" using b by (simp add: power_int_def)
  also have "\<dots> \<le> of_int a" using 1 by (simp only: of_int_le_iff)
  finally show "pow2 (bitlen a - 1) \<le> of_int a" .
  have "(of_int a :: rat) < of_int (2 ^ nat (bitlen a))" using 2 by (simp only: of_int_less_iff)
  also have "\<dots> = pow2 (bitlen a)" using b by (simp add: power_int_def)
  finally show "of_int a < pow2 (bitlen a)" .
qed

lemma ilog2_bounds:
  assumes "0 < q"
  shows "pow2 (ilog2 q) \<le> q \<and> q < pow2 (ilog2 q + 1)"
proof -
  obtain a b where ab: "quotient_of q = (a, b)" by fastforce
  then have b: "0 < b" by (rule quotient_of_denom_pos)
  have q: "q = of_int a / of_int b" using ab by (rule quotient_of_div)
  with assms b have a: "0 < a" by (simp add: zero_less_divide_iff)
  define e where "e = bitlen a - bitlen b"
  have l: "ilog2 q = (if pow2 e \<le> q then e else e - 1)" by (simp add: ilog2_def ab e_def)
  have "q < pow2 (bitlen a) / pow2 (bitlen b - 1)"
    unfolding q using bitlen_rat[OF a] bitlen_rat[OF b] a b by (intro frac_less) auto
  also have "\<dots> = pow2 (e + 1)" unfolding e_def by (simp add: power_int_diff power_int_add)
  finally have hi: "q < pow2 (e + 1)" .
  have "pow2 (e - 1) = pow2 (bitlen a - 1) / pow2 (bitlen b)"
    unfolding e_def by (simp add: power_int_diff power_int_add)
  also have "\<dots> \<le> q" unfolding q using bitlen_rat[OF a] bitlen_rat[OF b] a b by (intro frac_le) auto
  finally have lo: "pow2 (e - 1) \<le> q" .
  show ?thesis using lo hi by (simp add: l)
qed

lemma ilog2_mono: "0 < p \<Longrightarrow> p \<le> q \<Longrightarrow> ilog2 p \<le> ilog2 q"
proof -
  assume "0 < p" "p \<le> q"
  then have "pow2 (ilog2 p) < pow2 (ilog2 q + 1)"
    using ilog2_bounds[of p] ilog2_bounds[of q] by linarith
  then show ?thesis by (simp add: pow2_strict_mono_iff)
qed

lemma f64_exp_mono: "0 < p \<Longrightarrow> p \<le> q \<Longrightarrow> f64_exp p \<le> f64_exp q"
  using ilog2_mono[of p q] by (simp add: f64_exp_def)

lemma fl_0 [simp]: "fl 0 = 0"
  by (simp add: fl_def)

lemma fl_nonneg: "0 \<le> q \<Longrightarrow> 0 \<le> fl q"
proof -
  assume "0 \<le> q"
  then have "rne (of_int 0) \<le> rne (q / pow2 (f64_exp q))" by (intro rne_mono) simp
  then show ?thesis by (simp only: rne_of_int) (simp add: fl_def)
qed

lemma scaled_below: 
  assumes "0 < q"
  shows "q / pow2 (f64_exp q) \<le> of_int (2 ^ 53)"
proof -
  have "q < pow2 (ilog2 q + 1)" using ilog2_bounds[OF assms] by simp
  also have "\<dots> \<le> pow2 (53 + f64_exp q)" by (rule pow2_mono) (use assms in \<open>simp add: f64_exp_def\<close>)
  finally show ?thesis by (simp add: power_int_add pos_divide_le_eq less_imp_le)
qed

lemma fl_mono_step:
  assumes "0 < p" "p \<le> q" "f64_exp p < f64_exp q"
  shows "fl p \<le> fl q"
proof -
  let ?d = "f64_exp p" and ?e = "f64_exp q"
  have e: "?e = ilog2 q - 52" using assms by (auto simp: f64_exp_def max_def split: if_splits)
  have q: "0 < q" using assms by simp
  have "rne (p / pow2 ?d) \<le> rne (of_int (2 ^ 53))" by (rule rne_mono[OF scaled_below[OF assms(1)]])
  then have "of_int (rne (p / pow2 ?d)) \<le> (of_int (2 ^ 53) :: rat)" by (simp only: rne_of_int of_int_le_iff)
  then have "fl p \<le> of_int (2 ^ 53) * pow2 ?d"
    using assms(1) by (simp only: fl_def) (simp add: mult_right_mono)
  also have "\<dots> = pow2 (53 + ?d)" by (simp add: power_int_add)
  also have "\<dots> \<le> pow2 (52 + ?e)" by (rule pow2_mono) (use assms(3) in simp)
  also have "\<dots> = of_int (2 ^ 52) * pow2 ?e" by (simp add: power_int_add)
  also have "\<dots> \<le> fl q"
  proof -
    have "pow2 (52 + ?e) \<le> q" using ilog2_bounds[OF q] by (simp add: e)
    then have "of_int (2 ^ 52) \<le> q / pow2 ?e" by (simp add: power_int_add pos_le_divide_eq)
    then have "rne (of_int (2 ^ 52)) \<le> rne (q / pow2 ?e)" by (rule rne_mono)
    then have "(of_int (2 ^ 52) :: rat) \<le> of_int (rne (q / pow2 ?e))" by (simp only: rne_of_int of_int_le_iff)
    then show ?thesis using q by (simp only: fl_def) (simp add: mult_right_mono)
  qed
  finally show ?thesis .
qed

lemma fl_mono:
  assumes "0 \<le> p" "p \<le> q"
  shows "fl p \<le> fl q"
proof (cases "p = 0")
  case True
  with assms show ?thesis by (simp add: fl_nonneg)
next
  case False
  with assms have p: "0 < p" by simp
  consider "f64_exp p = f64_exp q" | "f64_exp p < f64_exp q"
    using f64_exp_mono[OF p assms(2)] by linarith
  then show ?thesis
  proof cases
    case 1
    have "rne (p / pow2 (f64_exp q)) \<le> rne (q / pow2 (f64_exp q))"
      by (rule rne_mono) (use assms(2) in \<open>simp add: divide_right_mono\<close>)
    then show ?thesis using 1 p assms by (simp add: fl_def mult_right_mono)
  next
    case 2
    then show ?thesis by (rule fl_mono_step[OF p assms(2)])
  qed
qed

lemma fl_exact:
  assumes "f64_exp (of_int m * pow2 k) \<le> k"
  shows "fl (of_int m * pow2 k) = of_int m * pow2 k"
proof (cases "m = 0")
  case False
  let ?e = "f64_exp (of_int m * pow2 k)"
  have "of_int m * pow2 k / pow2 ?e = of_int m * pow2 (k - ?e)" by (simp add: power_int_diff)
  also have "\<dots> = of_int (m * 2 ^ nat (k - ?e))" using assms by (simp add: power_int_def)
  finally have *: "of_int m * pow2 k / pow2 ?e = of_int (m * 2 ^ nat (k - ?e))" .
  have "fl (of_int m * pow2 k) = of_int (m * 2 ^ nat (k - ?e)) * pow2 ?e"
    using False by (simp only: fl_def * rne_of_int) simp
  also have "\<dots> = of_int m * pow2 k" by (simp only: flip: *) simp
  finally show ?thesis .
qed simp

lemma fl_of_nat:
  assumes "n \<le> 2 ^ 53"
  shows "fl (of_nat n) = of_nat n"
proof -
  consider "n = 0" | "0 < n" "n < 2 ^ 53" | "n = 2 ^ 53" using assms by linarith
  then show ?thesis
  proof cases
    case 2
    have "pow2 (ilog2 (of_nat n)) \<le> of_nat n" using ilog2_bounds[of "of_nat n"] 2 by simp
    also have "\<dots> < of_nat (2 ^ 53)" using 2 by (simp only: of_nat_less_iff)
    also have "\<dots> = pow2 53" by simp
    finally have "ilog2 (of_nat n) < 53" by (simp only: pow2_strict_mono_iff)
    then have "f64_exp (of_int (int n) * pow2 0) \<le> 0" by (simp add: f64_exp_def)
    from fl_exact[OF this] show ?thesis by simp
  next
    case 3
    have "fl (9007199254740992) = 9007199254740992" by code_simp
    then show ?thesis using 3 by simp
  qed simp
qed

lemma fl_error: "\<bar>fl q - q\<bar> \<le> pow2 (f64_exp q) / 2"
proof (cases "q = 0")
  case False
  let ?p = "pow2 (f64_exp q)"
  have "fl q - q = (of_int (rne (q / ?p)) - q / ?p) * ?p"
    using False by (simp add: fl_def algebra_simps)
  then have "\<bar>fl q - q\<bar> = \<bar>of_int (rne (q / ?p)) - q / ?p\<bar> * ?p" by (simp add: abs_mult)
  also have "\<dots> \<le> 1/2 * ?p" by (rule mult_right_mono[OF rne_nearest]) simp
  finally show ?thesis by simp
qed simp

lemma fl_rel_error:
  assumes "1 \<le> q"
  shows "\<bar>fl q - q\<bar> \<le> q / 2 ^ 53"
proof -
  have "pow2 0 < pow2 (ilog2 q + 1)" using ilog2_bounds[of q] assms by (simp only: power_int_0_right) linarith
  then have "0 < ilog2 q + 1" by (simp only: pow2_strict_mono_iff)
  then have "f64_exp q = ilog2 q - 52" using assms by (simp add: f64_exp_def)
  then have "pow2 (f64_exp q) / 2 = pow2 (ilog2 q) / 2 ^ 53" by (simp add: power_int_diff)
  also have "\<dots> \<le> q / 2 ^ 53" using ilog2_bounds[of q] assms by (intro divide_right_mono) auto
  finally show ?thesis using fl_error[of q] by linarith
qed

end
