(* ===== verification/Fees.thy ===== *)
theory Fees
  imports F64
begin

text \<open>
  Fee policy: the pricing of transactions at a fee rate (\<open>utill.rs\<close>), the settlement
  budget and the smallest contract worth creating (\<open>wallet/api.rs\<close>), the service fee of a
  maker (\<open>protocol/contract.rs\<close>, \<open>maker/api.rs\<close>) and the smallest swap a maker advertises
  (\<open>maker/api.rs\<close>). Amounts are numbers of satoshis. The dust limit of a script comes from
  the bitcoin library (\<open>minimal_non_dust\<close>) and is an argument.
\<close>

section \<open>Definitions\<close>

datatype ProtocolVersion = Legacy | Taproot

definition MIN_RELAY_FEE_RATE :: f64 where "MIN_RELAY_FEE_RATE = Fin 1"
definition MAX_TX_COUNT :: u32 where "MAX_TX_COUNT = 10"
definition LEGACY_CONTRACT_SPEND_VSIZE :: u64 where "LEGACY_CONTRACT_SPEND_VSIZE = 150"
definition TAPROOT_KEYPATH_VSIZE :: u64 where "TAPROOT_KEYPATH_VSIZE = 112"
definition TAPROOT_SCRIPTPATH_VSIZE :: u64 where "TAPROOT_SCRIPTPATH_VSIZE = 155"
definition LEGACY_TIMELOCK_VSIZE :: u64 where "LEGACY_TIMELOCK_VSIZE = 142"
definition TAPROOT_TIMELOCK_VSIZE :: u64 where "TAPROOT_TIMELOCK_VSIZE = 140"
definition CONTRACT_TX_VSIZE :: u64 where "CONTRACT_TX_VSIZE = 150"
definition REFUND_LOCKTIME_BASE :: u16 where "REFUND_LOCKTIME_BASE = 20"
definition MIN_SWAP_STEP_SATS :: u64 where "MIN_SWAP_STEP_SATS = 500"

lemmas vsize_consts = LEGACY_CONTRACT_SPEND_VSIZE_def TAPROOT_KEYPATH_VSIZE_def
  TAPROOT_SCRIPTPATH_VSIZE_def LEGACY_TIMELOCK_VSIZE_def TAPROOT_TIMELOCK_VSIZE_def
  CONTRACT_TX_VSIZE_def

definition is_unusable_fee_rate :: "f64 \<Rightarrow> bool" where
  "is_unusable_fee_rate rate \<longleftrightarrow> \<not> is_finite rate \<or> f64_lt rate MIN_RELAY_FEE_RATE"

definition fee_at_rate_sats :: "u64 \<Rightarrow> f64 \<Rightarrow> u64 option" where
  "fee_at_rate_sats vbytes feerate =
     (if is_unusable_fee_rate feerate then None
      else let fee = f64_mul feerate (f64_of_nat vbytes)
           in if f64_le (f64_of_nat u64_max) fee then None
              else Some (f64_as_u64 (f64_ceil fee)))"

definition funding_tx_vsize :: "nat \<Rightarrow> u64" where
  "funding_tx_vsize inputs = (11 + 43 + 43 + 68 * inputs) mod (u64_max + 1)"

definition funding_fee_policy_sats :: "nat \<Rightarrow> u32 \<Rightarrow> f64 \<Rightarrow> u64 option" where
  "funding_fee_policy_sats input_count max_input_budget feerate =
     (let priced_inputs = min (max input_count 1) max_input_budget
      in fee_at_rate_sats (funding_tx_vsize priced_inputs) feerate)"

fun sweep_vsize :: "ProtocolVersion \<Rightarrow> u64" where
  "sweep_vsize Legacy = LEGACY_CONTRACT_SPEND_VSIZE"
| "sweep_vsize Taproot = TAPROOT_KEYPATH_VSIZE"

definition sweep_fee_policy_sats :: "ProtocolVersion \<Rightarrow> f64 \<Rightarrow> u64 option" where
  "sweep_fee_policy_sats protocol feerate = fee_at_rate_sats (sweep_vsize protocol) feerate"

text \<open>\<open>Iterator::max\<close> on a list of integers: \<open>None\<close> for the empty list.\<close>

definition list_max :: "nat list \<Rightarrow> nat option" where
  "list_max xs = (if xs = [] then None else Some (foldr max xs 0))"

text \<open>\<open>capped_fee\<close>: \<open>dust\<close> is the script's \<open>minimal_non_dust\<close>.\<close>

definition capped_fee :: "f64 list \<Rightarrow> u64 \<Rightarrow> u64 \<Rightarrow> u64 \<Rightarrow> u64 option" where
  "capped_fee rates vsize value dust = do {
     max_fee \<leftarrow> checked_sub value dust;
     list_max (filter (\<lambda>fee. fee \<le> max_fee)
       (List.map_filter (fee_at_rate_sats vsize) rates)) }"

fun payment_settlement_budget_sats :: "ProtocolVersion \<Rightarrow> f64 \<Rightarrow> u64 option" where
  "payment_settlement_budget_sats Legacy feerate = do {
     contract_fee \<leftarrow> fee_at_rate_sats CONTRACT_TX_VSIZE feerate;
     spend_fee \<leftarrow> fee_at_rate_sats LEGACY_CONTRACT_SPEND_VSIZE feerate;
     checked_add contract_fee spend_fee }"
| "payment_settlement_budget_sats Taproot feerate =
     fee_at_rate_sats TAPROOT_SCRIPTPATH_VSIZE feerate"

text \<open>\<open>p2tr_dust\<close> is \<open>p2tr_min_non_dust_sats()\<close>, the library's dust limit of a P2TR script.\<close>

definition min_contract_value_sats :: "u64 \<Rightarrow> ProtocolVersion \<Rightarrow> f64 \<Rightarrow> u64 option" where
  "min_contract_value_sats p2tr_dust protocol feerate = do {
     budget \<leftarrow> payment_settlement_budget_sats protocol feerate;
     checked_add budget p2tr_dust }"

datatype SpendKind = ContractSpend bool | Timelock

fun contract_and_timelock_vsize :: "ProtocolVersion \<Rightarrow> SpendKind \<Rightarrow> u64" where
  "contract_and_timelock_vsize Legacy (ContractSpend _) = LEGACY_CONTRACT_SPEND_VSIZE"
| "contract_and_timelock_vsize Taproot (ContractSpend True) = TAPROOT_KEYPATH_VSIZE"
| "contract_and_timelock_vsize Taproot (ContractSpend False) = TAPROOT_SCRIPTPATH_VSIZE"
| "contract_and_timelock_vsize Legacy Timelock = LEGACY_TIMELOCK_VSIZE"
| "contract_and_timelock_vsize Taproot Timelock = TAPROOT_TIMELOCK_VSIZE"

definition outbids :: "u64 \<Rightarrow> u64 \<Rightarrow> u64 \<Rightarrow> f64 \<Rightarrow> bool" where
  "outbids pending_fee replacement_fee replacement_vsize increment_rate \<longleftrightarrow>
     (case do { increment \<leftarrow> fee_at_rate_sats replacement_vsize increment_rate;
                checked_add pending_fee increment } of
        None \<Rightarrow> False
      | Some needed \<Rightarrow> needed \<le> replacement_fee)"

definition calculate_swap_fee :: "u64 \<Rightarrow> u16 \<Rightarrow> u64 \<Rightarrow> f64 \<Rightarrow> f64 \<Rightarrow> u64" where
  "calculate_swap_fee swap_amount refund_locktime base_fee amt_rel_fee_pct time_rel_fee_pct =
     (let total_fee =
        f64_add
          (f64_add (f64_of_nat base_fee)
             (f64_div (f64_mul (f64_of_nat swap_amount) amt_rel_fee_pct) (Fin 100)))
          (f64_div (f64_mul (f64_mul (f64_of_nat swap_amount) (f64_of_nat refund_locktime))
             time_rel_fee_pct) (Fin 100))
      in f64_as_u64 (f64_ceil total_fee))"

definition swap_cost_floor :: "u64 \<Rightarrow> ProtocolVersion \<Rightarrow> f64 \<Rightarrow> u32 \<Rightarrow> u32 \<Rightarrow> u64 option" where
  "swap_cost_floor p2tr_dust protocol feerate incoming_count max_input_budget = do {
     sweep \<leftarrow> sweep_fee_policy_sats protocol feerate;
     sweeps \<leftarrow> checked_mul sweep incoming_count;
     floor \<leftarrow> min_contract_value_sats p2tr_dust protocol feerate;
     kept \<leftarrow> checked_add sweeps floor;
     funding \<leftarrow> funding_fee_policy_sats 1 max_input_budget feerate;
     checked_add kept funding }"

record fee_config =
  cfg_base_fee :: u64
  cfg_amount_relative_fee_pct :: f64
  cfg_time_relative_fee_pct :: f64

definition relative_fee :: "'a fee_config_scheme \<Rightarrow> f64" where
  "relative_fee config =
     f64_div (f64_add (cfg_amount_relative_fee_pct config)
       (f64_mul (f64_of_nat REFUND_LOCKTIME_BASE) (cfg_time_relative_fee_pct config))) (Fin 100)"

definition min_swap_amount :: "u64 \<Rightarrow> 'a fee_config_scheme \<Rightarrow> u64" where
  "min_swap_amount p2tr_dust config =
     (let rel = relative_fee config in
      case list_max (List.map_filter (\<lambda>p. swap_cost_floor p2tr_dust p MIN_RELAY_FEE_RATE 1 1)
             [Legacy, Taproot]) of
        None \<Rightarrow> u64_max
      | Some cost \<Rightarrow>
          if \<not> (f64_le (Fin 0) rel \<and> f64_lt rel (Fin 1)) then u64_max
          else let exact = f64_as_u64 (f64_ceil (f64_div
                     (f64_of_nat (saturating_add (cfg_base_fee config) cost))
                     (f64_sub (Fin 1) rel)))
               in saturating_mul (div_ceil exact MIN_SWAP_STEP_SATS) MIN_SWAP_STEP_SATS)"

definition maker_swap_fee :: "'a fee_config_scheme \<Rightarrow> u64 \<Rightarrow> u32 \<Rightarrow> u64" where
  "maker_swap_fee config amount timelock =
     (let total_fee =
        f64_add
          (f64_add (f64_of_nat (cfg_base_fee config))
             (f64_div (f64_mul (f64_of_nat amount) (cfg_amount_relative_fee_pct config)) (Fin 100)))
          (f64_div (f64_mul (f64_mul (f64_of_nat amount) (f64_of_nat timelock))
             (cfg_time_relative_fee_pct config)) (Fin 100))
      in f64_as_u64 (f64_ceil total_fee))"

fun check_fee_pct :: "f64 \<Rightarrow> bool" where
  "check_fee_pct pct \<longleftrightarrow> is_finite pct \<and> f64_le (Fin 0) pct \<and> f64_lt pct (Fin 100)"

definition check_fee_pcts :: "f64 \<Rightarrow> f64 \<Rightarrow> string + unit" where
  "check_fee_pcts amount_relative_fee_pct time_relative_fee_pct =
     (if \<not> check_fee_pct amount_relative_fee_pct then Inl ''invalid amount_relative_fee_pct''
      else if \<not> check_fee_pct time_relative_fee_pct then Inl ''invalid time_relative_fee_pct''
      else Inr ())"

text \<open>Auxiliary: the service fee as a chain of roundings, and a bound on a value's size.\<close>

definition fee_chain :: "rat \<Rightarrow> rat \<Rightarrow> rat \<Rightarrow> rat \<Rightarrow> rat \<Rightarrow> rat" where
  "fee_chain a t b p q = fl (fl (b + fl (fl (a * p) / 100)) + fl (fl (fl (a * t) * q) / 100))"

definition fits :: "nat \<Rightarrow> rat \<Rightarrow> bool" where
  "fits k q \<longleftrightarrow> 0 \<le> q \<and> q \<le> 2 ^ k"

section \<open>Pricing in closed form\<close>

lemma fl_pow2_64 [simp]: "fl 18446744073709551616 = 18446744073709551616" "fl 18446744073709551615 = 18446744073709551616"
  by code_simp+

lemma f64_round_Fin:
  assumes "0 \<le> q" "q \<le> 2 ^ 64"
  shows "f64_round q = Fin (fl q)"
proof -
  have "fl q \<le> fl (2 ^ 64)" by (rule fl_mono[OF assms])
  also have "\<dots> < 2 ^ 1024" by simp
  finally have hi: "fl q < 2 ^ 1024" .
  have "- (2 ^ 1024) < (0::rat)" by simp
  with fl_nonneg[OF assms(1)] have "- (2 ^ 1024) < fl q" by linarith
  with hi show ?thesis by (simp add: f64_round_def Let_def)
qed

lemma f64_of_nat_Fin: "n \<le> u64_max \<Longrightarrow> f64_of_nat n = Fin (fl (of_nat n))"
  unfolding f64_of_nat_def by (rule f64_round_Fin) simp_all

lemma f64_of_nat_exact: "n \<le> 2 ^ 53 \<Longrightarrow> f64_of_nat n = Fin (of_nat n)"
  by (simp add: f64_of_nat_Fin fl_of_nat)

lemma f64_round_cases:
  assumes "0 \<le> q"
  shows "f64_round q = (if 2 ^ 1024 \<le> fl q then PInf else Fin (fl q))"
proof -
  have "- (2 ^ 1024) < (0::rat)" by simp
  with fl_nonneg[OF assms] have "- (2 ^ 1024) < fl q" by linarith
  then show ?thesis by (simp add: f64_round_def Let_def)
qed

lemma as_u64_ceil: "0 \<le> c \<Longrightarrow> f64_as_u64 (f64_ceil (Fin c)) = min u64_max (nat \<lceil>c\<rceil>)"
proof -
  assume "0 \<le> c"
  then have "\<not> \<lceil>c\<rceil> < 0" by linarith
  then show ?thesis by simp
qed

lemma fee_at_rate_usable:
  "fee_at_rate_sats v rate = Some f \<Longrightarrow> \<exists>r. rate = Fin r \<and> 1 \<le> r"
  by (cases rate) (auto simp: fee_at_rate_sats_def is_unusable_fee_rate_def MIN_RELAY_FEE_RATE_def
      split: if_splits)

lemma fee_at_rate_closed:
  assumes "v \<le> u64_max" "1 \<le> r"
  shows "fee_at_rate_sats v (Fin r) =
    (let x = fl (r * fl (of_nat v))
     in if 2 ^ 64 \<le> x then None else Some (min u64_max (nat \<lceil>x\<rceil>)))"
proof -
  let ?x = "fl (r * fl (of_nat v))"
  have nn: "0 \<le> r * fl (of_nat v)" using assms(2) by (simp add: fl_nonneg)
  have x0: "0 \<le> ?x" by (rule fl_nonneg[OF nn])
  have u: "\<not> is_unusable_fee_rate (Fin r)"
    using assms(2) by (simp add: is_unusable_fee_rate_def MIN_RELAY_FEE_RATE_def)
  have m: "f64_mul (Fin r) (f64_of_nat v) = (if 2 ^ 1024 \<le> ?x then PInf else Fin ?x)"
    by (simp add: f64_of_nat_Fin[OF assms(1)] f64_round_cases[OF nn])
  have top: "f64_of_nat u64_max = Fin (2 ^ 64)" by (simp add: f64_of_nat_Fin)
  show ?thesis
  proof (cases "2 ^ 64 \<le> ?x")
    case True
    then have "f64_le (Fin (2 ^ 64)) (f64_mul (Fin r) (f64_of_nat v))"
      unfolding m f64_le_def f64_eq_def by (simp only: split: if_split) auto
    with True u show ?thesis by (simp only: fee_at_rate_sats_def top Let_def if_True if_False)
  next
    case False
    have "?x < 2 ^ 1024" by (rule less_le_trans[of _ "2 ^ 64"]) (use False in simp_all)
    then have "f64_mul (Fin r) (f64_of_nat v) = Fin ?x" unfolding m by (simp only: not_le[symmetric] if_False)
    with False u show ?thesis
      by (simp add: fee_at_rate_sats_def top f64_le_def f64_eq_def as_u64_ceil[OF x0] del: f64_ceil.simps)
  qed
qed

lemma fee_at_rate_int_exact:
  assumes "1 \<le> rate" "rate * v \<le> 2 ^ 53" "v \<le> 2 ^ 53"
  shows "fee_at_rate_sats v (Fin (of_nat rate)) = Some (rate * v)"
proof -
  have 1: "v \<le> u64_max" using assms(3) by simp
  have p: "of_nat rate * fl (of_nat v) = (of_nat (rate * v) :: rat)"
    using assms by (simp add: fl_of_nat)
  have "of_nat (rate * v) \<le> (of_nat (2 ^ 53) :: rat)" using assms(2) by (simp only: of_nat_le_iff)
  then have "\<not> 2 ^ 64 \<le> (of_nat (rate * v) :: rat)" by simp
  moreover have "(1::rat) \<le> of_nat rate" using assms(1) by simp
  moreover have "min u64_max (rate * v) = rate * v" using assms(2) by simp
  moreover have "nat \<lceil>of_nat (rate * v) :: rat\<rceil> = rate * v" by (simp only: ceiling_of_nat nat_int)
  ultimately show ?thesis
    by (simp only: fee_at_rate_closed[OF 1] p fl_of_nat[OF assms(2)] Let_def if_False)
qed

lemma fee_at_rate_mono_vsize:
  assumes "v \<le> w" "w \<le> u64_max" "fee_at_rate_sats w rate = Some g"
  shows "\<exists>f. fee_at_rate_sats v rate = Some f \<and> f \<le> g"
proof -
  obtain r where r: "rate = Fin r" "1 \<le> r" using fee_at_rate_usable[OF assms(3)] by auto
  have "fl (of_nat v) \<le> fl (of_nat w :: rat)" by (rule fl_mono) (use assms(1) in simp_all)
  then have "r * fl (of_nat v) \<le> r * fl (of_nat w)"
    by (rule mult_left_mono) (use r in simp)
  then have m: "fl (r * fl (of_nat v)) \<le> fl (r * fl (of_nat w))"
    using r by (intro fl_mono) (simp_all add: fl_nonneg)
  then have "nat \<lceil>fl (r * fl (of_nat v))\<rceil> \<le> nat \<lceil>fl (r * fl (of_nat w))\<rceil>"
    by (intro nat_mono ceiling_mono)
  with m show ?thesis using assms r
    by (auto simp: fee_at_rate_closed Let_def split: if_splits)
qed

lemma fee_at_rate_mono_rate:
  assumes "p \<le> q" "1 \<le> p" "v \<le> u64_max" "fee_at_rate_sats v (Fin q) = Some g"
  shows "\<exists>f. fee_at_rate_sats v (Fin p) = Some f \<and> f \<le> g"
proof -
  have m: "fl (p * fl (of_nat v)) \<le> fl (q * fl (of_nat v))"
    using assms by (intro fl_mono mult_right_mono) (simp_all add: fl_nonneg)
  then have "nat \<lceil>fl (p * fl (of_nat v))\<rceil> \<le> nat \<lceil>fl (q * fl (of_nat v))\<rceil>"
    by (intro nat_mono ceiling_mono)
  with m show ?thesis using assms
    by (auto simp: fee_at_rate_closed Let_def split: if_splits)
qed

lemma fee_at_rate_covers:
  assumes "1 \<le> v" "v \<le> 2 ^ 53" "fee_at_rate_sats v (Fin r) = Some f" "r * of_nat v \<le> 2 ^ 63"
  shows "\<bar>of_nat f - r * of_nat v\<bar> < 1 + r * of_nat v / 2 ^ 53 \<and>
    r * of_nat v - r * of_nat v / 2 ^ 53 \<le> of_nat f"
proof -
  let ?e = "r * of_nat v" and ?x = "fl (r * of_nat v)"
  have r: "1 \<le> r" using fee_at_rate_usable[OF assms(3)] by simp
  have e1: "1 \<le> ?e" using r assms(1) mult_mono[of 1 r 1 "of_nat v"] by simp
  have err: "\<bar>?x - ?e\<bar> \<le> ?e / 2 ^ 53" by (rule fl_rel_error[OF e1])
  have x63: "?x \<le> 2 ^ 63"
  proof -
    have "?x \<le> fl (2 ^ 63)" using assms(4) e1 by (intro fl_mono) simp_all
    also have "fl (2 ^ 63) = 2 ^ 63" by code_simp
    finally show ?thesis .
  qed
  have x0: "0 \<le> ?x" using e1 by (intro fl_nonneg) simp
  have "f = min u64_max (nat \<lceil>?x\<rceil>)"
    using assms r x63 by (simp add: fee_at_rate_closed fl_of_nat Let_def split: if_splits)
  moreover have "\<lceil>?x\<rceil> \<le> 9223372036854775808" using x63 by (simp add: ceiling_le_iff)
  then have "nat \<lceil>?x\<rceil> \<le> u64_max" by linarith
  ultimately have "f = nat \<lceil>?x\<rceil>" by simp
  moreover have "0 \<le> \<lceil>?x\<rceil>" using x0 by linarith
  ultimately have "int f = \<lceil>?x\<rceil>" by simp
  then have f: "(of_nat f :: rat) = of_int \<lceil>?x\<rceil>" by (metis of_int_of_nat_eq)
  have "?x \<le> of_nat f" "of_nat f < ?x + 1" unfolding f by linarith+
  with err show ?thesis by (intro conjI; linarith)
qed

section \<open>The service fee\<close>

lemma f64_round_wide:
  assumes "0 \<le> q" "q \<le> 2 ^ 200"
  shows "f64_round q = Fin (fl q)"
proof -
  have "fl q \<le> fl (2 ^ 200)" by (rule fl_mono[OF assms])
  also have "fl (2 ^ 200) = 2 ^ 200" by code_simp
  also have "(2 ^ 200 :: rat) < 2 ^ 1024" by (rule power_strict_increasing) auto
  finally show ?thesis using f64_round_cases[OF assms(1)] by (simp only: not_le[symmetric] if_False)
qed

lemma fl_le_pow2: "0 \<le> q \<Longrightarrow> q \<le> 2 ^ k \<Longrightarrow> k \<le> 200 \<Longrightarrow> fl q \<le> 2 ^ k"
proof -
  assume a: "0 \<le> q" "q \<le> 2 ^ k" "k \<le> 200"
  have "0 < (2::rat) ^ k" by simp
  then have "pow2 (ilog2 (2 ^ k)) \<le> 2 ^ k" using ilog2_bounds by blast
  then have "\<not> pow2 (int k) < pow2 (ilog2 (2 ^ k))" by (simp only: power_int_of_nat not_less)
  then have "ilog2 (2 ^ k) \<le> int k" by (simp only: pow2_strict_mono_iff not_less)
  then have "f64_exp (of_int 1 * pow2 (int k)) \<le> int k" by (simp add: f64_exp_def)
  from fl_exact[OF this] have "fl (2 ^ k) = 2 ^ k" by simp
  with fl_mono[OF a(1,2)] show "fl q \<le> 2 ^ k" by simp
qed

lemma fee_chain_mono:
  assumes "0 \<le> a" "a \<le> a'" "0 \<le> t" "t \<le> t'" "0 \<le> b" "0 \<le> p" "0 \<le> q"
  shows "fee_chain a t b p q \<le> fee_chain a' t' b p q"
  using assms unfolding fee_chain_def
  by (intro fl_mono add_mono order_refl divide_right_mono mult_mono)
     (auto intro!: add_nonneg_nonneg fl_nonneg mult_nonneg_nonneg divide_nonneg_nonneg)

lemma fee_chain_base:
  assumes "0 \<le> a" "0 \<le> t" "0 \<le> b" "0 \<le> p" "0 \<le> q" "fl b = b"
  shows "b \<le> fee_chain a t b p q"
proof -
  have 1: "0 \<le> fl (fl (a * p) / 100)" "0 \<le> fl (fl (fl (a * t) * q) / 100)"
    using assms by (auto intro!: fl_nonneg mult_nonneg_nonneg divide_nonneg_nonneg)
  have "fl b \<le> fl (b + fl (fl (a * p) / 100))" using 1 assms by (intro fl_mono) auto
  then have "b \<le> fl (b + fl (fl (a * p) / 100)) + fl (fl (fl (a * t) * q) / 100)"
    using 1 assms(6) by linarith
  then have "fl b \<le> fee_chain a t b p q" unfolding fee_chain_def using assms by (intro fl_mono) auto
  then show ?thesis using assms(6) by simp
qed

lemma fits_fl: "fits k q \<Longrightarrow> k \<le> 200 \<Longrightarrow> fits k (fl q)"
  by (simp add: fits_def fl_nonneg fl_le_pow2)

lemma fits_mult: "fits j x \<Longrightarrow> fits k y \<Longrightarrow> fits (j + k) (x * y)"
  by (simp add: fits_def power_add mult_mono)

lemma fits_percent: "fits k x \<Longrightarrow> fits k (x / 100)"
  by (simp add: fits_def)

lemma fits_add: "fits j x \<Longrightarrow> fits k y \<Longrightarrow> fits (max j k + 1) (x + y)"
proof -
  assume "fits j x" "fits k y"
  moreover have "(2::rat) ^ j \<le> 2 ^ max j k" "(2::rat) ^ k \<le> 2 ^ max j k"
    by (rule power_increasing; simp)+
  ultimately show ?thesis by (simp add: fits_def, linarith)
qed

lemma fits_round: "fits k q \<Longrightarrow> k \<le> 200 \<Longrightarrow> f64_round q = Fin (fl q)"
proof -
  assume "fits k q" "k \<le> 200"
  moreover from this(2) have "(2::rat) ^ k \<le> 2 ^ 200" by (rule power_increasing) simp
  ultimately show ?thesis unfolding fits_def by (elim conjE) (rule f64_round_wide, assumption, rule order_trans)
qed

lemma fits_of_nat: "n < 2 ^ k \<Longrightarrow> k \<le> 200 \<Longrightarrow> fits k (fl (of_nat n))"
proof (rule fits_fl)
  assume "n < 2 ^ k"
  then have "(of_nat n :: rat) \<le> of_nat (2 ^ k)" by (simp only: of_nat_le_iff)
  then show "fits k (of_nat n)" by (simp add: fits_def)
qed

lemma calculate_swap_fee_closed:
  assumes "amount \<le> u64_max" "lock \<le> u16_max" "base \<le> u64_max"
    and "0 \<le> p" "p < 100" "0 \<le> q" "q < 100"
  shows "calculate_swap_fee amount lock base (Fin p) (Fin q) =
    min u64_max (nat \<lceil>fee_chain (fl (of_nat amount)) (fl (of_nat lock)) (fl (of_nat base)) p q\<rceil>)"
proof -
  let ?a = "fl (of_nat amount) :: rat" and ?t = "fl (of_nat lock) :: rat" and ?b = "fl (of_nat base) :: rat"
  have in64: "f64_of_nat amount = Fin ?a" "f64_of_nat lock = Fin ?t" "f64_of_nat base = Fin ?b"
    using assms by (simp_all add: f64_of_nat_Fin)
  have a: "fits 64 ?a" and b: "fits 64 ?b" and t: "fits 16 ?t"
    using assms by (auto intro!: fits_of_nat)
  have pq: "fits 7 p" "fits 7 q" using assms by (auto simp: fits_def)
  have ap: "fits 71 (?a * p)" using fits_mult[OF a pq(1)] by simp
  then have ap': "fits 71 (fl (?a * p) / 100)" by (simp add: fits_percent fits_fl)
  have s1: "fits 72 (?b + fl (fl (?a * p) / 100))" using fits_add[OF b fits_fl[OF ap']] by simp
  have at: "fits 80 (?a * ?t)" using fits_mult[OF a t] by simp
  then have atq: "fits 87 (fl (?a * ?t) * q)" using fits_mult[OF fits_fl[OF at] pq(2)] by simp
  then have atq': "fits 87 (fl (fl (?a * ?t) * q) / 100)" by (simp add: fits_percent fits_fl)
  have s2: "fits 88 (fl (?b + fl (fl (?a * p) / 100)) + fl (fl (fl (?a * ?t) * q) / 100))"
    using fits_add[OF fits_fl[OF s1] fits_fl[OF atq']] by simp
  have "f64_round x = Fin (fl x)" if "fits 71 x \<or> fits 72 x \<or> fits 80 x \<or> fits 87 x \<or> fits 88 x" for x
    using that by (auto intro: fits_round)
  then have "calculate_swap_fee amount lock base (Fin p) (Fin q) =
      f64_as_u64 (f64_ceil (Fin (fee_chain ?a ?t ?b p q)))"
    using ap ap' s1 at atq atq' s2
    by (simp add: calculate_swap_fee_def fee_chain_def in64)
  moreover have "0 \<le> fee_chain ?a ?t ?b p q"
    unfolding fee_chain_def using s2 by (simp add: fits_def fl_nonneg)
  ultimately show ?thesis by (simp only: as_u64_ceil)
qed

lemma check_fee_pcts_ok:
  "check_fee_pcts x y = Inr u \<longleftrightarrow> (\<exists>p q. x = Fin p \<and> y = Fin q \<and> 0 \<le> p \<and> p < 100 \<and> 0 \<le> q \<and> q < 100)"
  by (cases x; cases y) (auto simp: check_fee_pcts_def f64_le_def f64_eq_def)

text \<open>A maker and a taker price a swap alike: the two copies of the formula agree.\<close>

lemma maker_swap_fee_eq:
  "maker_swap_fee config amount lock =
     calculate_swap_fee amount lock (cfg_base_fee config) (cfg_amount_relative_fee_pct config)
       (cfg_time_relative_fee_pct config)"
  by (simp add: maker_swap_fee_def calculate_swap_fee_def)

lemma swap_fee_mono:
  assumes "check_fee_pcts p q = Inr ()" "base \<le> u64_max"
    and "a \<le> b" "b \<le> u64_max" "s \<le> t" "t \<le> u16_max"
  shows "calculate_swap_fee a s base p q \<le> calculate_swap_fee b t base p q"
proof -
  from assms(1) obtain p' q' where pq: "p = Fin p'" "q = Fin q'" "0 \<le> p'" "p' < 100" "0 \<le> q'" "q' < 100"
    by (auto simp: check_fee_pcts_ok)
  have "fee_chain (fl (of_nat a)) (fl (of_nat s)) (fl (of_nat base)) p' q'
     \<le> fee_chain (fl (of_nat b)) (fl (of_nat t)) (fl (of_nat base)) p' q'"
    using assms pq by (intro fee_chain_mono fl_mono fl_nonneg) simp_all
  then show ?thesis using assms pq
    by (simp add: calculate_swap_fee_closed min.coboundedI2 ceiling_mono nat_mono)
qed

lemma swap_fee_base:
  assumes "check_fee_pcts p q = Inr ()" "base \<le> 2 ^ 53" "a \<le> u64_max" "t \<le> u16_max"
  shows "base \<le> calculate_swap_fee a t base p q"
proof -
  from assms(1) obtain p' q' where pq: "p = Fin p'" "q = Fin q'" "0 \<le> p'" "p' < 100" "0 \<le> q'" "q' < 100"
    by (auto simp: check_fee_pcts_ok)
  let ?c = "fee_chain (fl (of_nat a)) (fl (of_nat t)) (fl (of_nat base)) p' q'"
  have "fl (of_nat base) = of_nat base" using assms(2) by (rule fl_of_nat)
  then have "of_nat base \<le> ?c" using pq fee_chain_base[of "fl (of_nat a)" "fl (of_nat t)" "of_nat base" p' q']
    by (simp add: fl_nonneg)
  then have "base \<le> nat \<lceil>?c\<rceil>" by linarith
  then show ?thesis using assms pq by (simp add: calculate_swap_fee_closed)
qed

lemma list_max_eq_Some: "list_max xs = Some m \<longleftrightarrow> m \<in> set xs \<and> (\<forall>x\<in>set xs. x \<le> m)"
proof (cases "xs = []")
  case False
  have "foldr max xs 0 = Max (insert 0 (set xs))"
    by (induction xs) (simp_all add: insert_commute)
  also have "\<dots> = Max (set xs)" using False by (simp add: Max_insert)
  finally show ?thesis using False Max_eq_iff[of "set xs" m] by (auto simp: list_max_def)
qed (simp add: list_max_def)

section \<open>Properties\<close>

text \<open>
  C33 (integer rates are exact). A swap's fee rate travels as an integer number of sats per
  virtual byte. At such a rate the price of a transaction is the exact product, with no
  rounding at all, as long as the product is within the 53 bits a double holds.
\<close>

theorem fee_int_rate_exact:
  assumes "1 \<le> rate" "rate \<le> 2 ^ 53" "rate * vbytes \<le> 2 ^ 53"
  shows "fee_at_rate_sats vbytes (f64_of_nat rate) = Some (rate * vbytes)"
proof -
  have "vbytes \<le> rate * vbytes" using assms(1) by simp
  with assms(3) have "vbytes \<le> 2 ^ 53" by linarith
  with assms show ?thesis by (simp add: f64_of_nat_exact fee_at_rate_int_exact)
qed

theorem fee_int_rate_exact_witness:
  "fee_at_rate_sats 150 (f64_of_nat 25) = Some 3750"
  using fee_int_rate_exact[of 25 150] by simp

text \<open>
  C34 (pricing is monotone). A larger transaction or a higher usable rate never costs less,
  and whenever the larger price exists the smaller one does.
\<close>

theorem fee_at_rate_monotone:
  assumes "v \<le> w" "w \<le> u64_max" "1 \<le> p" "p \<le> q"
    and "fee_at_rate_sats w (Fin q) = Some g"
  shows "\<exists>f. fee_at_rate_sats v (Fin p) = Some f \<and> f \<le> g"
proof -
  obtain h where "fee_at_rate_sats v (Fin q) = Some h" "h \<le> g"
    using fee_at_rate_mono_vsize[OF assms(1,2,5)] by auto
  then show ?thesis
    using fee_at_rate_mono_rate[OF assms(4,3) _] assms(1,2) by (meson order_trans)
qed

theorem fee_at_rate_monotone_witness:
  "\<exists>f. fee_at_rate_sats 112 (Fin 2) = Some f \<and> f \<le> 450"
proof (rule fee_at_rate_monotone[of 112 150 2 3])
  show "fee_at_rate_sats 150 (Fin 3) = Some 450"
    using fee_at_rate_int_exact[of 3 150] by simp
qed simp_all





text \<open>
  C37 (the service fee). The maker charges exactly what the taker computes from the offer.
  With offer percentages the protocol accepts, the fee is at least the base fee, and it
  grows with the amount and with the lock time.
\<close>

theorem swap_fee_agrees:
  assumes "check_fee_pcts (cfg_amount_relative_fee_pct c) (cfg_time_relative_fee_pct c) = Inr ()"
    and "cfg_base_fee c \<le> 2 ^ 53" "a \<le> b" "b \<le> u64_max" "s \<le> t" "t \<le> u16_max"
  shows "maker_swap_fee c a s =
      calculate_swap_fee a s (cfg_base_fee c) (cfg_amount_relative_fee_pct c)
        (cfg_time_relative_fee_pct c) \<and>
    cfg_base_fee c \<le> maker_swap_fee c a s \<and>
    maker_swap_fee c a s \<le> maker_swap_fee c b t"
  using assms by (simp add: maker_swap_fee_eq swap_fee_base swap_fee_mono)

theorem swap_fee_agrees_witness:
  "let c = \<lparr>cfg_base_fee = 100, cfg_amount_relative_fee_pct = Fin (1/2),
            cfg_time_relative_fee_pct = Fin (1/128)\<rparr> in
   maker_swap_fee c 10000 20 = calculate_swap_fee 10000 20 100 (Fin (1/2)) (Fin (1/128)) \<and>
   100 \<le> maker_swap_fee c 10000 20 \<and> maker_swap_fee c 10000 20 \<le> maker_swap_fee c 20000 30"
proof -
  have "check_fee_pcts (Fin (1/2)) (Fin (1/128)) = Inr ()" by code_simp
  then show ?thesis
    using swap_fee_agrees[of "\<lparr>cfg_base_fee = 100, cfg_amount_relative_fee_pct = Fin (1/2),
            cfg_time_relative_fee_pct = Fin (1/128)\<rparr>" 10000 20000 20 30]
    by (simp add: Let_def)
qed

text \<open>
  Capped fee. The fee chosen for a recovery spend is the largest one any of the rate
  estimates gives that still leaves the output at or above its dust limit.
\<close>

theorem capped_fee_largest:
  "capped_fee rates vsize value dust = Some fee \<longleftrightarrow>
     fee + dust \<le> value \<and> (\<exists>r\<in>set rates. fee_at_rate_sats vsize r = Some fee) \<and>
     (\<forall>r f. r \<in> set rates \<and> fee_at_rate_sats vsize r = Some f \<and> f + dust \<le> value
        \<longrightarrow> f \<le> fee)"
proof (cases "dust \<le> value")
  case True
  let ?fs = "filter (\<lambda>f. f \<le> value - dust) (List.map_filter (fee_at_rate_sats vsize) rates)"
  have mem: "f \<in> set ?fs \<longleftrightarrow>
      (\<exists>r\<in>set rates. fee_at_rate_sats vsize r = Some f) \<and> f + dust \<le> value" for f
    using True by (auto simp: le_diff_conv2)
  have "capped_fee rates vsize value dust = list_max ?fs"
    using True by (simp add: capped_fee_def checked_sub_def)
  then show ?thesis using mem by (auto simp: list_max_eq_Some)
qed (auto simp: capped_fee_def checked_sub_def)

theorem capped_fee_largest_witness:
  "200 + 330 \<le> (700::nat) \<and> capped_fee [Fin 1, Fin 2, Fin 4] 100 700 330 = Some 200 \<and>
   \<not> (\<exists>r f. r \<in> set [Fin 1, Fin 2, Fin 4] \<and> fee_at_rate_sats 100 r = Some f \<and> f + 330 \<le> 700
        \<and> 200 < f)"
proof -
  have "capped_fee [Fin 1, Fin 2, Fin 4] 100 700 330 = Some 200"
    using fee_at_rate_int_exact[of 1 100] fee_at_rate_int_exact[of 2 100]
      fee_at_rate_int_exact[of 4 100]
    by (simp add: capped_fee_def checked_sub_def List.map_filter_simps list_max_def)
  with capped_fee_largest[THEN iffD1, OF this] show ?thesis
    by (metis linorder_not_less)
qed

end
