(* ===== verification/Bitcoin.thy ===== *)
theory Bitcoin
  imports Fees "HOL-Library.Word" "HOL-Library.List_Lexorder"
begin

text \<open>
  The data of the bitcoin library that the program handles, and the library functions it
  calls. The data (transactions, outpoints, keys as their serialized points, scripts as
  bytes) is written out. The functions (script builder and parser, hashing, key and
  signature operations) are not part of the repository: they are the fields of the record
  \<open>bitcoin_lib\<close>, an argument of every definition that uses them, and what the program relies
  on is stated as the assumptions of the locales \<open>script_codec\<close> and \<open>key_codec\<close>.
\<close>

section \<open>Data\<close>

type_synonym byte = "8 word"
type_synonym bytes = "byte list"
type_synonym Amount = u64
type_synonym ScriptBuf = bytes
type_synonym SecretKey = bytes
type_synonym Hash160 = bytes

text \<open>A transaction id is the 256-bit number of its bytes, so its order is the byte order.\<close>

type_synonym Txid = nat

record OutPoint =
  txid :: Txid
  vout :: u32

record TxIn =
  previous_output :: OutPoint
  script_sig :: ScriptBuf
  sequence :: u32
  witness :: "bytes list"

record TxOut =
  value_of :: Amount
  script_pubkey :: ScriptBuf

record Transaction =
  version :: nat
  lock_time :: u32
  tx_input :: "TxIn list"
  tx_output :: "TxOut list"

text \<open>
  A public key: the compression flag and \<open>inner.serialize()\<close>, the 33 bytes of the point.
\<close>

record PublicKey =
  compressed :: bool
  inner :: bytes

record Signature =
  signature :: bytes
  sighash_type :: nat

datatype opcode =
    OP_SIZE | OP_SWAP | OP_HASH160 | OP_SHA256 | OP_EQUAL | OP_EQUALVERIFY | OP_IF | OP_ELSE
  | OP_ENDIF | OP_CSV | OP_CLTV | OP_DROP | OP_ROT | OP_CHECKSIG | OP_CHECKSIGVERIFY
  | OP_CHECKMULTISIG
  | OP_PUSHNUM int
  | OP_OTHER nat

text \<open>One call of the script builder, and one parsed script instruction.\<close>

datatype builder_item =
    push_opcode opcode
  | push_slice bytes
  | push_key PublicKey
  | push_x_only_key bytes
  | push_int int
  | push_lock_time u32

datatype Instruction = PushBytes bytes | Op opcode

datatype protocol_error = PGeneral string | PLibrary

section \<open>Library functions\<close>

record bitcoin_lib =
  into_script :: "builder_item list \<Rightarrow> ScriptBuf"
  instructions :: "ScriptBuf \<Rightarrow> (protocol_error + Instruction) list"
  wscript_hash :: "ScriptBuf \<Rightarrow> bytes"
  witness_program_v0 :: "bytes \<Rightarrow> protocol_error + ScriptBuf"
  to_p2wsh :: "ScriptBuf \<Rightarrow> ScriptBuf"
  minimal_non_dust :: "ScriptBuf \<Rightarrow> Amount"
  compute_txid :: "Transaction \<Rightarrow> Txid"
  pubkey_from_slice :: "bytes \<Rightarrow> protocol_error + PublicKey"
  xonly_from_slice :: "bytes \<Rightarrow> protocol_error + bytes"
  secret_point :: "SecretKey \<Rightarrow> bytes"
  combine :: "bytes \<Rightarrow> bytes \<Rightarrow> protocol_error + bytes"
  x_only :: "bytes \<Rightarrow> bytes"
  p2wsh_sighash :: "Transaction \<Rightarrow> nat \<Rightarrow> ScriptBuf \<Rightarrow> Amount \<Rightarrow> protocol_error + bytes"
  sign_ecdsa :: "bytes \<Rightarrow> SecretKey \<Rightarrow> bytes"
  verify_ecdsa :: "bytes \<Rightarrow> bytes \<Rightarrow> bytes \<Rightarrow> protocol_error + unit"
  sig_to_vec :: "Signature \<Rightarrow> bytes"
  new_p2tr :: "ScriptBuf \<Rightarrow> ScriptBuf \<Rightarrow> bytes \<Rightarrow> protocol_error + ScriptBuf"
  control_block :: "ScriptBuf \<Rightarrow> ScriptBuf \<Rightarrow> bytes \<Rightarrow> ScriptBuf \<Rightarrow> protocol_error + bytes"
  taproot_leaf_script :: "bytes list \<Rightarrow> (nat \<times> ScriptBuf) option"
  taproot_key_sighash :: "Transaction \<Rightarrow> TxOut \<Rightarrow> protocol_error + bytes"
  taproot_script_sighash :: "Transaction \<Rightarrow> TxOut \<Rightarrow> ScriptBuf \<Rightarrow> nat \<Rightarrow> protocol_error + bytes"
  sign_schnorr :: "bytes \<Rightarrow> SecretKey \<Rightarrow> bytes"
  tap_sig_to_vec :: "bytes \<Rightarrow> nat \<Rightarrow> bytes"
  key_agg_cache :: "bytes list \<Rightarrow> bytes"
  agg_pk :: "bytes \<Rightarrow> bytes"
  pubkey_xonly_tweak_add :: "bytes \<Rightarrow> bytes \<Rightarrow> protocol_error + bytes"
  new_nonce_pair :: "bytes \<Rightarrow> bytes \<Rightarrow> bytes \<times> bytes"
  aggregate_nonces :: "bytes list \<Rightarrow> bytes"
  musig_session :: "bytes \<Rightarrow> bytes \<Rightarrow> bytes \<Rightarrow> bytes"
  partial_sign :: "bytes \<Rightarrow> bytes \<Rightarrow> SecretKey \<Rightarrow> bytes \<Rightarrow> bytes"
  partial_sig_agg :: "bytes \<Rightarrow> bytes list \<Rightarrow> bytes"
  show_outpoint :: "OutPoint \<Rightarrow> string"
  show_pubkey :: "PublicKey \<Rightarrow> string"
  show_lock_time :: "u32 \<Rightarrow> string"
  show_amount :: "Amount \<Rightarrow> string"
  var_int :: "nat \<Rightarrow> bytes"
  sha256d :: "bytes \<Rightarrow> bytes"
  sha3_256 :: "bytes \<Rightarrow> bytes"
  is_p2wsh :: "ScriptBuf \<Rightarrow> bool"
  derive_pub :: "bytes \<Rightarrow> bytes \<Rightarrow> u32 list \<Rightarrow> protocol_error + bytes"

definition Amount_MAX_MONEY :: Amount where
  "Amount_MAX_MONEY = 21000000 * 100000000"

section \<open>What the library promises\<close>

text \<open>
  \<open>le_bytes\<close> is the minimal little-endian script number of a natural number: its last byte is
  below 128, so that it does not read as a sign.
\<close>

function le_bytes :: "nat \<Rightarrow> bytes" where
  "le_bytes n = (if n < 128 then [of_nat n] else of_nat (n mod 256) # le_bytes (n div 256))"
  by pat_completeness auto
termination by (relation "measure id") auto

declare le_bytes.simps [simp del]

fun opcode_ok :: "opcode \<Rightarrow> bool" where
  "opcode_ok (OP_PUSHNUM n) = (1 \<le> n \<and> n \<le> 16)"
| "opcode_ok (OP_OTHER _) = False"
| "opcode_ok _ = True"

text \<open>The builder calls whose encoding the program relies on, and how they read back.\<close>

fun item_ok :: "builder_item \<Rightarrow> bool" where
  "item_ok (push_opcode op) = opcode_ok op"
| "item_ok (push_slice b) = (length b \<le> 75)"
| "item_ok (push_key k) = (compressed k \<and> length (inner k) = 33)"
| "item_ok (push_x_only_key b) = (length b = 32)"
| "item_ok (push_int n) = (0 \<le> n \<and> n \<le> 65535)"
| "item_ok (push_lock_time n) = (17 \<le> n \<and> n \<le> u32_max)"

fun item_instruction :: "builder_item \<Rightarrow> Instruction" where
  "item_instruction (push_opcode op) = Op op"
| "item_instruction (push_slice b) = PushBytes b"
| "item_instruction (push_key k) = PushBytes (inner k)"
| "item_instruction (push_x_only_key b) = PushBytes b"
| "item_instruction (push_int n) =
     (if n = 0 then PushBytes []
      else if n \<le> 16 then Op (OP_PUSHNUM n) else PushBytes (le_bytes (nat n)))"
| "item_instruction (push_lock_time n) = PushBytes (le_bytes n)"

text \<open>
  \<open>script_codec\<close>: the documented behaviour of \<open>Builder\<close> and \<open>Script::instructions\<close>. A script
  is the concatenation of what each builder call appends; an opcode is one byte, a push of up
  to 75 bytes is its length and the bytes; parsing a built script gives one instruction per
  builder call.
\<close>

locale script_codec =
  fixes into_script :: "builder_item list \<Rightarrow> ScriptBuf"
    and instructions :: "ScriptBuf \<Rightarrow> (protocol_error + Instruction) list"
  assumes build_nil: "into_script [] = []"
    and build_cons: "into_script (x # xs) = into_script [x] @ into_script xs"
    and build_opcode: "opcode_ok op \<Longrightarrow> \<exists>b. into_script [push_opcode op] = [b]"
    and build_slice: "length b \<le> 75 \<Longrightarrow> into_script [push_slice b] = of_nat (length b) # b"
    and build_key: "compressed k \<Longrightarrow> length (inner k) = 33 \<Longrightarrow>
        into_script [push_key k] = into_script [push_slice (inner k)]"
    and build_x_only: "length b = 32 \<Longrightarrow> into_script [push_x_only_key b] = 32 # b"
    and build_lock_time: "17 \<le> n \<Longrightarrow> n \<le> u32_max \<Longrightarrow>
        into_script [push_lock_time n] = of_nat (length (le_bytes n)) # le_bytes n"
    and parse_built: "list_all item_ok xs \<Longrightarrow>
        instructions (into_script xs) = map (\<lambda>x. Inr (item_instruction x)) xs"

text \<open>\<open>key_codec\<close>: a serialized compressed key reads back as itself.\<close>

locale key_codec =
  fixes pubkey_from_slice :: "bytes \<Rightarrow> protocol_error + PublicKey"
    and valid_point :: "bytes \<Rightarrow> bool"
  assumes read_valid: "valid_point b \<Longrightarrow> pubkey_from_slice b = Inr \<lparr>compressed = True, inner = b\<rparr>"
    and point_length: "valid_point b \<Longrightarrow> length b = 33"
    and placeholder_valid: "valid_point (replicate 33 2)"

section \<open>A reference codec\<close>

text \<open>
  The consensus encoding of the opcodes and pushes above satisfies both contracts, so they
  are consistent. It is used to evaluate concrete scripts.
\<close>

fun opcode_byte :: "opcode \<Rightarrow> byte" where
  "opcode_byte OP_SIZE = 130"
| "opcode_byte OP_SWAP = 124"
| "opcode_byte OP_HASH160 = 169"
| "opcode_byte OP_SHA256 = 168"
| "opcode_byte OP_EQUAL = 135"
| "opcode_byte OP_EQUALVERIFY = 136"
| "opcode_byte OP_IF = 99"
| "opcode_byte OP_ELSE = 103"
| "opcode_byte OP_ENDIF = 104"
| "opcode_byte OP_CSV = 178"
| "opcode_byte OP_CLTV = 177"
| "opcode_byte OP_DROP = 117"
| "opcode_byte OP_ROT = 123"
| "opcode_byte OP_CHECKSIG = 172"
| "opcode_byte OP_CHECKSIGVERIFY = 173"
| "opcode_byte OP_CHECKMULTISIG = 174"
| "opcode_byte (OP_PUSHNUM n) = of_int (80 + n)"
| "opcode_byte (OP_OTHER n) = of_nat n"

definition named_opcodes :: "opcode list" where
  "named_opcodes =
    [OP_SIZE, OP_SWAP, OP_HASH160, OP_SHA256, OP_EQUAL, OP_EQUALVERIFY, OP_IF, OP_ELSE,
     OP_ENDIF, OP_CSV, OP_CLTV, OP_DROP, OP_ROT, OP_CHECKSIG, OP_CHECKSIGVERIFY,
     OP_CHECKMULTISIG]"

definition byte_opcode :: "byte \<Rightarrow> opcode" where
  "byte_opcode b =
     (if 81 \<le> unat b \<and> unat b \<le> 96 then OP_PUSHNUM (int (unat b) - 80)
      else case find (\<lambda>op. opcode_byte op = b) named_opcodes of
             Some op \<Rightarrow> op
           | None \<Rightarrow> OP_OTHER (unat b))"

definition ref_push :: "bytes \<Rightarrow> bytes" where
  "ref_push b = of_nat (length b) # b"

fun ref_item :: "builder_item \<Rightarrow> bytes" where
  "ref_item (push_opcode op) = [opcode_byte op]"
| "ref_item (push_slice b) = ref_push b"
| "ref_item (push_key k) = ref_push (inner k)"
| "ref_item (push_x_only_key b) = ref_push b"
| "ref_item (push_int n) =
     (if n = 0 then [0] else if n \<le> 16 then [opcode_byte (OP_PUSHNUM n)]
      else ref_push (le_bytes (nat n)))"
| "ref_item (push_lock_time n) = ref_push (le_bytes n)"

definition ref_into_script :: "builder_item list \<Rightarrow> ScriptBuf" where
  "ref_into_script xs = concat (map ref_item xs)"

function ref_instructions :: "ScriptBuf \<Rightarrow> (protocol_error + Instruction) list" where
  "ref_instructions [] = []"
| "ref_instructions (b # bs) =
     (if unat b \<le> 75 then
        (if unat b \<le> length bs
         then Inr (PushBytes (take (unat b) bs)) # ref_instructions (drop (unat b) bs)
         else [Inl PLibrary])
      else Inr (Op (byte_opcode b)) # ref_instructions bs)"
  by pat_completeness auto
termination by (relation "measure length") auto

definition ref_valid_point :: "bytes \<Rightarrow> bool" where
  "ref_valid_point b \<longleftrightarrow> length b = 33 \<and> (hd b = 2 \<or> hd b = 3)"

definition ref_pubkey_from_slice :: "bytes \<Rightarrow> protocol_error + PublicKey" where
  "ref_pubkey_from_slice b =
     (if ref_valid_point b then Inr \<lparr>compressed = True, inner = b\<rparr> else Inl PLibrary)"

lemma le_bytes_0 [simp]: "le_bytes 0 = [0]"
  by (simp add: le_bytes.simps)

lemma le_bytes_16:
  assumes "n \<le> 65535"
  shows "le_bytes n =
     (if n < 128 then [of_nat n]
      else if n < 32768 then [of_nat (n mod 256), of_nat (n div 256)]
      else [of_nat (n mod 256), of_nat (n div 256), 0])"
proof -
  have "n div 256 < 128 \<longleftrightarrow> n < 32768" "n div 256 < 256" using assms by auto
  then show ?thesis by (simp add: le_bytes.simps[of n] le_bytes.simps[of "n div 256"])
qed

lemma length_le_bytes_u32: "n \<le> u32_max \<Longrightarrow> length (le_bytes n) \<le> 5"
  by (simp add: le_bytes.simps[of n] le_bytes.simps[of "n div 256"] le_bytes.simps[of "n div 256 div 256"]
      le_bytes.simps[of "n div 256 div 256 div 256"] le_bytes.simps[of "n div 256 div 256 div 256 div 256"])

lemma ref_instructions_push:
  assumes "length b \<le> 75"
  shows "ref_instructions (ref_push b @ rest) = Inr (PushBytes b) # ref_instructions rest"
proof -
  have "unat (of_nat (length b) :: byte) = length b" using assms by (simp add: unat_of_nat)
  then show ?thesis using assms by (simp add: ref_push_def)
qed

lemma opcode_byte_pushnum:
  assumes "1 \<le> n" "n \<le> 16"
  shows "unat (opcode_byte (OP_PUSHNUM n)) = nat (80 + n)"
proof -
  have "uint (of_int (80 + n) :: byte) = 80 + n"
    using assms by (simp only: of_int_uint uint_word_of_int_eq take_bit_eq_mod) simp
  then show ?thesis by (simp add: unat_eq_nat_uint)
qed

lemma opcode_byte_read:
  assumes "opcode_ok op"
  shows "\<not> unat (opcode_byte op) \<le> 75 \<and> byte_opcode (opcode_byte op) = op"
proof (cases "\<exists>n. op = OP_PUSHNUM n")
  case True
  then obtain n where n: "op = OP_PUSHNUM n" "1 \<le> n" "n \<le> 16" using assms by auto
  then have u: "unat (opcode_byte op) = nat (80 + n)" using opcode_byte_pushnum by simp
  then have "81 \<le> unat (opcode_byte op)" "unat (opcode_byte op) \<le> 96"
    "int (unat (opcode_byte op)) - 80 = n" using n by linarith+
  then show ?thesis unfolding byte_opcode_def using n(1) by (simp del: opcode_byte.simps)
next
  case False
  then show ?thesis using assms by (cases op) (simp_all add: byte_opcode_def named_opcodes_def)
qed

lemma ref_instructions_opcode:
  "opcode_ok op \<Longrightarrow> ref_instructions (opcode_byte op # rest) = Inr (Op op) # ref_instructions rest"
  using opcode_byte_read[of op] by (simp del: opcode_byte.simps)

lemma ref_instructions_item:
  assumes "item_ok x"
  shows "ref_instructions (ref_item x @ rest) = Inr (item_instruction x) # ref_instructions rest"
proof (cases x)
  case (push_int n)
  have "length (le_bytes (nat n)) \<le> 75"
    using push_int assms length_le_bytes_u32[of "nat n"] by (simp add: nat_le_iff)
  then show ?thesis using push_int assms ref_instructions_opcode[of "OP_PUSHNUM n" rest]
    by (auto simp: ref_instructions_push simp del: opcode_byte.simps)
next
  case (push_opcode op)
  then show ?thesis using assms ref_instructions_opcode[of op rest]
    by (simp del: ref_instructions.simps)
next
  case (push_lock_time n)
  then show ?thesis using assms length_le_bytes_u32[of n] by (simp add: ref_instructions_push)
qed (use assms in \<open>simp_all add: ref_instructions_push\<close>)

interpretation ref_script: script_codec ref_into_script ref_instructions
proof
  fix xs assume "list_all item_ok xs"
  then show "ref_instructions (ref_into_script xs) = map (\<lambda>x. Inr (item_instruction x)) xs"
    by (induction xs) (simp_all add: ref_into_script_def ref_instructions_item)
qed (auto simp: ref_into_script_def ref_push_def)

interpretation ref_key: key_codec ref_pubkey_from_slice ref_valid_point
  by unfold_locales (auto simp: ref_pubkey_from_slice_def ref_valid_point_def)

end
