(* ===== verification/Features.thy ===== *)
theory Features
  imports Fees
begin

text \<open>
  Feature negotiation (\<open>protocol/features.rs\<close>) and the maker name check of
  \<open>protocol/common_messages.rs\<close>. A feature name is the list of its bytes. The Cargo feature
  \<open>lightning\<close> that a build is compiled with is the argument \<open>lnf\<close>.
\<close>

section \<open>Definitions\<close>

record Feature =
  fname :: string
  flows :: "string list"
  lightning :: bool

definition KNOWN :: "Feature list" where
  "KNOWN =
    [\<lparr>fname = ''legacy'', flows = [''legacy''], lightning = False\<rparr>,
     \<lparr>fname = ''taproot'', flows = [''taproot''], lightning = False\<rparr>,
     \<lparr>fname = ''ln-swap-in'', flows = [''ln-swap-in''], lightning = True\<rparr>,
     \<lparr>fname = ''ln-swap-out'', flows = [''ln-swap-out''], lightning = True\<rparr>]"

definition FORMAT_NAMES :: "string list" where
  "FORMAT_NAMES = [''wallet-store-2'']"

definition supported :: "bool \<Rightarrow> string list" where
  "supported lnf =
     map fname (filter (\<lambda>f. lnf \<or> \<not> lightning f) KNOWN) @ FORMAT_NAMES"

definition MAX_FEATURES :: nat where "MAX_FEATURES = 128"
definition MAX_FEATURE_NAME_LEN :: nat where "MAX_FEATURE_NAME_LEN = 64"

datatype feature_error =
    TooManyNames
  | OverlongName
  | NotOneFlow
  | StrayPin string
  | DuplicateFamily string
  | UnmetFeatures "string list"
  | MalformedList
  | InvalidName string

definition check_bounds :: "string list \<Rightarrow> feature_error + unit" where
  "check_bounds names =
     (if MAX_FEATURES < length names then Inl TooManyNames
      else if \<exists>n\<in>set names. MAX_FEATURE_NAME_LEN < length n then Inl OverlongName
      else Inr ())"

text \<open>\<open>str::rsplit_once\<close>: the text before and after the last occurrence of a pattern.\<close>

definition occurs_at :: "string \<Rightarrow> string \<Rightarrow> nat \<Rightarrow> bool" where
  "occurs_at pat s i \<longleftrightarrow> take (length pat) (drop i s) = pat"

definition rsplit_once :: "string \<Rightarrow> string \<Rightarrow> (string \<times> string) option" where
  "rsplit_once pat s =
     (case filter (occurs_at pat s) (rev [0..<length s]) of
        [] \<Rightarrow> None
      | i # _ \<Rightarrow> Some (take i s, drop (i + length pat) s))"

definition is_ascii_digit :: "char \<Rightarrow> bool" where
  "is_ascii_digit c \<longleftrightarrow> 48 \<le> (of_char c :: nat) \<and> (of_char c :: nat) \<le> 57"

definition digit_value :: "char \<Rightarrow> nat" where
  "digit_value c = of_char c - 48"

definition decimal_value :: "string \<Rightarrow> nat" where
  "decimal_value s = foldl (\<lambda>v c. 10 * v + digit_value c) 0 s"

text \<open>\<open>str::parse::<u32>\<close> on a string of ASCII digits.\<close>

definition parse_u32 :: "string \<Rightarrow> u32 option" where
  "parse_u32 s = (if s = [] \<or> u32_max < decimal_value s then None else Some (decimal_value s))"

definition family_and_version :: "string \<Rightarrow> string \<times> u32" where
  "family_and_version name =
     (case rsplit_once ''-v'' name of
        None \<Rightarrow> (name, 0)
      | Some (family, n) \<Rightarrow>
          if take 1 n \<noteq> ''0'' \<and> list_all is_ascii_digit n then
            (case parse_u32 n of None \<Rightarrow> (name, 0) | Some v \<Rightarrow> (family, v))
          else (name, 0))"

definition is_ascii_lowercase :: "char \<Rightarrow> bool" where
  "is_ascii_lowercase c \<longleftrightarrow> 97 \<le> (of_char c :: nat) \<and> (of_char c :: nat) \<le> 122"

definition is_valid_name :: "string \<Rightarrow> bool" where
  "is_valid_name name \<longleftrightarrow> name \<noteq> [] \<and>
     list_all (\<lambda>b. is_ascii_lowercase b \<or> is_ascii_digit b \<or> b = CHR ''-'') name"

definition meets :: "string \<Rightarrow> string \<Rightarrow> bool" where
  "meets offered required \<longleftrightarrow>
     (let (family, version) = family_and_version required;
          (o_family, o_version) = family_and_version offered
      in o_family = family \<and> version \<le> o_version)"

definition check_requires :: "string list \<Rightarrow> string list \<Rightarrow> string list + unit" where
  "check_requires required offered =
     (let missing = filter (\<lambda>r. \<not> (\<exists>o'\<in>set offered. meets o' r)) required
      in if missing = [] then Inr () else Inl missing)"

fun pin_feature :: "string \<Rightarrow> string list \<Rightarrow> string list" where
  "pin_feature name [] = [name]"
| "pin_feature name (pin # pins) =
     (if fst (family_and_version pin) = fst (family_and_version name)
      then (if snd (family_and_version pin) < snd (family_and_version name) then name else pin) # pins
      else pin # pin_feature name pins)"

definition choose_pins :: "bool \<Rightarrow> string \<Rightarrow> string list \<Rightarrow> string list" where
  "choose_pins lnf flow theirs =
     foldl (\<lambda>pins f. pin_feature (fname f) pins) []
       (filter (\<lambda>f. flow \<in> set (flows f) \<and> fname f \<in> set (supported lnf) \<and>
                    fname f \<in> set theirs) KNOWN)"

definition known_family :: "string \<Rightarrow> Feature list" where
  "known_family name =
     filter (\<lambda>f. fst (family_and_version (fname f)) = fst (family_and_version name)) KNOWN"

definition applies_to :: "string \<Rightarrow> string \<Rightarrow> bool" where
  "applies_to required flow \<longleftrightarrow>
     known_family required = [] \<or> (\<exists>f\<in>set (known_family required). flow \<in> set (flows f))"

definition unmet_at_hello :: "string list \<Rightarrow> string list \<Rightarrow> string list + unit" where
  "unmet_at_hello required offered =
     check_requires (filter (\<lambda>r. known_family r = []) required) offered"

definition unmet_for_flow :: "string list \<Rightarrow> string list \<Rightarrow> string \<Rightarrow> string list + unit" where
  "unmet_for_flow required pins flow =
     check_requires (filter (\<lambda>r. applies_to r flow) required) pins"

definition named_flows :: "bool \<Rightarrow> string list \<Rightarrow> string list" where
  "named_flows lnf pins =
     filter (\<lambda>name. name \<in> set pins \<and> (\<exists>f\<in>set KNOWN. name \<in> set (flows f))) (supported lnf)"

definition served_for :: "bool \<Rightarrow> string \<Rightarrow> string \<Rightarrow> bool" where
  "served_for lnf flow p \<longleftrightarrow>
     (\<exists>f\<in>set KNOWN. fname f = p \<and> fname f \<in> set (supported lnf) \<and> flow \<in> set (flows f))"

fun duplicate_family :: "string list \<Rightarrow> string list \<Rightarrow> string option" where
  "duplicate_family earlier [] = None"
| "duplicate_family earlier (pin # pins) =
     (if \<exists>p\<in>set earlier. fst (family_and_version p) = fst (family_and_version pin)
      then Some (fst (family_and_version pin))
      else duplicate_family (earlier @ [pin]) pins)"

definition check_pins :: "bool \<Rightarrow> string list \<Rightarrow> string list \<Rightarrow> feature_error + string" where
  "check_pins lnf pins required =
     res_bind (check_bounds pins) (\<lambda>_.
     case named_flows lnf pins of
       [flow] \<Rightarrow>
         (case find (\<lambda>p. \<not> served_for lnf flow p) pins of
            Some stray \<Rightarrow> Inl (StrayPin stray)
          | None \<Rightarrow>
              (case duplicate_family [] pins of
                 Some family \<Rightarrow> Inl (DuplicateFamily family)
               | None \<Rightarrow>
                   res_bind (map_err UnmetFeatures (unmet_for_flow required pins flow))
                     (\<lambda>_. Inr flow)))
     | _ \<Rightarrow> Inl NotOneFlow)"

text \<open>
  \<open>parse_require_features\<close> after \<open>parse_list\<close>; the warning about unsupported names is only
  logged.
\<close>

definition parse_require_features :: "string list option \<Rightarrow> feature_error + string list" where
  "parse_require_features parsed =
     res_bind (ok_or parsed MalformedList) (\<lambda>names.
     res_bind (check_bounds names) (\<lambda>_.
     case find (\<lambda>n. \<not> is_valid_name n) names of
       Some bad \<Rightarrow> Inl (InvalidName bad)
     | None \<Rightarrow> Inr names))"

text \<open>A maker name is a list of Unicode scalar values.\<close>

definition MAX_MAKER_NAME_LEN :: nat where "MAX_MAKER_NAME_LEN = 32"

definition is_control :: "nat \<Rightarrow> bool" where
  "is_control c \<longleftrightarrow> c \<le> 31 \<or> (127 \<le> c \<and> c \<le> 159)"

definition check_maker_name :: "nat list \<Rightarrow> bool" where
  "check_maker_name name \<longleftrightarrow>
     \<not> (length name = 0 \<or> MAX_MAKER_NAME_LEN < length name \<or> list_ex is_control name)"

text \<open>
  Specification vocabulary: the canonical decimal print of a version and the flows a build
  serves.
\<close>

definition digit_char :: "nat \<Rightarrow> char" where
  "digit_char k = char_of (48 + k)"

fun decimal_string :: "nat \<Rightarrow> string" where
  "decimal_string n =
     (if n < 10 then [digit_char n] else decimal_string (n div 10) @ [digit_char (n mod 10)])"

definition served :: "bool \<Rightarrow> string set" where
  "served lnf = {''legacy'', ''taproot''} \<union> (if lnf then {''ln-swap-in'', ''ln-swap-out''} else {})"

declare decimal_string.simps [simp del]

section \<open>Names and versions\<close>

lemma rsplit_once_split: "rsplit_once pat s = Some (a, b) \<Longrightarrow> s = a @ pat @ b"
proof -
  assume "rsplit_once pat s = Some (a, b)"
  then obtain i r where i: "filter (occurs_at pat s) (rev [0..<length s]) = i # r"
      and ab: "a = take i s" "b = drop (i + length pat) s"
    by (auto simp: rsplit_once_def split: list.splits)
  have "take (length pat) (drop i s) = pat" using last_index[OF i] by (simp add: occurs_at_def)
  then have "drop i s = pat @ b" using ab append_take_drop_id[of "length pat" "drop i s"]
    by (simp add: add.commute)
  then show ?thesis using ab append_take_drop_id[of i s] by simp
qed

lemma rsplit_once_last:
  assumes "CHR ''-'' \<notin> set d"
  shows "rsplit_once ''-v'' (f @ ''-v'' @ d) = Some (f, d)"
proof -
  let ?s = "f @ ''-v'' @ d"
  have "occurs_at ''-v'' ?s (length f)" by (simp add: occurs_at_def)
  then obtain i r where i: "filter (occurs_at ''-v'' ?s) (rev [0..<length ?s]) = i # r"
    using last_index_exists[of "occurs_at ''-v'' ?s" "length f" "length ?s"] by auto
  note facts = last_index[OF i]
  have "length f \<le> i" using facts \<open>occurs_at ''-v'' ?s (length f)\<close> by simp
  moreover have "\<not> length f < i"
  proof
    assume lt: "length f < i"
    have "take (length ''-v'') (drop i ?s) = ''-v''" using facts by (simp only: occurs_at_def)
    moreover have "drop i ?s = ?s ! i # drop (Suc i) ?s"
      using facts by (simp only: Cons_nth_drop_Suc)
    ultimately have hd: "?s ! i = CHR ''-''" by (simp del: drop_append)
    show False
    proof (cases "i = length f + 1")
      case True
      then show False using hd by (simp add: nth_append)
    next
      case False
      then have "?s ! i = d ! (i - length f - 2)" using lt
        by (simp add: nth_append nth_Cons' numeral_2_eq_2)
      moreover have "i - length f - 2 < length d" using facts lt False by (simp, linarith)
      ultimately show False using hd assms by (metis nth_mem)
    qed
  qed
  ultimately have "i = length f" by simp
  then show ?thesis using i by (simp add: rsplit_once_def)
qed

lemma digit_char_value [simp]: "k < 10 \<Longrightarrow> digit_value (digit_char k) = k"
  by (simp add: digit_value_def digit_char_def)

lemma digit_char_digit [simp]: "k < 10 \<Longrightarrow> is_ascii_digit (digit_char k)"
  by (simp add: is_ascii_digit_def digit_char_def)

lemma digit_char_of_value: "is_ascii_digit c \<Longrightarrow> digit_char (digit_value c) = c \<and> digit_value c < 10"
  by (auto simp: is_ascii_digit_def digit_char_def digit_value_def)

lemma decimal_value_snoc [simp]: "decimal_value (s @ [c]) = 10 * decimal_value s + digit_value c"
  by (simp add: decimal_value_def)

lemma decimal_value_string: "decimal_value (decimal_string n) = n"
  by (induction n rule: decimal_string.induct)
     (subst decimal_string.simps, auto simp: decimal_value_def[of "[_]"])

lemma decimal_string_digits: "list_all is_ascii_digit (decimal_string n) \<and> decimal_string n \<noteq> []"
  by (induction n rule: decimal_string.induct) (subst (1 2) decimal_string.simps, auto)

lemma decimal_string_head: "0 < n \<Longrightarrow> take 1 (decimal_string n) \<noteq> ''0''"
proof (induction n rule: decimal_string.induct)
  case (1 n)
  show ?case
  proof (cases "n < 10")
    case True
    have "digit_char n \<noteq> CHR ''0''" using True 1 digit_char_value[of n] by (auto simp: digit_value_def)
    then show ?thesis using True by (subst decimal_string.simps) simp
  next
    case False
    then have "take 1 (decimal_string (n div 10)) \<noteq> ''0''" using 1 by simp
    then show ?thesis using False decimal_string_digits[of "n div 10"]
      by (subst decimal_string.simps) (cases "decimal_string (n div 10)", auto)
  qed
qed

lemma decimal_string_value:
  assumes "s \<noteq> []" "list_all is_ascii_digit s" "take 1 s \<noteq> ''0''"
  shows "0 < decimal_value s \<and> decimal_string (decimal_value s) = s"
  using assms
proof (induction s rule: rev_induct)
  case (snoc c s)
  have c: "digit_char (digit_value c) = c" "digit_value c < 10"
    using snoc.prems digit_char_of_value[of c] by auto
  show ?case
  proof (cases "s = []")
    case True
    have "digit_value c \<noteq> 0"
    proof
      assume "digit_value c = 0"
      then have "c = digit_char 0" using c by simp
      also have "\<dots> = CHR ''0''" by code_simp
      finally show False using snoc.prems True by simp
    qed
    then show ?thesis using True c by (subst decimal_string.simps) (simp add: decimal_value_def)
  next
    case False
    then have IH: "0 < decimal_value s" "decimal_string (decimal_value s) = s"
      using snoc by (auto simp: neq_Nil_conv)
    have "\<not> 10 * decimal_value s + digit_value c < 10" using IH by simp
    then show ?thesis using IH c by (subst decimal_string.simps) simp
  qed
qed simp

lemma family_and_version_cases:
  assumes "family_and_version name = (f, v)"
  shows "(v = 0 \<and> f = name) \<or> (0 < v \<and> name = f @ ''-v'' @ decimal_string v)"
proof (cases "rsplit_once ''-v'' name")
  case (Some ab)
  obtain a b where ab: "ab = (a, b)" by fastforce
  have s: "name = a @ ''-v'' @ b" using rsplit_once_split Some ab by blast
  show ?thesis using assms Some ab s decimal_string_value[of b]
    by (auto simp: family_and_version_def parse_u32_def split: if_splits option.splits)
qed (use assms in \<open>simp add: family_and_version_def\<close>)

lemma family_and_version_string:
  assumes "0 < v" "v \<le> u32_max"
  shows "family_and_version (f @ ''-v'' @ decimal_string v) = (f, v)"
proof -
  note d = decimal_string_digits[of v]
  have "CHR ''-'' \<notin> set (decimal_string v)"
    using d by (auto simp: list_all_iff is_ascii_digit_def)
  then show ?thesis using rsplit_once_last d assms decimal_string_head[OF assms(1)]
    by (simp add: family_and_version_def parse_u32_def decimal_value_string)
qed

lemma family_and_version_inj:
  "family_and_version a = family_and_version b \<Longrightarrow> a = b"
  using family_and_version_cases[of a] family_and_version_cases[of b]
  by (metis less_irrefl_nat prod.collapse)


section \<open>Requirements\<close>

lemma meets_refl: "meets a a"
  by (simp add: meets_def split: prod.splits)

lemma meets_trans: "meets a b \<Longrightarrow> meets b c \<Longrightarrow> meets a c"
  by (auto simp: meets_def split: prod.splits)

lemma meets_antisym: "meets a b \<Longrightarrow> meets b a \<Longrightarrow> a = b"
  by (rule family_and_version_inj) (auto simp: meets_def split: prod.splits)

lemma check_requires_ok:
  "check_requires required offered = Inr u \<longleftrightarrow>
     (\<forall>r\<in>set required. \<exists>p\<in>set offered. meets p r)"
  by (auto simp: check_requires_def Let_def filter_empty_conv)

lemma check_bounds_ok:
  "check_bounds names = Inr u \<longleftrightarrow>
     length names \<le> MAX_FEATURES \<and> (\<forall>n\<in>set names. length n \<le> MAX_FEATURE_NAME_LEN)"
  by (auto simp: check_bounds_def not_le[symmetric])

text \<open>No name of the registry carries a version suffix, so each is a family of its own.\<close>

lemma known_versions:
  "f \<in> set KNOWN \<Longrightarrow> family_and_version (fname f) = (fname f, 0) \<and> flows f = [fname f]"
proof -
  have "\<forall>f\<in>set KNOWN. family_and_version (fname f) = (fname f, 0) \<and> flows f = [fname f]"
    by code_simp
  then show "f \<in> set KNOWN \<Longrightarrow> ?thesis" by blast
qed

lemma served_known: "name \<in> served lnf \<longleftrightarrow> name \<in> set (supported lnf) \<and> (\<exists>f\<in>set KNOWN. fname f = name)"
  by (auto simp: served_def supported_def KNOWN_def FORMAT_NAMES_def)

lemma served_for_iff: "served_for lnf flow p \<longleftrightarrow> p = flow \<and> flow \<in> served lnf"
  using known_versions by (auto simp: served_for_def served_known)

lemma named_flows_set: "set (named_flows lnf pins) = set pins \<inter> served lnf"
  using known_versions by (auto simp: named_flows_def served_known)

lemma named_flows_distinct: "distinct (named_flows lnf pins)"
  unfolding named_flows_def
  by (rule distinct_filter) (simp add: supported_def KNOWN_def FORMAT_NAMES_def)

lemma named_flows_single: "flow \<in> served lnf \<Longrightarrow> named_flows lnf [flow] = [flow]"
  using named_flows_set[of lnf "[flow]"] named_flows_distinct[of lnf "[flow]"]
  by (cases "named_flows lnf [flow]") (auto simp: subset_singleton_iff)

lemma check_pins_ok:
  "check_pins lnf pins required = Inr flow \<longleftrightarrow>
     pins = [flow] \<and> flow \<in> served lnf \<and> unmet_for_flow required [flow] flow = Inr ()"
  (is "?L \<longleftrightarrow> ?R")
proof
  assume ?L
  then have n: "named_flows lnf pins = [flow]" and s: "find (\<lambda>p. \<not> served_for lnf flow p) pins = None"
    and d: "duplicate_family [] pins = None" and u: "unmet_for_flow required pins flow = Inr ()"
    by (auto simp: check_pins_def result_simps split: list.splits option.splits)
  from s have all: "\<forall>p\<in>set pins. p = flow" by (auto simp: find_None_iff served_for_iff)
  from n named_flows_set[of lnf pins] have f: "flow \<in> set pins" "flow \<in> served lnf" by auto
  have "pins = [flow]"
  proof (cases pins)
    case (Cons p ps)
    then show ?thesis using all d by (cases ps) auto
  qed (use f in simp)
  with f u show ?R by simp
next
  assume R: ?R
  have "length flow \<le> 11" using R by (auto simp: served_def split: if_splits)
  then show ?L using R
    by (simp add: check_pins_def check_bounds_def MAX_FEATURES_def MAX_FEATURE_NAME_LEN_def
        named_flows_single served_for_iff)
qed

lemma choose_pins_eq:
  "choose_pins lnf flow theirs = (if flow \<in> served lnf \<and> flow \<in> set theirs then [flow] else [])"
proof -
  have "filter (\<lambda>f. flow \<in> set (flows f) \<and> fname f \<in> set (supported lnf) \<and> fname f \<in> set theirs) KNOWN
      = filter (\<lambda>f. fname f = flow \<and> flow \<in> served lnf \<and> flow \<in> set theirs) KNOWN"
    using known_versions by (intro filter_cong) (auto simp: served_known)
  moreover have "filter (\<lambda>f. fname f = flow) KNOWN = [] \<or> (\<exists>f. filter (\<lambda>f. fname f = flow) KNOWN = [f] \<and> fname f = flow)"
    by (auto simp: KNOWN_def)
  moreover have "flow \<in> served lnf \<Longrightarrow> filter (\<lambda>f. fname f = flow) KNOWN \<noteq> []"
    by (auto simp: served_known filter_empty_conv)
  ultimately show ?thesis by (auto simp: choose_pins_def)
qed

lemma unknown_not_met: "known_family r = [] \<Longrightarrow> flow \<in> served lnf \<Longrightarrow> \<not> meets flow r"
  using known_versions
  by (auto simp: known_family_def filter_empty_conv served_known meets_def split: prod.splits)

section \<open>Properties\<close>

text \<open>
  Feature names are canonical. Reading a name as a family and a version loses nothing:
  two different names never have the same family and version. A name printed from a family
  and a positive 32-bit version reads back as exactly that pair.
\<close>

theorem feature_names_canonical:
  "(family_and_version a = family_and_version b \<longrightarrow> a = b) \<and>
   (0 < v \<and> v \<le> u32_max \<longrightarrow> family_and_version (f @ ''-v'' @ decimal_string v) = (f, v))"
  using family_and_version_inj family_and_version_string by blast

theorem feature_names_canonical_witness:
  "family_and_version (''legacy'' @ ''-v'' @ decimal_string 12) = (''legacy'', 12)"
  using feature_names_canonical[of a a 12 "''legacy''"] by simp

text \<open>
  Requirement check. A list of requirements is accepted exactly when every one is met
  by an offered name of the same family at the same or a higher version; a refusal lists
  exactly the unmet ones. Being met is a partial order on names, so a peer that upgrades
  every feature it offers still meets whatever it met before.
\<close>

theorem check_requires_exact:
  "(check_requires required offered = Inr () \<longleftrightarrow>
      (\<forall>r\<in>set required. \<exists>p\<in>set offered. meets p r)) \<and>
   (check_requires required offered = Inl missing \<longrightarrow>
      set missing = {r \<in> set required. \<forall>p\<in>set offered. \<not> meets p r}) \<and>
   (check_requires required offered = Inr () \<and> (\<forall>p\<in>set offered. \<exists>q\<in>set upgraded. meets q p)
      \<longrightarrow> check_requires required upgraded = Inr ()) \<and>
   (meets a b \<and> meets b a \<longrightarrow> a = b)"
  using meets_antisym
  by (auto simp: check_requires_ok) (auto simp: check_requires_def Let_def split: if_splits
      intro: meets_trans, meson meets_trans)

theorem check_requires_exact_witness:
  "let x = (\<lambda>v. ''x'' @ ''-v'' @ decimal_string v) in
   check_requires [x 2] [x 3] = Inr () \<and> check_requires [x 2] [x 7] = Inr ()"
proof -
  define x where "x = (\<lambda>v. ''x'' @ ''-v'' @ decimal_string v)"
  have v: "family_and_version (x 2) = (''x'', 2)" "family_and_version (x 3) = (''x'', 3)"
    "family_and_version (x 7) = (''x'', 7)"
    unfolding x_def by (rule family_and_version_string; simp)+
  then have "check_requires [x 2] [x 3] = Inr ()" "meets (x 7) (x 3)"
    by (simp_all add: check_requires_def meets_def)
  with check_requires_exact[of "[x 2]" "[x 3]" _ "[x 7]"] show ?thesis
    unfolding x_def Let_def by simp
qed

text \<open>
  C38 (pins decide one flow). A list of pins is accepted for a flow exactly when it is the
  one name of that flow, this build serves it, and every requirement that applies to the
  flow is met by it. Every other list is refused.
\<close>

theorem check_pins_exact:
  "check_pins lnf pins required = Inr flow \<longleftrightarrow>
     pins = [flow] \<and> flow \<in> served lnf \<and>
     (\<forall>r\<in>set required. applies_to r flow \<longrightarrow> meets flow r)"
  by (auto simp: check_pins_ok unmet_for_flow_def check_requires_ok)

theorem check_pins_exact_witness:
  "check_pins False [''taproot''] [''legacy''] = Inr ''taproot''"
proof -
  have "''taproot'' \<in> served False" "\<not> applies_to ''legacy'' ''taproot''" by code_simp+
  with check_pins_exact[of False "[''taproot'']" "[''legacy'']" "''taproot''"] show ?thesis by simp
qed

text \<open>
  C39 (both ends agree on the pins). The pins a taker chooses for a flow that both sides
  serve are accepted by the maker for exactly that flow whenever the maker's requirements
  for the flow are met, and a taker that finds no common feature pins nothing.
\<close>

theorem chosen_pins_accepted:
  "(flow \<in> served maker \<and> flow \<in> served taker \<and> flow \<in> set theirs \<and>
      unmet_for_flow required [flow] flow = Inr ()
      \<longrightarrow> check_pins maker (choose_pins taker flow theirs) required = Inr flow) \<and>
   (flow \<notin> set theirs \<longrightarrow> choose_pins taker flow theirs = [])"
  by (simp add: choose_pins_eq check_pins_ok)

theorem chosen_pins_accepted_witness:
  "check_pins True (choose_pins False ''legacy'' [''taproot'', ''legacy'']) [''legacy''] =
     Inr ''legacy''"
proof -
  have "''legacy'' \<in> served True" "''legacy'' \<in> served False"
    "unmet_for_flow [''legacy''] [''legacy''] ''legacy'' = Inr ()" by code_simp+
  with chosen_pins_accepted[of "''legacy''" True False "[''taproot'', ''legacy'']" "[''legacy'']"]
  show ?thesis by simp
qed



end
