(* ===== verification/Messages.thy ===== *)
theory Messages
  imports Bitcoin Features
begin

text \<open>
  The wire messages of the on-chain protocols (\<open>protocol/common_messages.rs\<close>,
  \<open>protocol/legacy_messages.rs\<close>, \<open>protocol/taproot_messages.rs\<close>): one record per struct, one
  datatype per enum. Field names carry a prefix because they share one name space. The
  Lightning message family is not modelled and appears as a message without content.
\<close>

section \<open>Common messages\<close>

record Hello =
  hello_features :: "string list"

fun feature_name :: "ProtocolVersion \<Rightarrow> string" where
  "feature_name Legacy = ''legacy''"
| "feature_name Taproot = ''taproot''"

text \<open>The parts of an offer that its shape check reads; a name is a list of code points.\<close>

record Offer =
  offer_base_fee :: u64
  offer_amount_relative_fee_pct :: f64
  offer_time_relative_fee_pct :: f64
  offer_required_confirms :: u32
  offer_minimum_locktime :: u16
  offer_max_size :: u64
  offer_min_size :: u64
  offer_tweakable_point :: PublicKey
  offer_name :: "nat list"

definition validate_shape :: "Offer \<Rightarrow> string + unit" where
  "validate_shape offer =
     res_bind (check_fee_pcts (offer_amount_relative_fee_pct offer)
                 (offer_time_relative_fee_pct offer)) (\<lambda>_.
     if offer_max_size offer < offer_min_size offer
     then Inl ''offer has min_size above max_size''
     else ensure (check_maker_name (offer_name offer)) ''invalid maker name'')"

record SwapDetails =
  sd_id :: string
  sd_features :: "string list"
  sd_amount :: Amount
  sd_tx_count :: u32
  sd_incoming_count :: u32
  sd_max_input_budget :: u32
  sd_feerate :: u64
  sd_timelock :: u32
  sd_refund_locktime_offset :: u16

definition sd_protocol :: "SwapDetails \<Rightarrow> ProtocolVersion option" where
  "sd_protocol details =
     find (\<lambda>p. \<exists>f\<in>set (sd_features details). f = feature_name p) [Legacy, Taproot]"

record AckSwapDetails =
  ack_tweakable_point :: "PublicKey option"
  ack_funding_splits :: "u32 list"

definition ack_accept :: "PublicKey \<Rightarrow> u32 list \<Rightarrow> AckSwapDetails" where
  "ack_accept point splits = \<lparr>ack_tweakable_point = Some point, ack_funding_splits = splits\<rparr>"

definition ack_reject :: AckSwapDetails where
  "ack_reject = \<lparr>ack_tweakable_point = None, ack_funding_splits = []\<rparr>"

record SwapPrivkey =
  pk_identifier :: ScriptBuf
  pk_key :: SecretKey

record PrivateKeyHandover =
  pkh_id :: string
  privkeys :: "SwapPrivkey list"

section \<open>Legacy messages\<close>

record ContractTxInfoForSender =
  cs_multisig_nonce :: SecretKey
  cs_hashlock_nonce :: SecretKey
  cs_timelock_pubkey :: PublicKey
  cs_senders_contract_tx :: Transaction
  cs_multisig_redeemscript :: ScriptBuf
  cs_funding_input_value :: Amount

record ReqContractSigsForSender =
  rs_id :: string
  rs_txs_info :: "ContractTxInfoForSender list"
  rs_hashvalue :: Hash160
  rs_locktime :: u16

record RespContractSigsForSender =
  rss_id :: string
  rss_sigs :: "Signature list"

record FundingTxInfo =
  fi_funding_tx :: Transaction
  fi_multisig_redeemscript :: ScriptBuf
  fi_multisig_nonce :: SecretKey
  fi_contract_redeemscript :: ScriptBuf
  fi_hashlock_nonce :: SecretKey

record NextHopInfo =
  next_multisig_pubkey :: PublicKey
  next_hashlock_pubkey :: PublicKey
  next_multisig_nonce :: SecretKey
  next_hashlock_nonce :: SecretKey

record ProofOfFunding =
  pof_id :: string
  confirmed_funding_txes :: "FundingTxInfo list"
  next_openswap_info :: "NextHopInfo list"
  pof_refund_locktime :: u16

record SenderContractTxInfo =
  sc_funding_tx :: Transaction
  sc_contract_tx :: Transaction
  sc_timelock_pubkey :: PublicKey
  sc_multisig_redeemscript :: ScriptBuf
  sc_contract_redeemscript :: ScriptBuf
  sc_funding_amount :: Amount
  sc_multisig_nonce :: SecretKey
  sc_hashlock_nonce :: SecretKey

record ReqContractSigsAsRecvrAndSender =
  receivers_contract_txs :: "Transaction list"
  senders_contract_txs_info :: "SenderContractTxInfo list"

record RespContractSigsForRecvrAndSender =
  rrs_id :: string
  receivers_sigs :: "Signature list"
  senders_sigs :: "Signature list"

record ContractTxInfoForRecvr =
  cr_multisig_redeemscript :: ScriptBuf
  cr_contract_tx :: Transaction

record ReqContractSigsForRecvr =
  rr_id :: string
  rr_txs :: "ContractTxInfoForRecvr list"

record RespContractSigsForRecvr =
  rrr_id :: string
  rrr_sigs :: "Signature list"

datatype LegacyTakerMessage =
    LReqContractSigsForSender ReqContractSigsForSender
  | LProofOfFunding ProofOfFunding
  | LRespContractSigsForRecvrAndSender RespContractSigsForRecvrAndSender
  | LReqContractSigsForRecvr ReqContractSigsForRecvr
  | LPrivateKeyHandover PrivateKeyHandover

fun legacy_swap_id :: "LegacyTakerMessage \<Rightarrow> string" where
  "legacy_swap_id (LReqContractSigsForSender req) = rs_id req"
| "legacy_swap_id (LProofOfFunding pof) = pof_id pof"
| "legacy_swap_id (LRespContractSigsForRecvrAndSender resp) = rrs_id resp"
| "legacy_swap_id (LReqContractSigsForRecvr req) = rr_id req"
| "legacy_swap_id (LPrivateKeyHandover handover) = pkh_id handover"

section \<open>Taproot messages\<close>

type_synonym SerializableScalar = bytes

record TaprootContractData =
  tcd_id :: string
  tcd_pubkeys :: "PublicKey list"
  tcd_next_hop_point :: PublicKey
  tcd_internal_keys :: "bytes list"
  tcd_tap_tweaks :: "SerializableScalar list"
  tcd_hashlock_script :: ScriptBuf
  tcd_timelock_scripts :: "ScriptBuf list"
  tcd_contract_txs :: "Transaction list"
  tcd_amounts :: "Amount list"
  tcd_hashlock_nonce :: "SecretKey option"
  tcd_next_hashlock_nonce :: "SecretKey option"

datatype TaprootTakerMessage =
    TContractData TaprootContractData
  | TPrivateKeyHandover PrivateKeyHandover

fun taproot_swap_id :: "TaprootTakerMessage \<Rightarrow> string" where
  "taproot_swap_id (TContractData data) = tcd_id data"
| "taproot_swap_id (TPrivateKeyHandover handover) = pkh_id handover"

section \<open>All messages\<close>

record UnsupportedMessage =
  what :: string
  reason :: string

datatype TakerToMakerMessage =
    Hello_T Hello
  | GetOffer_T
  | SwapDetails_T SwapDetails
  | ReqContractSigsForSender_T ReqContractSigsForSender
  | ProofOfFunding_T ProofOfFunding
  | RespContractSigsForRecvrAndSender_T RespContractSigsForRecvrAndSender
  | ReqContractSigsForRecvr_T ReqContractSigsForRecvr
  | LegacyPrivateKeyHandover_T PrivateKeyHandover
  | TaprootContractData_T TaprootContractData
  | TaprootPrivateKeyHandover_T PrivateKeyHandover
  | WaitingFundingConfirmation_T string
  | Lightning_T
  | Unsupported_T UnsupportedMessage

datatype MakerToTakerMessage =
    Hello_M Hello
  | Offer_M Offer
  | AckSwapDetails_M AckSwapDetails
  | RespContractSigsForSender_M RespContractSigsForSender
  | ReqContractSigsAsRecvrAndSender_M ReqContractSigsAsRecvrAndSender
  | RespContractSigsForRecvr_M RespContractSigsForRecvr
  | LegacyPrivateKeyHandover_M PrivateKeyHandover
  | TaprootContractData_M TaprootContractData
  | TaprootPrivateKeyHandover_M PrivateKeyHandover
  | Lightning_M
  | Unsupported_M UnsupportedMessage

end
