(* ===== verification/Contract.thy ===== *)
theory Contract
  imports Messages
begin

text \<open>
  Contract scripts and contract transactions (\<open>protocol/contract.rs\<close> and
  \<open>protocol/contract2.rs\<close>): building the 2-of-2 multisig and the hash-time-locked scripts,
  reading their parts back, building and checking contract transactions.
\<close>

section \<open>Multisig scripts\<close>

definition MIN_HASHV_LEN :: nat where "MIN_HASHV_LEN = 25"
definition PUBKEY_LENGTH :: nat where "PUBKEY_LENGTH = 33"
definition PUBKEY1_OFFSET :: nat where "PUBKEY1_OFFSET = 2"
definition PUBKEY2_OFFSET :: nat where "PUBKEY2_OFFSET = PUBKEY1_OFFSET + PUBKEY_LENGTH + 1"

lemmas offset_consts = MIN_HASHV_LEN_def PUBKEY_LENGTH_def PUBKEY1_OFFSET_def PUBKEY2_OFFSET_def

definition slice :: "nat \<Rightarrow> nat \<Rightarrow> 'a list \<Rightarrow> 'a list" where
  "slice i j xs = take (j - i) (drop i xs)"

definition redeemscript_to_scriptpubkey :: "bitcoin_lib \<Rightarrow> ScriptBuf \<Rightarrow> protocol_error + ScriptBuf" where
  "redeemscript_to_scriptpubkey lib redeemscript =
     witness_program_v0 lib (wscript_hash lib redeemscript)"

definition apply_two_signatures_to_2of2_multisig_spend ::
  "bitcoin_lib \<Rightarrow> PublicKey \<Rightarrow> PublicKey \<Rightarrow> Signature \<Rightarrow> Signature \<Rightarrow> TxIn \<Rightarrow> ScriptBuf \<Rightarrow> TxIn" where
  "apply_two_signatures_to_2of2_multisig_spend lib key1 key2 sig1 sig2 inp redeemscript =
     (let (sig_first, sig_second) = (if inner key1 < inner key2 then (sig1, sig2) else (sig2, sig1))
      in inp\<lparr>witness := witness inp @ [[], sig_to_vec lib sig_first, sig_to_vec lib sig_second,
           redeemscript]\<rparr>)"

definition create_multisig_redeemscript :: "bitcoin_lib \<Rightarrow> PublicKey \<Rightarrow> PublicKey \<Rightarrow> ScriptBuf" where
  "create_multisig_redeemscript lib key1 key2 =
     into_script lib
       ([push_opcode (OP_PUSHNUM 2)] @
        (if inner key1 < inner key2 then [push_key key1, push_key key2]
         else [push_key key2, push_key key1]) @
        [push_opcode (OP_PUSHNUM 2), push_opcode OP_CHECKMULTISIG])"

definition calculate_pubkey_from_nonce ::
  "bitcoin_lib \<Rightarrow> PublicKey \<Rightarrow> SecretKey \<Rightarrow> protocol_error + PublicKey" where
  "calculate_pubkey_from_nonce lib tweakable_point nonce =
     res_bind (combine lib (inner tweakable_point) (secret_point lib nonce))
       (\<lambda>p. Inr \<lparr>compressed = True, inner = p\<rparr>)"

text \<open>\<open>Iterator::position\<close>.\<close>

fun position :: "('a \<Rightarrow> bool) \<Rightarrow> 'a list \<Rightarrow> nat option" where
  "position P [] = None"
| "position P (x # xs) = (if P x then Some 0 else map_option Suc (position P xs))"

definition find_funding_output_index :: "bitcoin_lib \<Rightarrow> FundingTxInfo \<Rightarrow> protocol_error + u32" where
  "find_funding_output_index lib info =
     res_bind (redeemscript_to_scriptpubkey lib (fi_multisig_redeemscript info)) (\<lambda>spk.
     ok_or (position (\<lambda>o'. script_pubkey o' = spk) (tx_output (fi_funding_tx info)))
       (PGeneral ''Funding output does not match with multisig redeem script''))"

definition read_pubkeys_from_multisig_redeemscript ::
  "bitcoin_lib \<Rightarrow> ScriptBuf \<Rightarrow> protocol_error + (PublicKey \<times> PublicKey)" where
  "read_pubkeys_from_multisig_redeemscript lib redeemscript =
     (if length redeemscript < PUBKEY2_OFFSET + PUBKEY_LENGTH
      then Inl (PGeneral ''Multisig redeemscript too short'')
      else
        res_bind (pubkey_from_slice lib
          (slice PUBKEY1_OFFSET (PUBKEY1_OFFSET + PUBKEY_LENGTH) redeemscript)) (\<lambda>pubkey1.
        res_bind (pubkey_from_slice lib
          (slice PUBKEY2_OFFSET (PUBKEY2_OFFSET + PUBKEY_LENGTH) redeemscript)) (\<lambda>pubkey2.
        Inr (pubkey1, pubkey2))))"

definition PUB_PLACEHOLDER :: bytes where
  "PUB_PLACEHOLDER = replicate 33 2"

definition splice :: "nat \<Rightarrow> nat \<Rightarrow> 'a list \<Rightarrow> 'a list \<Rightarrow> 'a list" where
  "splice i j ys xs = take i xs @ ys @ drop j xs"

definition check_reedemscript_is_multisig :: "bitcoin_lib \<Rightarrow> ScriptBuf \<Rightarrow> protocol_error + unit" where
  "check_reedemscript_is_multisig lib redeemscript =
     res_bind (pubkey_from_slice lib PUB_PLACEHOLDER) (\<lambda>placeholder.
     let template = create_multisig_redeemscript lib placeholder placeholder in
     if length redeemscript \<noteq> length template
     then Inl (PGeneral ''Wrong multisig_redeemscript length'')
     else if splice 36 69 PUB_PLACEHOLDER (splice 2 35 PUB_PLACEHOLDER redeemscript) \<noteq> template
     then Inl (PGeneral ''Redeemscript not matching multisig template'')
     else Inr ())"

definition check_multisig_has_pubkey ::
  "bitcoin_lib \<Rightarrow> ScriptBuf \<Rightarrow> PublicKey \<Rightarrow> SecretKey \<Rightarrow> protocol_error + unit" where
  "check_multisig_has_pubkey lib redeemscript tweakable_point nonce =
     res_bind (read_pubkeys_from_multisig_redeemscript lib redeemscript) (\<lambda>(pubkey1, pubkey2).
     res_bind (calculate_pubkey_from_nonce lib tweakable_point nonce) (\<lambda>my_pubkey.
     if pubkey1 \<noteq> my_pubkey \<and> pubkey2 \<noteq> my_pubkey
     then Inl (PGeneral ''Wrong pubkeys in multisig_redeemscript'')
     else Inr ()))"

section \<open>Hash-time-locked contract scripts\<close>

definition contract_items ::
  "PublicKey \<Rightarrow> PublicKey \<Rightarrow> Hash160 \<Rightarrow> u16 \<Rightarrow> builder_item list" where
  "contract_items pub_hashlock pub_timelock hashvalue locktime =
     [push_opcode OP_SIZE, push_opcode OP_SWAP, push_opcode OP_HASH160, push_slice hashvalue,
      push_opcode OP_EQUAL, push_opcode OP_IF,
        push_key pub_hashlock, push_int 32, push_int 0,
      push_opcode OP_ELSE,
        push_key pub_timelock, push_int 0, push_int (int locktime),
      push_opcode OP_ENDIF, push_opcode OP_CSV, push_opcode OP_DROP, push_opcode OP_ROT,
      push_opcode OP_EQUALVERIFY, push_opcode OP_CHECKSIG]"

definition create_contract_redeemscript ::
  "bitcoin_lib \<Rightarrow> PublicKey \<Rightarrow> PublicKey \<Rightarrow> Hash160 \<Rightarrow> u16 \<Rightarrow> ScriptBuf" where
  "create_contract_redeemscript lib pub_hashlock pub_timelock hashvalue locktime =
     into_script lib (contract_items pub_hashlock pub_timelock hashvalue locktime)"

text \<open>\<open>nth_instruction\<close>: \<open>.instructions().nth(i).ok_or(..)??\<close>.\<close>

definition nth_instruction :: "bitcoin_lib \<Rightarrow> ScriptBuf \<Rightarrow> nat \<Rightarrow> protocol_error + Instruction" where
  "nth_instruction lib script i =
     (let is = instructions lib script in
      if i < length is then is ! i
      else Inl (PGeneral ''contract redeemscript too short''))"

text \<open>\<open>Hash160::from_slice\<close> takes exactly 20 bytes.\<close>

definition hash160_from_slice :: "bytes \<Rightarrow> protocol_error + Hash160" where
  "hash160_from_slice b = (if length b = 20 then Inr b else Inl PLibrary)"

definition read_hashvalue_from_contract :: "bitcoin_lib \<Rightarrow> ScriptBuf \<Rightarrow> protocol_error + Hash160" where
  "read_hashvalue_from_contract lib redeemscript =
     (if length redeemscript < MIN_HASHV_LEN
      then Inl (PGeneral ''Contract redeemscript too short!'')
      else
        res_bind (nth_instruction lib redeemscript 2) (\<lambda>i.
        case i of
          Op OP_HASH160 \<Rightarrow>
            res_bind (nth_instruction lib redeemscript 3) (\<lambda>j.
            case j of
              PushBytes hash_b \<Rightarrow> hash160_from_slice hash_b
            | Op _ \<Rightarrow> Inl (PGeneral ''Invalid script!''))
        | _ \<Rightarrow> Inl (PGeneral ''Hash is not present!'')))"

definition u16_from_le_bytes :: "byte \<Rightarrow> byte \<Rightarrow> u16" where
  "u16_from_le_bytes lo hi = unat lo + 256 * unat hi"

definition read_contract_locktime :: "bitcoin_lib \<Rightarrow> ScriptBuf \<Rightarrow> protocol_error + u16" where
  "read_contract_locktime lib redeemscript =
     (let unreadable = Inl (PGeneral ''Cannot read locktime value from contract redeemscript'') in
      res_bind (nth_instruction lib redeemscript 12) (\<lambda>i.
      case i of
        PushBytes [b] \<Rightarrow> Inr (unat b)
      | PushBytes [b0, b1] \<Rightarrow> Inr (u16_from_le_bytes b0 b1)
      | PushBytes [b0, b1, b2] \<Rightarrow> if b2 \<noteq> 0 then unreadable else Inr (u16_from_le_bytes b0 b1)
      | PushBytes _ \<Rightarrow> unreadable
      | Op (OP_PUSHNUM n) \<Rightarrow> if 0 \<le> n \<and> n \<le> 65535 then Inr (nat n) else unreadable
      | Op _ \<Rightarrow> unreadable))"

definition read_hashlock_pubkey_from_contract ::
  "bitcoin_lib \<Rightarrow> ScriptBuf \<Rightarrow> protocol_error + PublicKey" where
  "read_hashlock_pubkey_from_contract lib redeemscript =
     (if length redeemscript < 61 then Inl (PGeneral ''Contract redeemscript too short'')
      else pubkey_from_slice lib (slice 27 60 redeemscript))"

definition check_hashlock_has_pubkey ::
  "bitcoin_lib \<Rightarrow> ScriptBuf \<Rightarrow> PublicKey \<Rightarrow> SecretKey \<Rightarrow> protocol_error + unit" where
  "check_hashlock_has_pubkey lib contract_redeemscript tweakable_point nonce =
     res_bind (read_hashlock_pubkey_from_contract lib contract_redeemscript) (\<lambda>contract_key.
     res_bind (calculate_pubkey_from_nonce lib tweakable_point nonce) (\<lambda>derived_key.
     if contract_key \<noteq> derived_key
     then Inl (PGeneral ''Contract hashlock pubkey does not match with key derived from nonce'')
     else Inr ()))"

section \<open>Contract transactions\<close>

text \<open>\<open>Sequence::ZERO\<close>, \<open>LockTime::ZERO\<close> and \<open>Version::TWO\<close> are 0, 0 and 2.\<close>

definition create_senders_contract_tx ::
  "bitcoin_lib \<Rightarrow> OutPoint \<Rightarrow> Amount \<Rightarrow> ScriptBuf \<Rightarrow> f64 \<Rightarrow> protocol_error + Transaction" where
  "create_senders_contract_tx lib inp input_value contract_redeemscript fee_rate =
     res_bind (ok_or (fee_at_rate_sats CONTRACT_TX_VSIZE fee_rate)
                 (PGeneral ''Contract tx fee rate cannot be priced'')) (\<lambda>fee_amount.
     res_bind (ok_or (checked_sub input_value fee_amount)
                 (PGeneral ''Funding output below contract tx fee'')) (\<lambda>contract_value.
     res_bind (redeemscript_to_scriptpubkey lib contract_redeemscript) (\<lambda>spk.
     if contract_value < minimal_non_dust lib spk
     then Inl (PGeneral ''Contract output below the dust threshold'')
     else Inr \<lparr>version = 2, lock_time = 0,
            tx_input = [\<lparr>previous_output = inp, script_sig = [], sequence = 0, witness = []\<rparr>],
            tx_output = [\<lparr>value_of = contract_value, script_pubkey = spk\<rparr>]\<rparr>)))"

definition create_receivers_contract_tx ::
  "bitcoin_lib \<Rightarrow> OutPoint \<Rightarrow> Amount \<Rightarrow> ScriptBuf \<Rightarrow> f64 \<Rightarrow> protocol_error + Transaction" where
  "create_receivers_contract_tx lib inp input_value contract_redeemscript fee_rate =
     create_senders_contract_tx lib inp input_value contract_redeemscript fee_rate"

definition is_contract_out_valid ::
  "bitcoin_lib \<Rightarrow> TxOut \<Rightarrow> PublicKey \<Rightarrow> PublicKey \<Rightarrow> Hash160 \<Rightarrow> u16 \<Rightarrow> u16 \<Rightarrow> protocol_error + unit" where
  "is_contract_out_valid lib contract_output hashlock_pubkey timelock_pubkey hashvalue locktime
       minimum_locktime =
     (if locktime < minimum_locktime then Inl (PGeneral ''Locktime too short'')
      else
        res_bind (redeemscript_to_scriptpubkey lib
          (create_contract_redeemscript lib hashlock_pubkey timelock_pubkey hashvalue locktime))
        (\<lambda>spk. if script_pubkey contract_output \<noteq> spk
              then Inl (PGeneral ''Given transaction does not pay to requested contract'')
              else Inr ()))"

definition validate_contract_tx ::
  "bitcoin_lib \<Rightarrow> Transaction \<Rightarrow> OutPoint option \<Rightarrow> ScriptBuf \<Rightarrow> protocol_error + unit" where
  "validate_contract_tx lib receivers_contract_tx funding_outpoint contract_redeemscript =
     (if length (tx_input receivers_contract_tx) \<noteq> 1 \<or> length (tx_output receivers_contract_tx) \<noteq> 1
      then Inl (PGeneral ''Invalid number of inputs or outputs'')
      else if (case funding_outpoint of
                 Some op \<Rightarrow> previous_output (tx_input receivers_contract_tx ! 0) \<noteq> op
               | None \<Rightarrow> False)
      then Inl (PGeneral ''Not spending the funding outpoint'')
      else
        res_bind (redeemscript_to_scriptpubkey lib contract_redeemscript) (\<lambda>spk.
        if script_pubkey (tx_output receivers_contract_tx ! 0) \<noteq> spk
        then Inl (PGeneral ''Does not pay to requested contract'')
        else Inr ()))"

text \<open>\<open>EcdsaSighashType::All\<close> is 1.\<close>

definition sign_contract_tx ::
  "bitcoin_lib \<Rightarrow> Transaction \<Rightarrow> ScriptBuf \<Rightarrow> Amount \<Rightarrow> SecretKey \<Rightarrow> protocol_error + Signature" where
  "sign_contract_tx lib contract_tx multisig_redeemscript funding_amount privkey =
     res_bind (p2wsh_sighash lib contract_tx 0 multisig_redeemscript funding_amount) (\<lambda>sighash.
     Inr \<lparr>signature = sign_ecdsa lib sighash privkey, sighash_type = 1\<rparr>)"

definition verify_contract_tx_sig ::
  "bitcoin_lib \<Rightarrow> Transaction \<Rightarrow> ScriptBuf \<Rightarrow> Amount \<Rightarrow> PublicKey \<Rightarrow> bytes \<Rightarrow> protocol_error + unit" where
  "verify_contract_tx_sig lib contract_tx multisig_redeemscript funding_amount pubkey sig =
     res_bind (p2wsh_sighash lib contract_tx 0 multisig_redeemscript funding_amount) (\<lambda>sighash.
     verify_ecdsa lib sighash sig (inner pubkey))"

fun sum_claimed_from :: "Amount \<Rightarrow> Amount list \<Rightarrow> Amount + Amount" where
  "sum_claimed_from acc [] = Inr acc"
| "sum_claimed_from acc (amount # amounts) =
     (if Amount_MAX_MONEY < amount then Inl amount
      else case checked_add acc amount of
             Some t \<Rightarrow> if t \<le> Amount_MAX_MONEY then sum_claimed_from t amounts else Inl amount
           | None \<Rightarrow> Inl amount)"

definition sum_claimed_amounts :: "Amount list \<Rightarrow> Amount + Amount" where
  "sum_claimed_amounts amounts = sum_claimed_from 0 amounts"

section \<open>Taproot contract scripts\<close>

definition create_hashlock_script :: "bitcoin_lib \<Rightarrow> bytes \<Rightarrow> bytes \<Rightarrow> ScriptBuf" where
  "create_hashlock_script lib hash pubkey =
     into_script lib [push_opcode OP_SHA256, push_slice hash, push_opcode OP_EQUALVERIFY,
       push_x_only_key pubkey, push_opcode OP_CHECKSIG]"

definition extract_hash_from_hashlock :: "bitcoin_lib \<Rightarrow> ScriptBuf \<Rightarrow> protocol_error + bytes" where
  "extract_hash_from_hashlock lib script =
     (let is = instructions lib script in
      if length is < 5 then Inl (PGeneral ''Invalid hashlock script format'')
      else case is ! 1 of
             Inr (PushBytes hash_bytes) \<Rightarrow>
               if length hash_bytes = 32 then Inr hash_bytes
               else Inl (PGeneral ''Failed to extract hash from hashlock script'')
           | _ \<Rightarrow> Inl (PGeneral ''Failed to extract hash from hashlock script''))"

definition check_taproot_hashlock_has_pubkey ::
  "bitcoin_lib \<Rightarrow> ScriptBuf \<Rightarrow> PublicKey \<Rightarrow> SecretKey \<Rightarrow> protocol_error + unit" where
  "check_taproot_hashlock_has_pubkey lib hashlock_script tweakable_point nonce =
     res_bind (calculate_pubkey_from_nonce lib tweakable_point nonce) (\<lambda>expected.
     let expected_xonly = x_only lib (inner expected);
         is = instructions lib hashlock_script;
         mismatch = Inl (PGeneral ''Taproot hashlock pubkey does not match nonce-derived key'')
     in if length is \<le> 3 then mismatch
        else case is ! 3 of
               Inr (PushBytes pk_bytes) \<Rightarrow>
                 (case xonly_from_slice lib pk_bytes of
                    Inr script_xonly \<Rightarrow> if script_xonly = expected_xonly then Inr () else mismatch
                  | Inl _ \<Rightarrow> mismatch)
             | _ \<Rightarrow> mismatch)"

definition create_timelock_script :: "bitcoin_lib \<Rightarrow> u32 \<Rightarrow> bytes \<Rightarrow> ScriptBuf" where
  "create_timelock_script lib locktime pubkey =
     into_script lib [push_lock_time locktime, push_opcode OP_CLTV, push_opcode OP_DROP,
       push_x_only_key pubkey, push_opcode OP_CHECKSIG]"

definition create_taproot_script ::
  "bitcoin_lib \<Rightarrow> ScriptBuf \<Rightarrow> ScriptBuf \<Rightarrow> bytes \<Rightarrow> protocol_error + ScriptBuf" where
  "create_taproot_script lib hashlock_script timelock_script internal_pubkey =
     new_p2tr lib hashlock_script timelock_script internal_pubkey"

text \<open>A library of concrete functions that satisfies the contracts, to evaluate examples.\<close>

definition ref_hash :: "bytes \<Rightarrow> bytes" where
  "ref_hash s = replicate 31 0 @ [foldl (\<lambda>a b. 3 * a + b + 1) 0 s]"

definition ref_lib :: bitcoin_lib where
  "ref_lib = \<lparr>
     into_script = ref_into_script,
     instructions = ref_instructions,
     wscript_hash = ref_hash,
     witness_program_v0 = (\<lambda>h. Inr (0 # 32 # h)),
     to_p2wsh = (\<lambda>s. 0 # 32 # ref_hash s),
     minimal_non_dust = (\<lambda>_. 330),
     compute_txid = (\<lambda>tx. sum_list (map value_of (tx_output tx)) + length (tx_input tx)),
     pubkey_from_slice = ref_pubkey_from_slice,
     xonly_from_slice = (\<lambda>b. if length b = 32 then Inr b else Inl PLibrary),
     secret_point = (\<lambda>k. 2 # k),
     combine = (\<lambda>p q. Inr (hd p # map2 (+) (tl p) (tl q))),
     x_only = tl,
     p2wsh_sighash = (\<lambda>tx i script amount. Inr (ref_hash script)),
     sign_ecdsa = (\<lambda>h k. h @ 2 # k),
     verify_ecdsa = (\<lambda>h s p. if s = h @ p then Inr () else Inl PLibrary),
     sig_to_vec = (\<lambda>s. signature s @ [of_nat (sighash_type s)]),
     new_p2tr = (\<lambda>h t k. Inr (81 # 32 # k)),
     control_block = (\<lambda>h t k s. Inr (192 # k)),
     taproot_leaf_script = (\<lambda>w. if length w < 2 then None else Some (192, w ! (length w - 2))),
     taproot_key_sighash = (\<lambda>tx out. Inr (ref_hash (script_pubkey out))),
     taproot_script_sighash = (\<lambda>tx out leaf ty. Inr (ref_hash (script_pubkey out @ leaf))),
     sign_schnorr = (\<lambda>m k. m @ k),
     tap_sig_to_vec = (\<lambda>s ty. s @ [of_nat ty]),
     key_agg_cache = (\<lambda>ks. foldl (\<lambda>a k. map2 (+) a (tl k)) (replicate 32 0) ks),
     agg_pk = (\<lambda>c. c),
     pubkey_xonly_tweak_add = (\<lambda>c t. Inr (map2 (+) c t)),
     new_nonce_pair = (\<lambda>r k. (r, k @ r)),
     aggregate_nonces = concat,
     musig_session = (\<lambda>c n m. c @ n @ m),
     partial_sign = (\<lambda>s sn sk c. s @ sn @ sk),
     partial_sig_agg = (\<lambda>s sigs. concat sigs),
     show_outpoint = (\<lambda>op. replicate (txid op) CHR ''o'' @ replicate (vout op) CHR ''v''),
     show_pubkey = (\<lambda>k. map (\<lambda>b. char_of (unat b)) (inner k)),
     show_lock_time = (\<lambda>n. replicate n CHR ''l''),
     show_amount = (\<lambda>n. replicate n CHR ''a''),
     var_int = (\<lambda>n. [of_nat n]),
     sha256d = ref_hash,
     sha3_256 = ref_hash,
     is_p2wsh = (\<lambda>s. length s = 34 \<and> hd s = 0),
     derive_pub = (\<lambda>p cc path. Inr (2 # map2 (+) (tl p) (replicate 32 (of_nat (sum_list path)))))\<rparr>"

section \<open>Reading scripts back\<close>

locale contract_lib =
  script_codec "into_script lib" "instructions lib" +
  key_codec "pubkey_from_slice lib" valid_point
  for lib :: bitcoin_lib and valid_point :: "bytes \<Rightarrow> bool"
begin

lemma build_cons2: "into_script lib (x # y # ys) = into_script lib [x] @ into_script lib (y # ys)"
  by (rule build_cons)

lemma push_key_bytes:
  "valid_point p \<Longrightarrow> into_script lib [push_key \<lparr>compressed = True, inner = p\<rparr>] = 33 # p"
  using point_length[of p] by (simp add: build_key build_slice)

lemma multisig_bytes:
  assumes "valid_point a" "valid_point b"
  shows "\<exists>x y z. create_multisig_redeemscript lib \<lparr>compressed = True, inner = a\<rparr> \<lparr>compressed = True, inner = b\<rparr> =
    [x] @ 33 # min a b @ 33 # max a b @ [y, z] \<and>
    into_script lib [push_opcode (OP_PUSHNUM 2)] = [x] \<and>
    into_script lib [push_opcode (OP_PUSHNUM 2)] = [y] \<and>
    into_script lib [push_opcode OP_CHECKMULTISIG] = [z]"
proof -
  obtain x where x: "into_script lib [push_opcode (OP_PUSHNUM 2)] = [x]" using build_opcode[of "OP_PUSHNUM 2"] by auto
  obtain z where z: "into_script lib [push_opcode OP_CHECKMULTISIG] = [z]" using build_opcode[of OP_CHECKMULTISIG] by auto
  let ?k = "\<lambda>p. push_key \<lparr>compressed = True, inner = p\<rparr>"
  have "into_script lib [push_opcode (OP_PUSHNUM 2), ?k p, ?k q, push_opcode (OP_PUSHNUM 2), push_opcode OP_CHECKMULTISIG]
     = [x] @ 33 # p @ 33 # q @ [x, z]" if "valid_point p" "valid_point q" for p q
    by (simp add: build_cons2 x z push_key_bytes that)
  then show ?thesis using assms x z
    by (auto simp: create_multisig_redeemscript_def min_def max_def)
qed

lemma multisig_length:
  assumes "valid_point a" "valid_point b"
  shows "length (create_multisig_redeemscript lib \<lparr>compressed = True, inner = a\<rparr> \<lparr>compressed = True, inner = b\<rparr>) = 71"
  using multisig_bytes[OF assms] point_length[OF assms(1)] point_length[OF assms(2)]
  by (auto simp: min_def max_def)

lemma read_multisig:
  assumes "valid_point a" "valid_point b"
  shows "read_pubkeys_from_multisig_redeemscript lib
      (create_multisig_redeemscript lib \<lparr>compressed = True, inner = a\<rparr> \<lparr>compressed = True, inner = b\<rparr>) =
    Inr (\<lparr>compressed = True, inner = min a b\<rparr>, \<lparr>compressed = True, inner = max a b\<rparr>)"
proof -
  obtain x y z where m: "create_multisig_redeemscript lib \<lparr>compressed = True, inner = a\<rparr> \<lparr>compressed = True, inner = b\<rparr>
      = [x] @ 33 # min a b @ 33 # max a b @ [y, z]" using multisig_bytes[OF assms] by blast
  have v: "valid_point (min a b)" "valid_point (max a b)" using assms by (auto simp: min_def max_def)
  then have "length (min a b) = 33" "length (max a b) = 33" by (auto intro: point_length)
  then show ?thesis unfolding m
    by (simp add: read_pubkeys_from_multisig_redeemscript_def offset_consts slice_def read_valid v)
qed

lemma multisig_accepted:
  assumes "valid_point a" "valid_point b"
  shows "check_reedemscript_is_multisig lib
      (create_multisig_redeemscript lib \<lparr>compressed = True, inner = a\<rparr> \<lparr>compressed = True, inner = b\<rparr>) = Inr ()"
proof -
  let ?p = "replicate 33 2 :: bytes"
  obtain x y z where m: "create_multisig_redeemscript lib \<lparr>compressed = True, inner = a\<rparr> \<lparr>compressed = True, inner = b\<rparr>
      = [x] @ 33 # min a b @ 33 # max a b @ [y, z]"
      and o1: "into_script lib [push_opcode (OP_PUSHNUM 2)] = [x]"
      "into_script lib [push_opcode (OP_PUSHNUM 2)] = [y]" "into_script lib [push_opcode OP_CHECKMULTISIG] = [z]"
    using multisig_bytes[OF assms] by blast
  obtain x' y' z' where t: "create_multisig_redeemscript lib \<lparr>compressed = True, inner = ?p\<rparr> \<lparr>compressed = True, inner = ?p\<rparr>
      = [x'] @ 33 # min ?p ?p @ 33 # max ?p ?p @ [y', z']"
      and o2: "into_script lib [push_opcode (OP_PUSHNUM 2)] = [x']"
      "into_script lib [push_opcode (OP_PUSHNUM 2)] = [y']" "into_script lib [push_opcode OP_CHECKMULTISIG] = [z']"
    using multisig_bytes[OF placeholder_valid placeholder_valid] by blast
  have e: "x' = x" "y' = y" "z' = z" using o1 o2 by auto
  have "length (min a b) = 33" "length (max a b) = 33" using assms by (auto simp: min_def max_def intro: point_length)
  then show ?thesis unfolding check_reedemscript_is_multisig_def PUB_PLACEHOLDER_def read_valid[OF placeholder_valid] m
    by (simp add: t e splice_def)
qed

lemma contract_parse:
  assumes "valid_point h" "valid_point t" "length hv = 20" "locktime \<le> u16_max"
  shows "instructions lib (create_contract_redeemscript lib \<lparr>compressed = True, inner = h\<rparr>
      \<lparr>compressed = True, inner = t\<rparr> hv locktime) =
    map (\<lambda>x. Inr (item_instruction x)) (contract_items \<lparr>compressed = True, inner = h\<rparr>
      \<lparr>compressed = True, inner = t\<rparr> hv locktime)"
  unfolding create_contract_redeemscript_def
  by (rule parse_built) (use assms in \<open>simp add: contract_items_def point_length\<close>)

lemma contract_bytes:
  assumes "valid_point h" "length hv = 20"
  shows "\<exists>x rest. create_contract_redeemscript lib \<lparr>compressed = True, inner = h\<rparr> timekey hv locktime =
     x @ 33 # h @ rest \<and> length x = 26 \<and> 0 < length rest"
proof -
  have op: "\<exists>b. into_script lib [push_opcode op] = [b]" if "opcode_ok op" for op
    using build_opcode[OF that] .
  obtain o1 o2 o3 o4 o5 o6 where o: "into_script lib [push_opcode OP_SIZE] = [o1]" "into_script lib [push_opcode OP_SWAP] = [o2]"
      "into_script lib [push_opcode OP_HASH160] = [o3]" "into_script lib [push_opcode OP_EQUAL] = [o4]"
      "into_script lib [push_opcode OP_IF] = [o5]" "into_script lib [push_opcode OP_ELSE] = [o6]"
    using op[of OP_SIZE] op[of OP_SWAP] op[of OP_HASH160] op[of OP_EQUAL] op[of OP_IF] op[of OP_ELSE] by auto
  show ?thesis
    by (rule exI[of _ "[o1, o2, o3, 20] @ hv @ [o4, o5]"], rule exI)
       (use assms in \<open>auto simp: create_contract_redeemscript_def contract_items_def build_cons2 o
          build_slice push_key_bytes\<close>)
qed

lemma read_hashvalue:
  assumes "valid_point h" "valid_point t" "length hv = 20" "locktime \<le> u16_max"
  shows "read_hashvalue_from_contract lib (create_contract_redeemscript lib \<lparr>compressed = True, inner = h\<rparr>
      \<lparr>compressed = True, inner = t\<rparr> hv locktime) = Inr hv"
proof -
  have "MIN_HASHV_LEN \<le> length (create_contract_redeemscript lib \<lparr>compressed = True, inner = h\<rparr>
      \<lparr>compressed = True, inner = t\<rparr> hv locktime)"
    using contract_bytes[OF assms(1,3), of "\<lparr>compressed = True, inner = t\<rparr>" locktime]
    by (auto simp: offset_consts)
  then show ?thesis using assms(3)
    by (simp add: read_hashvalue_from_contract_def nth_instruction_def contract_parse[OF assms]
        contract_items_def hash160_from_slice_def)
qed

lemma read_hashlock_pubkey:
  assumes "valid_point h" "length hv = 20"
  shows "read_hashlock_pubkey_from_contract lib
      (create_contract_redeemscript lib \<lparr>compressed = True, inner = h\<rparr> timekey hv locktime) =
    Inr \<lparr>compressed = True, inner = h\<rparr>"
proof -
  obtain x rest where m: "create_contract_redeemscript lib \<lparr>compressed = True, inner = h\<rparr> timekey hv locktime =
     x @ 33 # h @ rest" "length x = 26" "0 < length rest" using contract_bytes[OF assms] by blast
  have "length h = 33" by (rule point_length[OF assms(1)])
  then show ?thesis using m
    by (simp add: read_hashlock_pubkey_from_contract_def slice_def read_valid[OF assms(1)])
qed

end

lemma le_bytes_read:
  assumes "16 < n" "n \<le> u16_max"
  shows "(case le_bytes n of
      [b] \<Rightarrow> unat b = n
    | [b0, b1] \<Rightarrow> u16_from_le_bytes b0 b1 = n
    | [b0, b1, b2] \<Rightarrow> b2 = 0 \<and> u16_from_le_bytes b0 b1 = n
    | _ \<Rightarrow> False)"
proof -
  have "n mod 256 + 256 * (n div 256) = n" by simp
  moreover have "n div 256 < 256" using assms by simp
  ultimately show ?thesis using assms
    by (simp add: le_bytes_16 u16_from_le_bytes_def unat_of_nat)
qed

context contract_lib
begin

lemma read_locktime:
  assumes "valid_point h" "valid_point t" "length hv = 20" "0 < locktime" "locktime \<le> u16_max"
  shows "read_contract_locktime lib (create_contract_redeemscript lib \<lparr>compressed = True, inner = h\<rparr>
      \<lparr>compressed = True, inner = t\<rparr> hv locktime) = Inr locktime"
proof -
  have i: "nth_instruction lib (create_contract_redeemscript lib \<lparr>compressed = True, inner = h\<rparr>
      \<lparr>compressed = True, inner = t\<rparr> hv locktime) 12 = Inr (item_instruction (push_int (int locktime)))"
    using assms by (simp add: nth_instruction_def contract_parse contract_items_def)
  show ?thesis
  proof (cases "locktime \<le> 16")
    case True
    then show ?thesis using assms i by (simp add: read_contract_locktime_def Let_def)
  next
    case False
    then show ?thesis using le_bytes_read[of locktime] assms i
      by (auto simp: read_contract_locktime_def Let_def split: list.splits)
  qed
qed

end

context contract_lib
begin

lemma signatures_follow_keys:
  assumes "valid_point a" "valid_point b" "a \<noteq> b"
  defines "k1 \<equiv> \<lparr>compressed = True, inner = a\<rparr>" and "k2 \<equiv> \<lparr>compressed = True, inner = b\<rparr>"
  shows "\<exists>p q. read_pubkeys_from_multisig_redeemscript lib (create_multisig_redeemscript lib k1 k2) = Inr (p, q) \<and>
    {p, q} = {k1, k2} \<and>
    witness (apply_two_signatures_to_2of2_multisig_spend lib k1 k2 s1 s2 inp rs) =
      witness inp @ [[], sig_to_vec lib (if p = k1 then s1 else s2),
        sig_to_vec lib (if q = k1 then s1 else s2), rs]"
  using assms(3) unfolding k1_def k2_def read_multisig[OF assms(1,2)]
  by (auto simp: apply_two_signatures_to_2of2_multisig_spend_def min_def max_def)

lemma multisig_symmetric:
  assumes "valid_point a" "valid_point b"
  shows "create_multisig_redeemscript lib \<lparr>compressed = True, inner = a\<rparr> \<lparr>compressed = True, inner = b\<rparr>
    = create_multisig_redeemscript lib \<lparr>compressed = True, inner = b\<rparr> \<lparr>compressed = True, inner = a\<rparr>"
  by (cases "a = b") (auto simp: create_multisig_redeemscript_def)

lemma hashlock_read:
  assumes "length hash = 32" "length pubkey = 32"
  shows "extract_hash_from_hashlock lib (create_hashlock_script lib hash pubkey) = Inr hash"
    and "xonly_from_slice lib pubkey = Inr pubkey \<Longrightarrow>
      calculate_pubkey_from_nonce lib point nonce = Inr k \<Longrightarrow>
      check_taproot_hashlock_has_pubkey lib (create_hashlock_script lib hash pubkey) point nonce = Inr ()
        \<longleftrightarrow> pubkey = x_only lib (inner k)"
proof -
  have p: "instructions lib (create_hashlock_script lib hash pubkey) =
      map (\<lambda>x. Inr (item_instruction x)) [push_opcode OP_SHA256, push_slice hash, push_opcode OP_EQUALVERIFY,
       push_x_only_key pubkey, push_opcode OP_CHECKSIG]"
    unfolding create_hashlock_script_def by (rule parse_built) (use assms in simp)
  show "extract_hash_from_hashlock lib (create_hashlock_script lib hash pubkey) = Inr hash"
    using assms by (simp add: extract_hash_from_hashlock_def p)
  show "xonly_from_slice lib pubkey = Inr pubkey \<Longrightarrow>
      calculate_pubkey_from_nonce lib point nonce = Inr k \<Longrightarrow>
      check_taproot_hashlock_has_pubkey lib (create_hashlock_script lib hash pubkey) point nonce = Inr ()
        \<longleftrightarrow> pubkey = x_only lib (inner k)"
    by (simp add: check_taproot_hashlock_has_pubkey_def p)
qed

end

interpretation ref: contract_lib ref_lib ref_valid_point
proof -
  have e: "into_script ref_lib = ref_into_script" "instructions ref_lib = ref_instructions"
    "pubkey_from_slice ref_lib = ref_pubkey_from_slice" by (simp_all add: ref_lib_def)
  show "contract_lib ref_lib ref_valid_point"
    unfolding contract_lib_def e
    by (intro conjI ref_script.script_codec_axioms ref_key.key_codec_axioms)
qed

section \<open>Contract transactions and claimed amounts\<close>

lemma create_senders_contract_tx_ok:
  "create_senders_contract_tx lib inp input_value script rate = Inr tx \<longleftrightarrow>
   (\<exists>fee spk. fee_at_rate_sats CONTRACT_TX_VSIZE rate = Some fee \<and> fee \<le> input_value \<and>
      redeemscript_to_scriptpubkey lib script = Inr spk \<and>
      minimal_non_dust lib spk \<le> input_value - fee \<and>
      tx = \<lparr>version = 2, lock_time = 0,
            tx_input = [\<lparr>previous_output = inp, script_sig = [], sequence = 0, witness = []\<rparr>],
            tx_output = [\<lparr>value_of = input_value - fee, script_pubkey = spk\<rparr>]\<rparr>)"
  by (auto simp: create_senders_contract_tx_def result_simps checked_simps not_less
      split: if_splits)

lemma sum_claimed_from_ok:
  "acc \<le> Amount_MAX_MONEY \<Longrightarrow>
   sum_claimed_from acc xs = Inr t \<longleftrightarrow> t = acc + sum_list xs \<and> acc + sum_list xs \<le> Amount_MAX_MONEY"
proof (induction xs arbitrary: acc)
  case (Cons x xs)
  have cap: "Amount_MAX_MONEY \<le> u64_max" by (simp add: Amount_MAX_MONEY_def)
  show ?case
  proof (cases "acc + x \<le> Amount_MAX_MONEY")
    case True
    then have "checked_add acc x = Some (acc + x)" "\<not> Amount_MAX_MONEY < x"
      using cap by (simp_all only: checked_add_eq_Some) linarith+
    then show ?thesis using True Cons.IH[of "acc + x"] by (simp add: add.assoc)
  next
    case False
    then have "sum_claimed_from acc (x # xs) = Inl x" by (simp add: checked_add_def)
    with False show ?thesis by simp
  qed
qed auto

lemma sum_claimed_from_err: "sum_claimed_from acc xs = Inl e \<Longrightarrow> e \<in> set xs"
  by (induction xs arbitrary: acc) (auto split: if_splits option.splits)

section \<open>Properties\<close>



text \<open>
  C17 (contract scripts). From a contract script built for valid keys, a 20-byte hash and a
  locktime of 1 to 65535 blocks, the readers give back the hash, the hashlock key and the
  locktime, so the checks a peer makes on the script see exactly what was negotiated.
\<close>

theorem contract_script_round_trip:
  assumes "contract_lib lib valid_point" "valid_point h" "valid_point t"
    and "length hv = 20" "0 < locktime" "locktime \<le> u16_max"
  defines "script \<equiv> create_contract_redeemscript lib \<lparr>compressed = True, inner = h\<rparr>
      \<lparr>compressed = True, inner = t\<rparr> hv locktime"
  shows "read_hashvalue_from_contract lib script = Inr hv \<and>
    read_hashlock_pubkey_from_contract lib script = Inr \<lparr>compressed = True, inner = h\<rparr> \<and>
    read_contract_locktime lib script = Inr locktime"
  using contract_lib.read_hashvalue[OF assms(1-4,6)] contract_lib.read_locktime[OF assms(1-6)]
    contract_lib.read_hashlock_pubkey[OF assms(1,2,4)]
  unfolding script_def by blast

theorem contract_script_round_trip_witness:
  "read_contract_locktime ref_lib (create_contract_redeemscript ref_lib
     \<lparr>compressed = True, inner = replicate 33 2\<rparr> \<lparr>compressed = True, inner = replicate 33 3\<rparr>
     (replicate 20 7) 40000) = Inr 40000"
proof -
  have "ref_valid_point (replicate 33 2)" "ref_valid_point (replicate 33 3)"
    by (simp_all add: ref_valid_point_def)
  from contract_script_round_trip[OF ref.contract_lib_axioms this, of "replicate 20 7" 40000]
  show ?thesis by simp
qed

text \<open>
  C18 (contract transactions). A contract transaction that is built spends exactly the given
  funding output to the contract script: it passes the validation the other side runs, its
  one output is the funding value less the priced fee, and that output is not dust. It is
  refused exactly when the rate cannot be priced, the fee exceeds the value, the script has
  no address, or the output would be dust.
\<close>

theorem contract_tx_well_formed:
  assumes "create_senders_contract_tx lib inp input_value script rate = Inr tx"
  shows "validate_contract_tx lib tx (Some inp) script = Inr () \<and>
    (\<exists>out fee. tx_output tx = [out] \<and> fee_at_rate_sats CONTRACT_TX_VSIZE rate = Some fee \<and>
       value_of out + fee = input_value \<and>
       minimal_non_dust lib (script_pubkey out) \<le> value_of out)"
  using assms by (auto simp: create_senders_contract_tx_ok validate_contract_tx_def)

theorem contract_tx_well_formed_witness:
  "\<exists>tx. create_senders_contract_tx ref_lib \<lparr>txid = 1, vout = 0\<rparr> 5000 [1, 2, 3] (Fin 2) = Inr tx \<and>
     validate_contract_tx ref_lib tx (Some \<lparr>txid = 1, vout = 0\<rparr>) [1, 2, 3] = Inr ()"
proof -
  have "fee_at_rate_sats CONTRACT_TX_VSIZE (Fin 2) = Some 300"
    using fee_at_rate_int_exact[of 2 150] by (simp add: CONTRACT_TX_VSIZE_def)
  then obtain tx where
      "create_senders_contract_tx ref_lib \<lparr>txid = 1, vout = 0\<rparr> 5000 [1, 2, 3] (Fin 2) = Inr tx"
    by (simp add: create_senders_contract_tx_def checked_sub_def redeemscript_to_scriptpubkey_def
        ref_lib_def)
  with contract_tx_well_formed[OF this] show ?thesis by blast
qed

text \<open>
  C19 (claimed amounts). Summing the amounts a peer claims succeeds exactly when their true
  sum is at most 21 million coins, and then returns it, so it can never wrap; a refusal
  names one of the claimed amounts.
\<close>

theorem sum_claimed_amounts_exact:
  "(sum_claimed_amounts amounts = Inr t \<longleftrightarrow>
      t = sum_list amounts \<and> sum_list amounts \<le> Amount_MAX_MONEY) \<and>
   (sum_claimed_amounts amounts = Inl bad \<longrightarrow>
      bad \<in> set amounts \<and> Amount_MAX_MONEY < sum_list amounts)"
proof -
  have ok: "sum_claimed_amounts amounts = Inr t \<longleftrightarrow>
      t = sum_list amounts \<and> sum_list amounts \<le> Amount_MAX_MONEY" for t
    using sum_claimed_from_ok[of 0 amounts t] by (simp add: sum_claimed_amounts_def)
  then show ?thesis using sum_claimed_from_err[of 0 amounts bad] ok[of "sum_list amounts"]
    by (auto simp: sum_claimed_amounts_def not_le)
qed

theorem sum_claimed_amounts_exact_witness:
  "2100000000000001 \<in> set [5, 2100000000000001] \<and>
   Amount_MAX_MONEY < sum_list [5, 2100000000000001]"
proof -
  have "sum_claimed_amounts [5, 2100000000000001] = Inl 2100000000000001"
    by (simp add: sum_claimed_amounts_def checked_add_def Amount_MAX_MONEY_def)
  with sum_claimed_amounts_exact[of "[5, 2100000000000001]" 0 2100000000000001] show ?thesis by simp
qed

text \<open>
  Taproot hashlock leaf. The hash is read back from a hashlock leaf exactly, and the
  pubkey check accepts the leaf exactly when its key is the one derived from the tweakable
  point and the nonce.
\<close>

theorem taproot_hashlock_round_trip:
  assumes "contract_lib lib valid_point" "length hash = 32" "length pubkey = 32"
    and "xonly_from_slice lib pubkey = Inr pubkey"
    and "calculate_pubkey_from_nonce lib point nonce = Inr k"
  shows "extract_hash_from_hashlock lib (create_hashlock_script lib hash pubkey) = Inr hash \<and>
    (check_taproot_hashlock_has_pubkey lib (create_hashlock_script lib hash pubkey) point nonce
       = Inr () \<longleftrightarrow> pubkey = x_only lib (inner k))"
  using contract_lib.hashlock_read[OF assms(1-3)] assms(4,5) by simp

theorem taproot_hashlock_round_trip_witness:
  "extract_hash_from_hashlock ref_lib (create_hashlock_script ref_lib (replicate 32 9) (replicate 32 4))
     = Inr (replicate 32 9)"
proof -
  have "xonly_from_slice ref_lib (replicate 32 4) = Inr (replicate 32 4)"
    by (simp add: ref_lib_def)
  moreover obtain k where
    "calculate_pubkey_from_nonce ref_lib \<lparr>compressed = True, inner = replicate 33 2\<rparr> (replicate 32 1) = Inr k"
    by (simp add: calculate_pubkey_from_nonce_def ref_lib_def)
  ultimately show ?thesis
    using taproot_hashlock_round_trip[OF ref.contract_lib_axioms, of "replicate 32 9" "replicate 32 4"]
    by simp
qed

end
