(* ===== verification/Effects.thy ===== *)
theory Effects
  imports Prelude
begin

text \<open>
  Stateful code. A method that takes \<open>&mut self\<close> and returns a \<open>Result\<close> is a function from the
  state to the result and the state it leaves: what was changed before an error stays changed.
  Binding is written out with \<open>bnd\<close>. The rules below carry invariants, monotone relations and
  pre- and postconditions through a program.
\<close>

section \<open>Programs\<close>

type_synonym ('s, 'e, 'a) act = "'s \<Rightarrow> ('e + 'a) \<times> 's"

definition ret :: "'a \<Rightarrow> ('s, 'e, 'a) act" where
  "ret x s = (Inr x, s)"

definition fail :: "'e \<Rightarrow> ('s, 'e, 'a) act" where
  "fail e s = (Inl e, s)"

definition bnd :: "('s, 'e, 'a) act \<Rightarrow> ('a \<Rightarrow> ('s, 'e, 'b) act) \<Rightarrow> ('s, 'e, 'b) act" where
  "bnd m f s = (case m s of (Inl e, s') \<Rightarrow> (Inl e, s') | (Inr x, s') \<Rightarrow> f x s')"

definition seq :: "('s, 'e, unit) act \<Rightarrow> ('s, 'e, 'b) act \<Rightarrow> ('s, 'e, 'b) act" where
  "seq m n = bnd m (\<lambda>_. n)"

text \<open>\<open>attempt\<close>: a call whose \<open>Result\<close> is matched on instead of passed up by \<open>?\<close>.\<close>

definition attempt :: "('s, 'e, 'a) act \<Rightarrow> ('s, 'f, 'e + 'a) act" where
  "attempt m s = (case m s of (r, s') \<Rightarrow> (Inr r, s'))"

definition gets :: "('s \<Rightarrow> 'a) \<Rightarrow> ('s, 'e, 'a) act" where
  "gets f s = (Inr (f s), s)"

definition modify :: "('s \<Rightarrow> 's) \<Rightarrow> ('s, 'e, unit) act" where
  "modify f s = (Inr (), f s)"

definition liftR :: "'e + 'a \<Rightarrow> ('s, 'e, 'a) act" where
  "liftR r s = (r, s)"

definition on_cond :: "bool \<Rightarrow> ('s, 'e, unit) act \<Rightarrow> ('s, 'e, unit) act" where
  "on_cond b m = (if b then m else ret ())"

text \<open>A \<open>for\<close> loop whose body may return early with an error, and one with an accumulator.\<close>

fun for_each :: "'x list \<Rightarrow> ('x \<Rightarrow> ('s, 'e, unit) act) \<Rightarrow> ('s, 'e, unit) act" where
  "for_each [] f = ret ()"
| "for_each (x # xs) f = seq (f x) (for_each xs f)"

fun fold_act :: "'x list \<Rightarrow> ('x \<Rightarrow> 'b \<Rightarrow> ('s, 'e, 'b) act) \<Rightarrow> 'b \<Rightarrow> ('s, 'e, 'b) act" where
  "fold_act [] f b = ret b"
| "fold_act (x # xs) f b = bnd (f x b) (\<lambda>b'. fold_act xs f b')"

lemmas act_defs = ret_def fail_def gets_def modify_def liftR_def on_cond_def

section \<open>Rules\<close>

named_theorems steps_intros \<open>rules that carry a reflexive and transitive relation through a program\<close>

text \<open>\<open>steps R m\<close>: whatever \<open>m\<close> returns, the state it leaves is related to the one it found.\<close>

definition steps :: "('s \<Rightarrow> 's \<Rightarrow> bool) \<Rightarrow> ('s, 'e, 'a) act \<Rightarrow> bool" where
  "steps R m \<longleftrightarrow> (\<forall>s. R s (snd (m s)))"

text \<open>\<open>triple P m Q E\<close>: from \<open>P\<close>, success ends in \<open>Q\<close> and an error in \<open>E\<close>.\<close>

definition triple ::
  "('s \<Rightarrow> bool) \<Rightarrow> ('s, 'e, 'a) act \<Rightarrow> ('a \<Rightarrow> 's \<Rightarrow> bool) \<Rightarrow> ('e \<Rightarrow> 's \<Rightarrow> bool) \<Rightarrow> bool" where
  "triple P m Q E \<longleftrightarrow>
     (\<forall>s. P s \<longrightarrow> (case m s of (Inr x, s') \<Rightarrow> Q x s' | (Inl e, s') \<Rightarrow> E e s'))"

lemma bnd_cases:
  obtains (err) e s' where "m s = (Inl e, s')" "bnd m f s = (Inl e, s')"
  | (ok) x s' where "m s = (Inr x, s')" "bnd m f s = f x s'"
  by (cases "m s"; cases "fst (m s)") (auto simp: bnd_def)

lemma bnd_eq_Inr:
  "bnd m f s = (Inr y, s'') \<longleftrightarrow> (\<exists>x s'. m s = (Inr x, s') \<and> f x s' = (Inr y, s''))"
  by (rule bnd_cases[of m s f]) auto

lemma steps_ret [steps_intros]: "reflp R \<Longrightarrow> steps R (ret x)"
  by (simp add: steps_def ret_def reflp_def)

lemma steps_fail [steps_intros]: "reflp R \<Longrightarrow> steps R (fail e)"
  by (simp add: steps_def fail_def reflp_def)

lemma steps_gets [steps_intros]: "reflp R \<Longrightarrow> steps R (gets f)"
  by (simp add: steps_def gets_def reflp_def)

lemma steps_liftR [steps_intros]: "reflp R \<Longrightarrow> steps R (liftR r)"
  by (simp add: steps_def liftR_def reflp_def)

lemma steps_modify: "(\<And>s. R s (f s)) \<Longrightarrow> steps R (modify f)"
  by (simp add: steps_def modify_def)

lemma steps_bnd [steps_intros]:
  assumes "transp R" "steps R m" "\<And>x. steps R (f x)"
  shows "steps R (bnd m f)"
  unfolding steps_def
proof
  fix s
  show "R s (snd (bnd m f s))"
  proof (cases rule: bnd_cases[of m s f])
    case (err e s')
    then show ?thesis using assms(2) by (metis snd_conv steps_def)
  next
    case (ok x s')
    then have "R s s'" "R s' (snd (f x s'))" using assms(2,3) by (metis snd_conv steps_def)+
    then show ?thesis using assms(1) ok(2) by (metis transpD)
  qed
qed

lemma steps_seq [steps_intros]: "transp R \<Longrightarrow> steps R m \<Longrightarrow> steps R n \<Longrightarrow> steps R (seq m n)"
  unfolding seq_def by (rule steps_bnd)

lemma steps_attempt [steps_intros]: "steps R m \<Longrightarrow> steps R (attempt m)"
  by (auto simp: steps_def attempt_def split: prod.splits) (metis snd_conv)

lemma steps_on_cond [steps_intros]: "reflp R \<Longrightarrow> steps R m \<Longrightarrow> steps R (on_cond b m)"
  by (auto simp: on_cond_def intro: steps_ret)

lemma steps_for_each [steps_intros]:
  assumes "reflp R" "transp R" "\<And>x. x \<in> set xs \<Longrightarrow> steps R (f x)"
  shows "steps R (for_each xs f)"
  using assms(3) by (induction xs) (auto intro: steps_ret steps_seq assms(1,2))

lemma steps_fold_act [steps_intros]:
  assumes "reflp R" "transp R" "\<And>x b. x \<in> set xs \<Longrightarrow> steps R (f x b)"
  shows "steps R (fold_act xs f b)"
  using assms(3) by (induction xs arbitrary: b) (auto intro: steps_ret steps_bnd assms(1,2))

lemma stepsD: "steps R m \<Longrightarrow> m s = (r, s') \<Longrightarrow> R s s'"
  by (metis snd_conv steps_def)

lemma triple_bnd:
  assumes "triple P m Q E" "\<And>x. triple (Q x) (f x) S E"
  shows "triple P (bnd m f) S E"
  unfolding triple_def
proof (intro allI impI)
  fix s assume "P s"
  show "case bnd m f s of (Inr x, s') \<Rightarrow> S x s' | (Inl e, s') \<Rightarrow> E e s'"
  proof (cases rule: bnd_cases[of m s f])
    case (err e s')
    then show ?thesis using assms(1) \<open>P s\<close> by (auto simp: triple_def split: prod.splits sum.splits)
  next
    case (ok x s')
    have "case m s of (Inr x, s') \<Rightarrow> Q x s' | (Inl e, s') \<Rightarrow> E e s'"
      using assms(1) \<open>P s\<close> by (simp add: triple_def)
    then have "Q x s'" using ok(1) by simp
    then have "case f x s' of (Inr x, s') \<Rightarrow> S x s' | (Inl e, s') \<Rightarrow> E e s'"
      using assms(2)[of x] by (simp add: triple_def)
    then show ?thesis using ok(2) by simp
  qed
qed

lemma triple_pre: "triple P m Q E \<Longrightarrow> (\<And>s. P' s \<Longrightarrow> P s) \<Longrightarrow> triple P' m Q E"
  by (auto simp: triple_def)

lemma triple_post:
  assumes "triple P m Q E" "\<And>x s. Q x s \<Longrightarrow> Q' x s" "\<And>e s. E e s \<Longrightarrow> E' e s"
  shows "triple P m Q' E'"
  using assms by (fastforce simp: triple_def split: prod.splits sum.splits)

lemma triple_steps: "triple P m (\<lambda>_ s. I s) (\<lambda>_ s. I s) \<longleftrightarrow> (\<forall>s. P s \<longrightarrow> I (snd (m s)))"
  by (simp add: triple_def case_prod_beta split: sum.splits)

end
