(* ===== verification/SwapCoins.thy ===== *)
theory SwapCoins
  imports Contract Effects
begin

text \<open>
  The coins of a swap (\<open>wallet/swapcoin.rs\<close>): an incoming coin is claimed cooperatively or with
  the preimage, an outgoing coin is refunded after its timelock, a watch-only coin is a hop
  between two makers. The MuSig2 calls (\<open>protocol/musig2.rs\<close>, \<open>protocol/musig_interface.rs\<close>)
  sign a cooperative taproot spend; their random session values are arguments.
\<close>

section \<open>Errors\<close>

text \<open>
  \<open>WPanic\<close> stands for a Rust panic, \<open>WBackend\<close> for an error the node or the disk reported,
  \<open>WLibrary\<close> for a conversion error of the bitcoin library, and \<open>WDiverged\<close> for a retry loop still running when its
  fuel is spent.
\<close>

datatype fidelity_error =
    WrongScriptType
  | BondDoesNotExist
  | BondAlreadyRedeemed
  | BondLocktimeExpired
  | InvalidCertHash
  | InvalidCertSignature
  | FGeneral string
  | InvalidBondLocktime
  | BondUncomfirmed
  | BondPubkeyMismatch
  | BondAmountMismatch Amount Amount
  | BondTransactionMissing u32
  | BondAmountTooLow u64 u64

datatype wallet_error =
    WGeneral string
  | WProtocol protocol_error
  | WFidelity fidelity_error
  | WLibrary
  | WBackend string
  | WInsufficientFund u64 u64
  | WUnreachable
  | WInterrupted string
  | WTxConfirmationTimeout string
  | WTxNeverBroadcast "Txid list"
  | WWatchWindowCap u32
  | WCoreTooOld
  | WPanic
  | WDiverged

section \<open>MuSig2\<close>

text \<open>
  Keys, scalars and messages pass between two versions of the same curve library by their
  bytes; a value valid in one is valid in the other, and only the conversion of a public key
  is written as a call that can fail.
\<close>

definition sort_pair :: "bytes \<Rightarrow> bytes \<Rightarrow> bytes list" where
  "sort_pair pubkey1 pubkey2 = sort_key id [pubkey1, pubkey2]"

definition get_aggregated_pubkey :: "bitcoin_lib \<Rightarrow> bytes \<Rightarrow> bytes \<Rightarrow> bytes" where
  "get_aggregated_pubkey lib pubkey1 pubkey2 =
     agg_pk lib (key_agg_cache lib (sort_pair pubkey1 pubkey2))"

definition generate_partial_signature ::
  "bitcoin_lib \<Rightarrow> bytes \<Rightarrow> bytes \<Rightarrow> bytes \<Rightarrow> SecretKey \<Rightarrow> bytes \<Rightarrow> bytes list \<Rightarrow>
   protocol_error + bytes" where
  "generate_partial_signature lib message agg_nonce sec_nonce seckey tap_tweak pubkeys =
     res_bind (pubkey_xonly_tweak_add lib (key_agg_cache lib pubkeys) tap_tweak) (\<lambda>cache.
     Inr (partial_sign lib (musig_session lib cache agg_nonce message) sec_nonce seckey cache))"

definition aggregate_partial_signatures ::
  "bitcoin_lib \<Rightarrow> bytes \<Rightarrow> bytes \<Rightarrow> bytes \<Rightarrow> bytes list \<Rightarrow> bytes list \<Rightarrow> protocol_error + bytes" where
  "aggregate_partial_signatures lib message agg_nonce tap_tweak partial_sigs pubkeys =
     res_bind (pubkey_xonly_tweak_add lib (key_agg_cache lib pubkeys) tap_tweak) (\<lambda>cache.
     Inr (partial_sig_agg lib (musig_session lib cache agg_nonce message) partial_sigs))"

definition get_aggregated_pubkey_compat ::
  "bitcoin_lib \<Rightarrow> bytes \<Rightarrow> bytes \<Rightarrow> protocol_error + bytes" where
  "get_aggregated_pubkey_compat lib pubkey1 pubkey2 =
     res_bind (pubkey_from_slice lib pubkey1) (\<lambda>k1.
     res_bind (pubkey_from_slice lib pubkey2) (\<lambda>k2.
     xonly_from_slice lib (get_aggregated_pubkey lib (inner k1) (inner k2))))"

text \<open>\<open>rand\<close> is the session randomness drawn by the library.\<close>

definition generate_new_nonce_pair_compat ::
  "bitcoin_lib \<Rightarrow> bytes \<Rightarrow> bytes \<Rightarrow> protocol_error + (bytes \<times> bytes)" where
  "generate_new_nonce_pair_compat lib rand nonce_pubkey =
     res_bind (pubkey_from_slice lib nonce_pubkey) (\<lambda>k. Inr (new_nonce_pair lib rand (inner k)))"

definition get_aggregated_nonce_compat :: "bitcoin_lib \<Rightarrow> bytes list \<Rightarrow> bytes" where
  "get_aggregated_nonce_compat lib nonces = aggregate_nonces lib nonces"

definition generate_partial_signature_compat ::
  "bitcoin_lib \<Rightarrow> bytes \<Rightarrow> bytes \<Rightarrow> bytes \<Rightarrow> SecretKey \<Rightarrow> bytes \<Rightarrow> bytes \<Rightarrow> bytes \<Rightarrow>
   protocol_error + bytes" where
  "generate_partial_signature_compat lib message agg_nonce sec_nonce seckey tap_tweak pubkey1 pubkey2 =
     res_bind (pubkey_from_slice lib pubkey1) (\<lambda>k1.
     res_bind (pubkey_from_slice lib pubkey2) (\<lambda>k2.
     generate_partial_signature lib message agg_nonce sec_nonce seckey tap_tweak
       [inner k1, inner k2]))"

definition aggregate_partial_signatures_compat ::
  "bitcoin_lib \<Rightarrow> bytes \<Rightarrow> bytes \<Rightarrow> bytes \<Rightarrow> bytes list \<Rightarrow> bytes \<Rightarrow> bytes \<Rightarrow> protocol_error + bytes" where
  "aggregate_partial_signatures_compat lib message agg_nonce tap_tweak partial_sigs pubkey1 pubkey2 =
     res_bind (pubkey_from_slice lib pubkey1) (\<lambda>k1.
     res_bind (pubkey_from_slice lib pubkey2) (\<lambda>k2.
     aggregate_partial_signatures lib message agg_nonce tap_tweak partial_sigs
       [inner k1, inner k2]))"

definition calculate_contract_sighash ::
  "bitcoin_lib \<Rightarrow> Transaction \<Rightarrow> Amount \<Rightarrow> ScriptBuf \<Rightarrow> ScriptBuf \<Rightarrow> bytes \<Rightarrow> protocol_error + bytes" where
  "calculate_contract_sighash lib spending_tx contract_amount hashlock_script timelock_script
       internal_key =
     res_bind (create_taproot_script lib hashlock_script timelock_script internal_key)
       (\<lambda>contract_script.
     taproot_key_sighash lib spending_tx
       \<lparr>value_of = contract_amount, script_pubkey = contract_script\<rparr>)"

section \<open>Coins\<close>

record PaymentTarget =
  pt_script_pubkey :: ScriptBuf
  pt_amount :: Amount

record IncomingSwapCoin =
  in_protocol :: ProtocolVersion
  in_my_privkey :: "SecretKey option"
  in_my_pubkey :: "PublicKey option"
  in_other_pubkey :: "PublicKey option"
  in_other_privkey :: "SecretKey option"
  in_contract_tx :: Transaction
  in_contract_txid :: "Txid option"
  in_hashlock_privkey :: SecretKey
  in_funding_amount :: Amount
  in_hash_preimage :: "bytes option"
  in_swap_id :: "string option"
  in_contract_redeemscript :: "ScriptBuf option"
  in_multisig_redeemscript :: "ScriptBuf option"
  in_hashlock_script :: "ScriptBuf option"
  in_timelock_script :: "ScriptBuf option"
  in_others_contract_sig :: "Signature option"
  in_tap_tweak :: "bytes option"
  in_internal_key :: "bytes option"
  in_spending_tx :: "Transaction option"
  in_payment_target :: "PaymentTarget option"
  in_negotiated_feerate :: u64

text \<open>An address is represented by its script; \<open>recovery_address\<close> is stored unchecked.\<close>

record OutgoingSwapCoin =
  out_protocol :: ProtocolVersion
  out_my_privkey :: "SecretKey option"
  out_my_pubkey :: "PublicKey option"
  out_other_pubkey :: "PublicKey option"
  out_other_privkey :: "SecretKey option"
  out_funding_tx :: "Transaction option"
  out_contract_tx :: Transaction
  out_timelock_privkey :: SecretKey
  out_funding_amount :: Amount
  out_hash_preimage :: "bytes option"
  out_swap_id :: "string option"
  out_contract_redeemscript :: "ScriptBuf option"
  out_hashlock_script :: "ScriptBuf option"
  out_timelock_script :: "ScriptBuf option"
  out_others_contract_sig :: "Signature option"
  out_tap_tweak :: "bytes option"
  out_internal_key :: "bytes option"
  out_recovery_address :: "ScriptBuf option"
  out_negotiated_feerate :: u64
  committed :: bool
  incoming_claimed :: bool

record WatchOnlySwapCoin =
  wo_protocol :: ProtocolVersion
  wo_sender_pubkey :: PublicKey
  wo_receiver_pubkey :: PublicKey
  wo_contract_tx :: Transaction
  wo_contract_redeemscript :: ScriptBuf
  wo_hashlock_script :: "ScriptBuf option"
  wo_timelock_script :: "ScriptBuf option"
  wo_funding_amount :: Amount

definition pubkey_of :: "bitcoin_lib \<Rightarrow> SecretKey \<Rightarrow> PublicKey" where
  "pubkey_of lib privkey = \<lparr>compressed = True, inner = secret_point lib privkey\<rparr>"

definition in_new_legacy ::
  "bitcoin_lib \<Rightarrow> SecretKey \<Rightarrow> PublicKey \<Rightarrow> Transaction \<Rightarrow> ScriptBuf \<Rightarrow> SecretKey \<Rightarrow> Amount \<Rightarrow> u64 \<Rightarrow>
   IncomingSwapCoin" where
  "in_new_legacy lib my_privkey other_pubkey contract_tx contract_redeemscript hashlock_privkey
       funding_amount negotiated_feerate =
     (let my_pubkey = pubkey_of lib my_privkey in
      \<lparr>in_protocol = Legacy, in_my_privkey = Some my_privkey, in_my_pubkey = Some my_pubkey,
       in_other_pubkey = Some other_pubkey, in_other_privkey = None, in_contract_tx = contract_tx,
       in_contract_txid = None, in_hashlock_privkey = hashlock_privkey,
       in_funding_amount = funding_amount, in_hash_preimage = None, in_swap_id = None,
       in_contract_redeemscript = Some contract_redeemscript,
       in_multisig_redeemscript = Some (create_multisig_redeemscript lib my_pubkey other_pubkey),
       in_hashlock_script = None, in_timelock_script = None, in_others_contract_sig = None,
       in_tap_tweak = None, in_internal_key = None, in_spending_tx = None,
       in_payment_target = None, in_negotiated_feerate = negotiated_feerate\<rparr>)"

definition in_new_taproot ::
  "SecretKey \<Rightarrow> ScriptBuf \<Rightarrow> ScriptBuf \<Rightarrow> Transaction \<Rightarrow> Amount \<Rightarrow> u64 \<Rightarrow> IncomingSwapCoin" where
  "in_new_taproot hashlock_privkey hashlock_script timelock_script contract_tx funding_amount
       negotiated_feerate =
     \<lparr>in_protocol = Taproot, in_my_privkey = None, in_my_pubkey = None, in_other_pubkey = None,
      in_other_privkey = None, in_contract_tx = contract_tx, in_contract_txid = None,
      in_hashlock_privkey = hashlock_privkey, in_funding_amount = funding_amount,
      in_hash_preimage = None, in_swap_id = None, in_contract_redeemscript = None,
      in_multisig_redeemscript = None, in_hashlock_script = Some hashlock_script,
      in_timelock_script = Some timelock_script, in_others_contract_sig = None,
      in_tap_tweak = None, in_internal_key = None, in_spending_tx = None,
      in_payment_target = None, in_negotiated_feerate = negotiated_feerate\<rparr>"

definition out_new_legacy ::
  "bitcoin_lib \<Rightarrow> SecretKey \<Rightarrow> PublicKey \<Rightarrow> Transaction \<Rightarrow> ScriptBuf \<Rightarrow> SecretKey \<Rightarrow> Amount \<Rightarrow> u64 \<Rightarrow>
   OutgoingSwapCoin" where
  "out_new_legacy lib my_privkey other_pubkey contract_tx contract_redeemscript timelock_privkey
       funding_amount negotiated_feerate =
     \<lparr>out_protocol = Legacy, out_my_privkey = Some my_privkey,
      out_my_pubkey = Some (pubkey_of lib my_privkey), out_other_pubkey = Some other_pubkey,
      out_other_privkey = None, out_funding_tx = None, out_contract_tx = contract_tx,
      out_timelock_privkey = timelock_privkey, out_funding_amount = funding_amount,
      out_hash_preimage = None, out_swap_id = None,
      out_contract_redeemscript = Some contract_redeemscript, out_hashlock_script = None,
      out_timelock_script = None, out_others_contract_sig = None, out_tap_tweak = None,
      out_internal_key = None, out_recovery_address = None,
      out_negotiated_feerate = negotiated_feerate, committed = False, incoming_claimed = False\<rparr>"

definition out_new_taproot ::
  "SecretKey \<Rightarrow> ScriptBuf \<Rightarrow> ScriptBuf \<Rightarrow> Transaction \<Rightarrow> Amount \<Rightarrow> u64 \<Rightarrow> OutgoingSwapCoin" where
  "out_new_taproot timelock_privkey hashlock_script timelock_script contract_tx funding_amount
       negotiated_feerate =
     \<lparr>out_protocol = Taproot, out_my_privkey = None, out_my_pubkey = None,
      out_other_pubkey = None, out_other_privkey = None, out_funding_tx = None,
      out_contract_tx = contract_tx, out_timelock_privkey = timelock_privkey,
      out_funding_amount = funding_amount, out_hash_preimage = None, out_swap_id = None,
      out_contract_redeemscript = None, out_hashlock_script = Some hashlock_script,
      out_timelock_script = Some timelock_script, out_others_contract_sig = None,
      out_tap_tweak = None, out_internal_key = None, out_recovery_address = None,
      out_negotiated_feerate = negotiated_feerate, committed = False, incoming_claimed = False\<rparr>"

definition in_set_preimage :: "bytes \<Rightarrow> IncomingSwapCoin \<Rightarrow> IncomingSwapCoin" where
  "in_set_preimage preimage coin = coin\<lparr>in_hash_preimage := Some preimage\<rparr>"

definition in_set_other_privkey :: "SecretKey \<Rightarrow> IncomingSwapCoin \<Rightarrow> IncomingSwapCoin" where
  "in_set_other_privkey privkey coin = coin\<lparr>in_other_privkey := Some privkey\<rparr>"

definition in_set_taproot_params ::
  "SecretKey \<Rightarrow> PublicKey \<Rightarrow> PublicKey \<Rightarrow> bytes \<Rightarrow> bytes \<Rightarrow> IncomingSwapCoin \<Rightarrow> IncomingSwapCoin" where
  "in_set_taproot_params my_privkey my_pubkey other_pubkey internal_key tap_tweak coin =
     coin\<lparr>in_my_privkey := Some my_privkey, in_my_pubkey := Some my_pubkey,
          in_other_pubkey := Some other_pubkey, in_internal_key := Some internal_key,
          in_tap_tweak := Some tap_tweak\<rparr>"

definition out_set_preimage :: "bytes \<Rightarrow> OutgoingSwapCoin \<Rightarrow> OutgoingSwapCoin" where
  "out_set_preimage preimage coin = coin\<lparr>out_hash_preimage := Some preimage\<rparr>"

definition out_set_other_privkey :: "SecretKey \<Rightarrow> OutgoingSwapCoin \<Rightarrow> OutgoingSwapCoin" where
  "out_set_other_privkey privkey coin = coin\<lparr>out_other_privkey := Some privkey\<rparr>"

definition out_set_taproot_params ::
  "SecretKey \<Rightarrow> PublicKey \<Rightarrow> PublicKey \<Rightarrow> bytes \<Rightarrow> bytes \<Rightarrow> OutgoingSwapCoin \<Rightarrow> OutgoingSwapCoin" where
  "out_set_taproot_params my_privkey my_pubkey other_pubkey internal_key tap_tweak coin =
     coin\<lparr>out_my_privkey := Some my_privkey, out_my_pubkey := Some my_pubkey,
          out_other_pubkey := Some other_pubkey, out_internal_key := Some internal_key,
          out_tap_tweak := Some tap_tweak\<rparr>"

definition wo_new_legacy ::
  "PublicKey \<Rightarrow> PublicKey \<Rightarrow> Transaction \<Rightarrow> ScriptBuf \<Rightarrow> Amount \<Rightarrow> WatchOnlySwapCoin" where
  "wo_new_legacy sender_pubkey receiver_pubkey contract_tx contract_redeemscript funding_amount =
     \<lparr>wo_protocol = Legacy, wo_sender_pubkey = sender_pubkey, wo_receiver_pubkey = receiver_pubkey,
      wo_contract_tx = contract_tx, wo_contract_redeemscript = contract_redeemscript,
      wo_hashlock_script = None, wo_timelock_script = None, wo_funding_amount = funding_amount\<rparr>"

definition wo_new_taproot ::
  "PublicKey \<Rightarrow> PublicKey \<Rightarrow> Transaction \<Rightarrow> ScriptBuf \<Rightarrow> ScriptBuf \<Rightarrow> Amount \<Rightarrow> WatchOnlySwapCoin" where
  "wo_new_taproot sender_pubkey receiver_pubkey contract_tx hashlock_script timelock_script
       funding_amount =
     \<lparr>wo_protocol = Taproot, wo_sender_pubkey = sender_pubkey, wo_receiver_pubkey = receiver_pubkey,
      wo_contract_tx = contract_tx, wo_contract_redeemscript = [],
      wo_hashlock_script = Some hashlock_script, wo_timelock_script = Some timelock_script,
      wo_funding_amount = funding_amount\<rparr>"

section \<open>Contract outputs and timelocks\<close>

text \<open>The output of a taproot contract with change is the one that pays the funding amount.\<close>

definition contract_output_vout :: "ProtocolVersion \<Rightarrow> Transaction \<Rightarrow> Amount \<Rightarrow> u32" where
  "contract_output_vout protocol contract_tx funding_amount =
     (if protocol = Taproot \<and> 1 < length (tx_output contract_tx)
      then case position (\<lambda>out. value_of out = funding_amount) (tx_output contract_tx) of
             Some i \<Rightarrow> i
           | None \<Rightarrow> 0
      else 0)"

definition in_get_contract_output_vout :: "IncomingSwapCoin \<Rightarrow> u32" where
  "in_get_contract_output_vout coin =
     contract_output_vout (in_protocol coin) (in_contract_tx coin) (in_funding_amount coin)"

definition out_get_contract_output_vout :: "OutgoingSwapCoin \<Rightarrow> u32" where
  "out_get_contract_output_vout coin =
     contract_output_vout (out_protocol coin) (out_contract_tx coin) (out_funding_amount coin)"

definition wo_contract_outpoint :: "bitcoin_lib \<Rightarrow> WatchOnlySwapCoin \<Rightarrow> OutPoint" where
  "wo_contract_outpoint lib coin =
     \<lparr>txid = compute_txid lib (wo_contract_tx coin),
      vout = (case position (\<lambda>out. value_of out = wo_funding_amount coin)
                     (tx_output (wo_contract_tx coin)) of
                Some i \<Rightarrow> i
              | None \<Rightarrow> 0)\<rparr>"

text \<open>
  The shift of \<open>u32\<close> takes its count modulo 32, as in a release build; a fifth byte is shifted
  by 32.
\<close>

definition locktime_from :: "bytes \<Rightarrow> u32" where
  "locktime_from bs =
     unat (foldl (\<lambda>(acc :: 32 word) (i, b). or acc (push_bit (8 * i mod 32) (ucast b))) 0
       (zip [0..<length bs] bs))"

definition contract_timelock ::
  "bitcoin_lib \<Rightarrow> ProtocolVersion \<Rightarrow> ScriptBuf option \<Rightarrow> ScriptBuf option \<Rightarrow> u32 option" where
  "contract_timelock lib protocol redeemscript timelock_script =
     (if protocol = Taproot then
        case timelock_script of
          None \<Rightarrow> None
        | Some script_bytes \<Rightarrow>
            if length script_bytes < 6 then None
            else
              let locktime_len = unat (script_bytes ! 0) in
              if locktime_len = 0 \<or> 5 < locktime_len \<or> length script_bytes < locktime_len + 1
              then None
              else Some (locktime_from (slice 1 (1 + locktime_len) script_bytes))
      else
        case redeemscript of
          None \<Rightarrow> None
        | Some script \<Rightarrow>
            (case read_contract_locktime lib script of Inr t \<Rightarrow> Some t | Inl _ \<Rightarrow> None))"

definition out_get_timelock :: "bitcoin_lib \<Rightarrow> OutgoingSwapCoin \<Rightarrow> u32 option" where
  "out_get_timelock lib coin =
     contract_timelock lib (out_protocol coin) (out_contract_redeemscript coin)
       (out_timelock_script coin)"

text \<open>\<open>LeafVersion::TapScript\<close> is 192.\<close>

definition is_timelock_spend ::
  "bitcoin_lib \<Rightarrow> Transaction \<Rightarrow> OutPoint \<Rightarrow> ProtocolVersion \<Rightarrow> ScriptBuf option \<Rightarrow> ScriptBuf option \<Rightarrow>
   bool" where
  "is_timelock_spend lib spending_tx contract_outpoint protocol redeemscript timelock_script =
     (case find (\<lambda>inp. previous_output inp = contract_outpoint) (tx_input spending_tx) of
        None \<Rightarrow> False
      | Some inp \<Rightarrow>
          let w = witness inp in
          (case protocol of
             Taproot \<Rightarrow>
               (case timelock_script of
                  None \<Rightarrow> False
                | Some script \<Rightarrow>
                    (case taproot_leaf_script lib w of
                       None \<Rightarrow> False
                     | Some (leaf_version, leaf) \<Rightarrow> leaf_version = 192 \<and> leaf = script))
           | Legacy \<Rightarrow>
               (case redeemscript of
                  None \<Rightarrow> False
                | Some script \<Rightarrow> length w = 3 \<and> w ! 1 = [] \<and> last w = script)))"

definition in_is_timelock_spend :: "bitcoin_lib \<Rightarrow> IncomingSwapCoin \<Rightarrow> Transaction \<Rightarrow> bool" where
  "in_is_timelock_spend lib coin spending_tx =
     is_timelock_spend lib spending_tx
       \<lparr>txid = compute_txid lib (in_contract_tx coin), vout = in_get_contract_output_vout coin\<rparr>
       (in_protocol coin) (in_contract_redeemscript coin) (in_timelock_script coin)"

definition out_is_own_timelock_spend :: "bitcoin_lib \<Rightarrow> OutgoingSwapCoin \<Rightarrow> Transaction \<Rightarrow> bool" where
  "out_is_own_timelock_spend lib coin spending_tx =
     is_timelock_spend lib spending_tx
       \<lparr>txid = compute_txid lib (out_contract_tx coin), vout = out_get_contract_output_vout coin\<rparr>
       (out_protocol coin) (out_contract_redeemscript coin) (out_timelock_script coin)"

definition wo_is_timelock_spend :: "bitcoin_lib \<Rightarrow> WatchOnlySwapCoin \<Rightarrow> Transaction \<Rightarrow> bool" where
  "wo_is_timelock_spend lib coin spending_tx =
     is_timelock_spend lib spending_tx (wo_contract_outpoint lib coin) (wo_protocol coin)
       (Some (wo_contract_redeemscript coin)) (wo_timelock_script coin)"

section \<open>Signing\<close>

definition need :: "'a option \<Rightarrow> string \<Rightarrow> wallet_error + 'a" where
  "need x msg = ok_or x (WGeneral msg)"

text \<open>A library error becomes a message; the detail it formats is not part of the model.\<close>

definition or_general :: "string \<Rightarrow> protocol_error + 'a \<Rightarrow> wallet_error + 'a" where
  "or_general msg r = map_err (\<lambda>_. WGeneral msg) r"

definition on_first_input :: "(TxIn \<Rightarrow> TxIn) \<Rightarrow> Transaction \<Rightarrow> Transaction" where
  "on_first_input f tx =
     (case tx_input tx of [] \<Rightarrow> tx | inp # rest \<Rightarrow> tx\<lparr>tx_input := f inp # rest\<rparr>)"

text \<open>
  The signed contract transaction of a legacy coin; a taproot contract transaction is already
  complete. Incoming and outgoing coins share the code.
\<close>

definition signed_contract_tx ::
  "bitcoin_lib \<Rightarrow> ProtocolVersion \<Rightarrow> SecretKey option \<Rightarrow> PublicKey option \<Rightarrow> PublicKey option \<Rightarrow>
   Signature option \<Rightarrow> Amount \<Rightarrow> Transaction \<Rightarrow> wallet_error + Transaction" where
  "signed_contract_tx lib protocol my_privkey my_pubkey other_pubkey others_contract_sig
       funding_amount contract_tx =
     (case protocol of
        Legacy \<Rightarrow>
          res_bind (need my_privkey ''Missing my_privkey for contract tx signing'') (\<lambda>my_privkey.
          res_bind (need my_pubkey ''Missing my_pubkey for contract tx signing'') (\<lambda>my_pubkey.
          res_bind (need other_pubkey ''Missing other_pubkey for contract tx signing'') (\<lambda>other_pubkey.
          res_bind (need others_contract_sig
                      ''Missing others_contract_sig for contract tx signing'') (\<lambda>others_sig.
          let multisig_redeemscript = create_multisig_redeemscript lib my_pubkey other_pubkey in
          res_bind (or_general ''Failed to sign contract tx''
                      (sign_contract_tx lib contract_tx multisig_redeemscript funding_amount
                        my_privkey)) (\<lambda>my_sig.
          Inr (on_first_input (\<lambda>inp. apply_two_signatures_to_2of2_multisig_spend lib my_pubkey
                 other_pubkey my_sig others_sig inp multisig_redeemscript) contract_tx))))))
      | Taproot \<Rightarrow> Inr contract_tx)"

definition in_create_signed_contract_tx ::
  "bitcoin_lib \<Rightarrow> IncomingSwapCoin \<Rightarrow> wallet_error + Transaction" where
  "in_create_signed_contract_tx lib coin =
     signed_contract_tx lib (in_protocol coin) (in_my_privkey coin) (in_my_pubkey coin)
       (in_other_pubkey coin) (in_others_contract_sig coin) (in_funding_amount coin)
       (in_contract_tx coin)"

definition out_create_signed_contract_tx ::
  "bitcoin_lib \<Rightarrow> OutgoingSwapCoin \<Rightarrow> wallet_error + Transaction" where
  "out_create_signed_contract_tx lib coin =
     signed_contract_tx lib (out_protocol coin) (out_my_privkey coin) (out_my_pubkey coin)
       (out_other_pubkey coin) (out_others_contract_sig coin) (out_funding_amount coin)
       (out_contract_tx coin)"

definition sign_legacy_spend ::
  "bitcoin_lib \<Rightarrow> IncomingSwapCoin \<Rightarrow> Transaction \<Rightarrow> wallet_error + Transaction" where
  "sign_legacy_spend lib coin spend_tx =
     (case in_other_privkey coin of
        Some other_privkey \<Rightarrow>
          res_bind (need (in_my_privkey coin) ''Missing my_privkey for cooperative spend'')
            (\<lambda>my_privkey.
          res_bind (need (in_my_pubkey coin) ''Missing my_pubkey for cooperative spend'')
            (\<lambda>my_pubkey.
          res_bind (need (in_other_pubkey coin) ''Missing other_pubkey for cooperative spend'')
            (\<lambda>other_pubkey.
          res_bind (need (in_multisig_redeemscript coin)
                      ''Missing multisig_redeemscript for cooperative spend'') (\<lambda>redeemscript.
          res_bind (or_general ''Sighash error''
                      (p2wsh_sighash lib spend_tx 0 redeemscript (in_funding_amount coin)))
            (\<lambda>sighash.
          let sig_mine = \<lparr>signature = sign_ecdsa lib sighash my_privkey, sighash_type = 1\<rparr>;
              sig_other = \<lparr>signature = sign_ecdsa lib sighash other_privkey, sighash_type = 1\<rparr>
          in Inr (on_first_input (\<lambda>inp. apply_two_signatures_to_2of2_multisig_spend lib my_pubkey
                    other_pubkey sig_mine sig_other inp redeemscript) spend_tx))))))
      | None \<Rightarrow>
          (case in_hash_preimage coin of
             Some preimage \<Rightarrow>
               res_bind (need (in_contract_redeemscript coin)
                           ''Missing contract_redeemscript for hashlock spend'') (\<lambda>redeemscript.
               res_bind (need (case tx_output (in_contract_tx coin) of [] \<Rightarrow> None | out # _ \<Rightarrow> Some out)
                           ''Contract tx has no output for hashlock spend'') (\<lambda>out.
               res_bind (or_general ''Sighash error''
                           (p2wsh_sighash lib spend_tx 0 redeemscript (value_of out)))
                 (\<lambda>sighash.
               let sig = \<lparr>signature = sign_ecdsa lib sighash (in_hashlock_privkey coin),
                           sighash_type = 1\<rparr>
               in Inr (on_first_input (\<lambda>inp. inp\<lparr>witness := witness inp @
                         [sig_to_vec lib sig, preimage, redeemscript]\<rparr>) spend_tx))))
           | None \<Rightarrow> Inl (WGeneral ''Cannot spend: need either other_privkey or preimage'')))"

text \<open>
  The two branches of a taproot claim: the hashlock leaf with the preimage, and the key path
  with a MuSig2 signature of both keys. \<open>rand1\<close> and \<open>rand2\<close> are the random session values of the
  two nonces. Indexing past the outputs and unwrapping a missing witness panic. Building the spend
  tree and looking up a leaf in it are one call of the library (\<open>control_block\<close>).
\<close>

definition sign_taproot_hashlock ::
  "bitcoin_lib \<Rightarrow> IncomingSwapCoin \<Rightarrow> bytes \<Rightarrow> Transaction \<Rightarrow> wallet_error + Transaction" where
  "sign_taproot_hashlock lib coin preimage spend_tx =
     res_bind (need (in_hashlock_script coin)
                 ''Missing hashlock_script for taproot hashlock spend'') (\<lambda>hashlock_script.
     res_bind (need (in_timelock_script coin)
                 ''Missing timelock_script for taproot hashlock spend'') (\<lambda>timelock_script.
     res_bind (need (in_internal_key coin)
                 ''Missing internal_key for taproot hashlock spend'') (\<lambda>internal_key.
     res_bind (map_err WProtocol
                 (create_taproot_script lib hashlock_script timelock_script internal_key)) (\<lambda>_.
     res_bind (or_general ''Failed to get control block for hashlock script''
                 (control_block lib hashlock_script timelock_script internal_key hashlock_script))
       (\<lambda>cblock.
     let contract_vout = in_get_contract_output_vout coin in
     if length (tx_output (in_contract_tx coin)) \<le> contract_vout then Inl WPanic
     else
     let contract_output = \<lparr>value_of = in_funding_amount coin,
           script_pubkey = script_pubkey (tx_output (in_contract_tx coin) ! contract_vout)\<rparr> in
     res_bind (or_general ''Sighash error''
                 (taproot_script_sighash lib spend_tx contract_output hashlock_script 1)) (\<lambda>sighash.
     let sig = sign_schnorr lib sighash (in_hashlock_privkey coin) in
     if tx_input spend_tx = [] then Inl WPanic
     else Inr (on_first_input (\<lambda>inp. inp\<lparr>witness :=
            [tap_sig_to_vec lib sig 1, preimage, hashlock_script, cblock]\<rparr>) spend_tx)))))))"

definition sign_taproot_cooperative ::
  "bitcoin_lib \<Rightarrow> bytes \<Rightarrow> bytes \<Rightarrow> IncomingSwapCoin \<Rightarrow> Transaction \<Rightarrow> wallet_error + Transaction" where
  "sign_taproot_cooperative lib rand1 rand2 coin spend_tx =
     res_bind (need (in_my_privkey coin) ''Missing my_privkey'') (\<lambda>my_privkey.
     res_bind (need (in_other_privkey coin) ''Missing other_privkey'') (\<lambda>other_privkey.
     res_bind (need (in_tap_tweak coin) ''Missing tap_tweak'') (\<lambda>tap_tweak.
     res_bind (need (in_internal_key coin) ''Missing internal_key'') (\<lambda>internal_key.
     res_bind (need (in_hashlock_script coin) ''Missing hashlock_script'') (\<lambda>hashlock_script.
     res_bind (need (in_timelock_script coin) ''Missing timelock_script'') (\<lambda>timelock_script.
     let my_key = secret_point lib my_privkey; other_key = secret_point lib other_privkey in
     res_bind (or_general ''Failed to generate my nonce pair''
                 (generate_new_nonce_pair_compat lib rand1 my_key)) (\<lambda>(my_sec_nonce, my_pub_nonce).
     res_bind (or_general ''Failed to generate other nonce pair''
                 (generate_new_nonce_pair_compat lib rand2 other_key))
       (\<lambda>(other_sec_nonce, other_pub_nonce).
     res_bind (or_general ''Failed to calculate sighash''
                 (calculate_contract_sighash lib spend_tx (in_funding_amount coin) hashlock_script
                    timelock_script internal_key)) (\<lambda>message.
     let ordered = sort_pair my_key other_key; key0 = ordered ! 0; key1 = ordered ! 1;
         mine_first = (key0 = my_key);
         aggregated_nonce = get_aggregated_nonce_compat lib
           (if mine_first then [my_pub_nonce, other_pub_nonce] else [other_pub_nonce, my_pub_nonce])
     in
     res_bind (or_general ''Failed to generate my partial sig''
                 (generate_partial_signature_compat lib message aggregated_nonce my_sec_nonce
                    my_privkey tap_tweak key0 key1)) (\<lambda>my_partial_sig.
     res_bind (or_general ''Failed to generate other partial sig''
                 (generate_partial_signature_compat lib message aggregated_nonce other_sec_nonce
                    other_privkey tap_tweak key0 key1)) (\<lambda>other_partial_sig.
     res_bind (or_general ''Failed to aggregate signatures''
                 (aggregate_partial_signatures_compat lib message aggregated_nonce tap_tweak
                    (if mine_first then [my_partial_sig, other_partial_sig]
                     else [other_partial_sig, my_partial_sig]) key0 key1)) (\<lambda>aggregated_sig.
     if tx_input spend_tx = [] then Inl (WGeneral ''Failed to access witness'')
     else Inr (on_first_input (\<lambda>inp. inp\<lparr>witness := [tap_sig_to_vec lib aggregated_sig 0]\<rparr>)
                 spend_tx)))))))))))))"

definition sign_taproot_spend ::
  "bitcoin_lib \<Rightarrow> bytes \<Rightarrow> bytes \<Rightarrow> IncomingSwapCoin \<Rightarrow> Transaction \<Rightarrow> wallet_error + Transaction" where
  "sign_taproot_spend lib rand1 rand2 coin spend_tx =
     (if in_other_privkey coin = None then
        (case in_hash_preimage coin of
           Some preimage \<Rightarrow> sign_taproot_hashlock lib coin preimage spend_tx
         | None \<Rightarrow> Inl (WGeneral
             ''Cannot spend: need other_privkey for cooperative spend or preimage for hashlock''))
      else sign_taproot_cooperative lib rand1 rand2 coin spend_tx)"

section \<open>Spending an incoming coin\<close>

definition ENABLE_RBF_NO_LOCKTIME :: u32 where "ENABLE_RBF_NO_LOCKTIME = 4294967293"

definition spend_outpoint :: "bitcoin_lib \<Rightarrow> IncomingSwapCoin \<Rightarrow> wallet_error + OutPoint" where
  "spend_outpoint lib coin =
     (case in_protocol coin of
        Legacy \<Rightarrow>
          if in_other_privkey coin \<noteq> None then
            (case tx_input (in_contract_tx coin) of
               inp # _ \<Rightarrow> Inr (previous_output inp)
             | [] \<Rightarrow> Inl (WGeneral ''Contract tx has no input (funding outpoint)''))
          else Inr \<lparr>txid = compute_txid lib (in_contract_tx coin), vout = 0\<rparr>
      | Taproot \<Rightarrow>
          Inr \<lparr>txid = compute_txid lib (in_contract_tx coin),
               vout = (case position (\<lambda>out. value_of out = in_funding_amount coin)
                              (tx_output (in_contract_tx coin)) of Some i \<Rightarrow> i | None \<Rightarrow> 0)\<rparr>)"

definition sign_spend_transaction_with_output_value ::
  "bitcoin_lib \<Rightarrow> bytes \<Rightarrow> bytes \<Rightarrow> IncomingSwapCoin \<Rightarrow> Amount \<Rightarrow> Amount \<Rightarrow> ScriptBuf \<Rightarrow>
   wallet_error + Transaction" where
  "sign_spend_transaction_with_output_value lib rand1 rand2 coin input_value output_value
       output_script =
     (if input_value \<le> output_value then Inl (WGeneral ''Spend output leaves no fee from input'')
      else
        res_bind (spend_outpoint lib coin) (\<lambda>prevout.
        let spend_tx = \<lparr>version = 2, lock_time = 0,
              tx_input = [\<lparr>previous_output = prevout, script_sig = [],
                sequence = (if in_other_privkey coin \<noteq> None then ENABLE_RBF_NO_LOCKTIME else 0),
                witness = []\<rparr>],
              tx_output = [\<lparr>value_of = output_value, script_pubkey = output_script\<rparr>]\<rparr>
        in case in_protocol coin of
             Legacy \<Rightarrow> sign_legacy_spend lib coin spend_tx
           | Taproot \<Rightarrow> sign_taproot_spend lib rand1 rand2 coin spend_tx))"

definition sign_spend_transaction ::
  "bitcoin_lib \<Rightarrow> bytes \<Rightarrow> bytes \<Rightarrow> IncomingSwapCoin \<Rightarrow> Amount \<Rightarrow> ScriptBuf \<Rightarrow> f64 \<Rightarrow>
   wallet_error + Transaction" where
  "sign_spend_transaction lib rand1 rand2 coin input_value output_script feerate =
     (let vsize = contract_and_timelock_vsize (in_protocol coin)
                    (ContractSpend (in_other_privkey coin \<noteq> None)) in
      res_bind (need (fee_at_rate_sats vsize feerate) ''unusable feerate'') (\<lambda>fee.
      res_bind (need (checked_sub input_value fee) ''Fee exceeds input value'') (\<lambda>output_value.
      sign_spend_transaction_with_output_value lib rand1 rand2 coin input_value output_value
        output_script)))"

section \<open>Refunding an outgoing coin\<close>

definition sign_timelock_recovery ::
  "bitcoin_lib \<Rightarrow> OutgoingSwapCoin \<Rightarrow> Transaction \<Rightarrow> wallet_error + Transaction" where
  "sign_timelock_recovery lib coin tx =
     (let contract_vout = out_get_contract_output_vout coin; outputs = tx_output (out_contract_tx coin) in
      res_bind (need (if contract_vout < length outputs then Some (outputs ! contract_vout) else None)
                  ''No output in contract tx'') (\<lambda>contract_output.
      if out_protocol coin = Taproot then
        res_bind (need (out_timelock_script coin) ''No timelock script for Taproot swapcoin'')
          (\<lambda>timelock_script.
        res_bind (need (out_internal_key coin) ''No internal key for Taproot swapcoin'')
          (\<lambda>internal_key.
        res_bind (need (out_tap_tweak coin) ''No tap tweak for Taproot swapcoin'') (\<lambda>_.
        res_bind (need (out_hashlock_script coin) ''No hashlock script for Taproot swapcoin'')
          (\<lambda>hashlock_script.
        res_bind (or_general ''Sighash error''
                    (taproot_script_sighash lib tx contract_output timelock_script 0)) (\<lambda>sighash.
        let sig = sign_schnorr lib sighash (out_timelock_privkey coin) in
        res_bind (or_general ''Failed to get control block for timelock script''
                    (control_block lib hashlock_script timelock_script internal_key timelock_script))
          (\<lambda>cblock.
        if tx_input tx = [] then Inl WPanic
        else Inr (on_first_input (\<lambda>inp. inp\<lparr>witness :=
               [tap_sig_to_vec lib sig 0, timelock_script, cblock]\<rparr>) tx)))))))
      else
        res_bind (need (out_contract_redeemscript coin) ''No redeemscript for Legacy swapcoin'')
          (\<lambda>redeemscript.
        res_bind (or_general ''Sighash error''
                    (p2wsh_sighash lib tx 0 redeemscript (value_of contract_output))) (\<lambda>sighash.
        let sig = \<lparr>signature = sign_ecdsa lib sighash (out_timelock_privkey coin),
                   sighash_type = 1\<rparr> in
        if tx_input tx = [] then Inl WPanic
        else Inr (on_first_input (\<lambda>inp. inp\<lparr>witness := [sig_to_vec lib sig, [], redeemscript]\<rparr>)
               tx)))))"

text \<open>
  \<open>LockTime::from_height\<close> refuses a height of 500 million or more; the code then uses zero.
  Subtracting more than an \<open>Amount\<close> holds panics.
\<close>

definition create_timelock_recovery_tx ::
  "bitcoin_lib \<Rightarrow> OutgoingSwapCoin \<Rightarrow> f64 list \<Rightarrow> ScriptBuf \<Rightarrow> wallet_error + Transaction" where
  "create_timelock_recovery_tx lib coin fee_rates recovery_script =
     res_bind (need (out_get_timelock lib coin) ''Could not extract timelock from swapcoin'')
       (\<lambda>timelock.
     let contract_txid = compute_txid lib (out_contract_tx coin);
         contract_vout = out_get_contract_output_vout coin;
         outputs = tx_output (out_contract_tx coin) in
     res_bind (need (if contract_vout < length outputs then Some (outputs ! contract_vout) else None)
                 ''No output in contract tx'') (\<lambda>contract_output.
     let vsize = contract_and_timelock_vsize (out_protocol coin) Timelock in
     res_bind (need (capped_fee fee_rates vsize (value_of contract_output)
                       (minimal_non_dust lib recovery_script))
                 ''No feerate leaves a relayable output'') (\<lambda>fee.
     let (lock, sqn) =
           (if out_protocol coin = Taproot
            then (if timelock < 500000000 then timelock else 0, ENABLE_RBF_NO_LOCKTIME)
            else (0, timelock mod (u16_max + 1))) in
     if value_of contract_output < fee then Inl WPanic
     else sign_timelock_recovery lib coin
       \<lparr>version = 2, lock_time = lock,
        tx_input = [\<lparr>previous_output = \<lparr>txid = contract_txid, vout = contract_vout\<rparr>,
          script_sig = [], sequence = sqn, witness = []\<rparr>],
        tx_output = [\<lparr>value_of = value_of contract_output - fee,
          script_pubkey = recovery_script\<rparr>]\<rparr>)))"

section \<open>Library contract\<close>

text \<open>
  \<open>taproot_codec\<close>: the leaf of a script-path witness is the script before its control block,
  with the tapscript leaf version, and a key-path witness has one element and no leaf.
\<close>

locale taproot_codec =
  fixes control_block :: "ScriptBuf \<Rightarrow> ScriptBuf \<Rightarrow> bytes \<Rightarrow> ScriptBuf \<Rightarrow> protocol_error + bytes"
    and taproot_leaf_script :: "bytes list \<Rightarrow> (nat \<times> ScriptBuf) option"
  assumes script_path_leaf: "control_block h t k s = Inr cb \<Longrightarrow> ws \<noteq> [] \<Longrightarrow>
      taproot_leaf_script (ws @ [s, cb]) = Some (192, s)"
    and key_path_leaf: "taproot_leaf_script [x] = None"

interpretation ref_tap: taproot_codec "control_block ref_lib" "taproot_leaf_script ref_lib"
  by unfold_locales (auto simp: ref_lib_def nth_append)

section \<open>Timelock heights\<close>

lemma unat_shifted_byte:
  fixes b :: byte
  assumes "k < 4"
  shows "unat (push_bit (8 * k) (ucast b :: 32 word)) = push_bit (8 * k) (unat b)"
proof -
  have lt: "unat b < 256" using unsigned_less[of b] by simp
  have "push_bit (8 * k) (unat b) < 2 ^ (8 * k) * 256" using lt by (simp add: push_bit_eq_mult)
  also have "\<dots> = 2 ^ (8 * k + 8)" by (simp add: power_add)
  also have "\<dots> \<le> (2::nat) ^ 32" using assms by (intro power_increasing) auto
  finally have "take_bit 32 (push_bit (8 * k) (unat b)) = push_bit (8 * k) (unat b)"
    by (simp only: take_bit_nat_eq_self)
  moreover have "unat (ucast b :: 32 word) = unat b" by (simp add: unsigned_ucast_eq take_bit_nat_eq_self_iff less_trans[OF lt])
  ultimately show ?thesis by (simp add: unsigned_push_bit_eq)
qed

lemma or_byte:
  fixes acc :: "32 word" and b :: byte
  assumes "k < 4" "unat acc < 2 ^ (8 * k)"
  shows "unat (or acc (push_bit (8 * k mod 32) (ucast b))) = unat acc + 2 ^ (8 * k) * unat b"
proof -
  have k: "8 * k mod 32 = 8 * k" using assms(1) by simp
  have "take_bit (8 * k) (unat acc) = unat acc" using assms(2) by (simp add: take_bit_nat_eq_self)
  then have "\<not> bit (unat acc) n" if "8 * k \<le> n" for n
    using that by (metis bit_take_bit_iff not_le)
  then have "and (unat acc) (push_bit (8 * k) (unat b)) = 0"
    by (intro bit_eqI) (auto simp: bit_and_iff bit_push_bit_iff)
  from disjunctive_add_eq_or[OF this] show ?thesis
    unfolding k unsigned_or_eq unat_shifted_byte[OF assms(1)]
    by (simp add: push_bit_eq_mult mult.commute)
qed

lemma locktime_fold:
  fixes acc :: "32 word"
  assumes "k < 4" "unat acc < 2 ^ (8 * k)" "m < 2 ^ (32 - 8 * k)"
  shows "unat (foldl (\<lambda>acc (i, b). or acc (push_bit (8 * i mod 32) (ucast (b :: byte)))) acc
      (zip [k..<k + length (le_bytes m)] (le_bytes m))) = unat acc + 2 ^ (8 * k) * m"
  using assms
proof (induction m arbitrary: k acc rule: le_bytes.induct)
  case (1 m)
  show ?case
  proof (cases "m < 128")
    case True
    then show ?thesis using or_byte[OF 1(2,3), of "of_nat m"]
      by (simp add: le_bytes.simps[of m] unat_of_nat)
  next
    case False
    define b :: byte where "b = of_nat (m mod 256)"
    define acc' where "acc' = or acc (push_bit (8 * k mod 32) (ucast b))"
    have b: "unat b = m mod 256" by (simp add: b_def unat_of_nat)
    have acc': "unat acc' = unat acc + 2 ^ (8 * k) * (m mod 256)"
      unfolding acc'_def or_byte[OF 1(2,3)] b ..
    have "unat acc + 2 ^ (8 * k) * (m mod 256) < 2 ^ (8 * k) + 2 ^ (8 * k) * (m mod 256)" using 1(3) by simp
    also have "\<dots> = 2 ^ (8 * k) * (m mod 256 + 1)" by (simp add: algebra_simps)
    also have "\<dots> \<le> 2 ^ (8 * k) * 2 ^ 8"  by (intro mult_left_mono) (simp_all add: Suc_le_eq)
    finally have lt: "unat acc' < 2 ^ (8 * Suc k)" unfolding acc' by (simp add: power_add mult.commute)
    have step: "foldl (\<lambda>acc (i, b). or acc (push_bit (8 * i mod 32) (ucast (b :: byte)))) acc
        (zip [k..<k + length (le_bytes m)] (le_bytes m)) =
      foldl (\<lambda>acc (i, b). or acc (push_bit (8 * i mod 32) (ucast (b :: byte)))) acc'
        (zip [Suc k..<Suc k + length (le_bytes (m div 256))] (le_bytes (m div 256)))"
      using False by (simp add: le_bytes.simps[of m] upt_conv_Cons acc'_def b_def del: upt_Suc)
    have split: "2 ^ (8 * k) * (m mod 256 + 256 * (m div 256)) = 2 ^ (8 * k) * m" by simp
    show ?thesis
    proof (cases "k = 3")
      case True
      then have "m div 256 = 0" using 1(4) by simp
      then show ?thesis using True unfolding step acc' by (simp add: acc' )
    next
      case k: False
      have "m div 256 < 2 ^ (32 - 8 * Suc k)"
      proof -
        have "32 - 8 * k = (32 - 8 * Suc k) + 8" using 1(2) k by simp
        then have "m < 2 ^ (32 - 8 * Suc k) * 2 ^ 8" using 1(4) by (simp only: power_add)
        then show ?thesis by (simp add: less_mult_imp_div_less)
      qed
      from 1(1)[OF False _ lt this] 1(2) k
      have "unat (foldl (\<lambda>acc (i, b). or acc (push_bit (8 * i mod 32) (ucast (b :: byte)))) acc'
        (zip [Suc k..<Suc k + length (le_bytes (m div 256))] (le_bytes (m div 256)))) =
        unat acc' + 2 ^ (8 * Suc k) * (m div 256)" by (simp del: upt_Suc)
      moreover have "2 ^ (8 * k) * (m mod 256) + 2 ^ (8 * Suc k) * (m div 256) = 2 ^ (8 * k) * m"
        unfolding split[symmetric] distrib_left by (simp add: power_add)
      ultimately show ?thesis unfolding step acc' by linarith
    qed
  qed
qed

lemma locktime_from_le_bytes: "n \<le> u32_max \<Longrightarrow> locktime_from (le_bytes n) = n"
  using locktime_fold[of 0 0 n] by (simp add: locktime_from_def)

text \<open>
  A push of five bytes is accepted, but its fifth byte is shifted by 32: a height of \<open>2 ^ 32\<close>
  reads as 1.
\<close>

lemma fifth_byte_wraps: "locktime_from [0, 0, 0, 0, 1] = 1"
  by (simp add: locktime_from_def)

context contract_lib
begin

lemma timelock_script_bytes:
  assumes "17 \<le> n" "n \<le> u32_max" "length pubkey = 32"
  shows "\<exists>tl. create_timelock_script lib n pubkey =
      of_nat (length (le_bytes n)) # le_bytes n @ tl \<and> 4 \<le> length tl"
proof -
  obtain c1 c2 c3 where ops: "into_script lib [push_opcode OP_CLTV] = [c1]"
      "into_script lib [push_opcode OP_DROP] = [c2]" "into_script lib [push_opcode OP_CHECKSIG] = [c3]"
    using build_opcode[of OP_CLTV] build_opcode[of OP_DROP] build_opcode[of OP_CHECKSIG] by auto
  have "create_timelock_script lib n pubkey =
      of_nat (length (le_bytes n)) # le_bytes n @ c1 # c2 # 32 # pubkey @ [c3]"
    unfolding create_timelock_script_def
    by (simp add: build_cons2 ops build_lock_time[OF assms(1,2)] build_x_only[OF assms(3)])
  then show ?thesis using assms(3) by auto
qed

lemma taproot_timelock_read:
  assumes "17 \<le> n" "n \<le> u32_max" "length pubkey = 32"
  shows "contract_timelock lib Taproot rs (Some (create_timelock_script lib n pubkey)) = Some n"
proof -
  obtain tl where script: "create_timelock_script lib n pubkey =
      of_nat (length (le_bytes n)) # le_bytes n @ tl" and tl: "4 \<le> length tl"
    using timelock_script_bytes[OF assms] by blast
  have len: "length (le_bytes n) \<le> 5" "1 \<le> length (le_bytes n)"
    using length_le_bytes_u32[OF assms(2)] by (simp_all add: le_bytes.simps[of n])
  then have "unat (of_nat (length (le_bytes n)) :: byte) = length (le_bytes n)"
    by (simp add: unat_of_nat)
  then show ?thesis using len tl locktime_from_le_bytes[OF assms(2)]
    by (auto simp: contract_timelock_def script slice_def Let_def)
qed

end

section \<open>Signed spends\<close>

lemma capped_fee_bound:
  assumes "capped_fee rates vsize value dust = Some fee"
  shows "fee + dust \<le> value \<and> (\<exists>r\<in>set rates. fee_at_rate_sats vsize r = Some fee)"
proof -
  let ?fs = "filter (\<lambda>f. f \<le> value - dust) (List.map_filter (fee_at_rate_sats vsize) rates)"
  have "dust \<le> value" "list_max ?fs = Some fee"
    using assms by (auto simp: capped_fee_def checked_sub_def split: if_splits)
  moreover have "fs \<noteq> [] \<Longrightarrow> foldr max fs 0 \<in> set fs" for fs :: "nat list"
    by (induction fs rule: induct_list012) (auto simp: max_def)
  then have "fee \<in> set ?fs"
    using calculation(2) by (force simp: list_max_def simp del: set_filter split: if_splits)
  ultimately show ?thesis by auto
qed

lemma on_first_input_eq: "tx_input tx = inp # rest \<Longrightarrow> on_first_input f tx = tx\<lparr>tx_input := f inp # rest\<rparr>"
  by (simp add: on_first_input_def)

lemmas sign_simps = need_def or_general_def result_simps Let_def

lemma timelock_recovery_witness:
  assumes "sign_timelock_recovery lib coin tx = Inr tx'"
  shows "\<exists>inp rest w. tx_input tx = inp # rest \<and> tx' = tx\<lparr>tx_input := inp\<lparr>witness := w\<rparr> # rest\<rparr> \<and>
    (case out_protocol coin of
       Taproot \<Rightarrow> \<exists>s h k cb sig. out_timelock_script coin = Some s \<and>
         control_block lib h s k s = Inr cb \<and> w = [sig, s, cb]
     | Legacy \<Rightarrow> \<exists>s sig. out_contract_redeemscript coin = Some s \<and> w = [sig, [], s])"
proof (cases "out_protocol coin")
  case Legacy
  with assms obtain s sig where s: "out_contract_redeemscript coin = Some s" "tx_input tx \<noteq> []"
      "tx' = on_first_input (\<lambda>inp. inp\<lparr>witness := [sig, [], s]\<rparr>) tx"
    by (auto simp: sign_timelock_recovery_def sign_simps split: if_splits)
  then show ?thesis using Legacy by (cases "tx_input tx") (auto simp: on_first_input_eq)
next
  case Taproot
  with assms obtain s h k cb sig where s: "out_timelock_script coin = Some s"
      "control_block lib h s k s = Inr cb" "tx_input tx \<noteq> []"
      "tx' = on_first_input (\<lambda>inp. inp\<lparr>witness := [sig, s, cb]\<rparr>) tx"
    by (auto simp: sign_timelock_recovery_def sign_simps split: if_splits)
  obtain inp rest where "tx_input tx = inp # rest" using s(3) by (cases "tx_input tx") auto
  then show ?thesis using Taproot s(1,2) unfolding s(4) on_first_input_eq[OF \<open>tx_input tx = inp # rest\<close>]
    by (intro exI[of _ inp] exI[of _ rest] exI[of _ "[sig, s, cb]"]) auto
qed

lemma recovery_recognised:
  assumes "taproot_codec (control_block lib) (taproot_leaf_script lib)"
    and "sign_timelock_recovery lib coin tx = Inr tx'" "tx_input tx = inp # rest"
    and "previous_output inp =
      \<lparr>txid = compute_txid lib (out_contract_tx coin), vout = out_get_contract_output_vout coin\<rparr>"
  shows "out_is_own_timelock_spend lib coin tx'"
proof -
  obtain w where tx': "tx' = tx\<lparr>tx_input := inp\<lparr>witness := w\<rparr> # rest\<rparr>"
    and shape: "case out_protocol coin of
       Taproot \<Rightarrow> \<exists>s h k cb sig. out_timelock_script coin = Some s \<and>
         control_block lib h s k s = Inr cb \<and> w = [sig, s, cb]
     | Legacy \<Rightarrow> \<exists>s sig. out_contract_redeemscript coin = Some s \<and> w = [sig, [], s]"
    using timelock_recovery_witness[OF assms(2)] unfolding assms(3) by blast
  show ?thesis
  proof (cases "out_protocol coin")
    case Legacy
    then show ?thesis using shape assms(4)
      by (auto simp: tx' out_is_own_timelock_spend_def is_timelock_spend_def)
  next
    case Taproot
    then obtain s h k cb sig where w: "out_timelock_script coin = Some s"
        "control_block lib h s k s = Inr cb" "w = [sig, s, cb]"
      using shape by auto
    have "taproot_leaf_script lib ([sig] @ [s, cb]) = Some (192, s)"
      using taproot_codec.script_path_leaf[OF assms(1) w(2), of "[sig]"] by simp
    then show ?thesis using Taproot w assms(4)
      by (simp add: tx' out_is_own_timelock_spend_def is_timelock_spend_def)
  qed
qed

lemma recovery_keeps:
  assumes "sign_timelock_recovery lib coin tx = Inr tx'"
  shows "tx_output tx' = tx_output tx \<and> lock_time tx' = lock_time tx \<and>
    map previous_output (tx_input tx') = map previous_output (tx_input tx) \<and>
    map sequence (tx_input tx') = map sequence (tx_input tx)"
proof -
  obtain inp rest w where "tx_input tx = inp # rest" "tx' = tx\<lparr>tx_input := inp\<lparr>witness := w\<rparr> # rest\<rparr>"
    using timelock_recovery_witness[OF assms] by blast
  then show ?thesis by simp
qed

text \<open>The witness of a claim, by protocol and branch.\<close>

definition claim_witness :: "bitcoin_lib \<Rightarrow> IncomingSwapCoin \<Rightarrow> bytes list \<Rightarrow> bool" where
  "claim_witness lib coin w =
     (case in_protocol coin of
        Legacy \<Rightarrow> length w = 4 \<or>
          (\<exists>sig p s. in_hash_preimage coin = Some p \<and> w = [sig, p, s])
      | Taproot \<Rightarrow> (\<exists>sig. w = [sig]) \<or>
          (\<exists>sig p h t k cb. in_hashlock_script coin = Some h \<and> control_block lib h t k h = Inr cb \<and>
             w = [sig, p, h, cb]))"

lemma legacy_spend_witness:
  assumes "sign_legacy_spend lib coin tx = Inr tx'" "tx_input tx = [inp]" "witness inp = []"
    "in_protocol coin = Legacy"
  shows "\<exists>w. tx' = tx\<lparr>tx_input := [inp\<lparr>witness := w\<rparr>]\<rparr> \<and> claim_witness lib coin w"
proof (cases "in_other_privkey coin")
  case None
  then obtain p s sig where "in_hash_preimage coin = Some p"
      "tx' = tx\<lparr>tx_input := [inp\<lparr>witness := [sig, p, s]\<rparr>]\<rparr>"
    using assms(1-3) by (auto simp: sign_legacy_spend_def sign_simps on_first_input_eq split: option.splits)
  then show ?thesis using assms(4) by (intro exI[of _ "[sig, p, s]"]) (auto simp: claim_witness_def)
next
  case (Some other)
  then obtain a b c d where "tx' = tx\<lparr>tx_input := [inp\<lparr>witness := [a, b, c, d]\<rparr>]\<rparr>"
    using assms(1-3)
    by (auto simp: sign_legacy_spend_def sign_simps on_first_input_eq
        apply_two_signatures_to_2of2_multisig_spend_def split: if_splits)
  then show ?thesis using assms(4) by (intro exI[of _ "[a, b, c, d]"]) (auto simp: claim_witness_def)
qed

lemma taproot_spend_witness:
  assumes "sign_taproot_spend lib r1 r2 coin tx = Inr tx'" "tx_input tx = [inp]"
    "in_protocol coin = Taproot"
  shows "\<exists>w. tx' = tx\<lparr>tx_input := [inp\<lparr>witness := w\<rparr>]\<rparr> \<and> claim_witness lib coin w"
proof (cases "in_other_privkey coin")
  case None
  then obtain p where "sign_taproot_hashlock lib coin p tx = Inr tx'"
    using assms(1) by (auto simp: sign_taproot_spend_def split: option.splits)
  then obtain sig h t k cb where w: "in_hashlock_script coin = Some h" "control_block lib h t k h = Inr cb"
      "tx' = tx\<lparr>tx_input := [inp\<lparr>witness := [sig, p, h, cb]\<rparr>]\<rparr>"
    using assms(2)
    by (auto simp: sign_taproot_hashlock_def sign_simps on_first_input_eq split: if_splits)
  then show ?thesis using assms(3)
    by (intro exI[of _ "[sig, p, h, cb]"]) (auto simp: claim_witness_def)
next
  case (Some other)
  then have "sign_taproot_cooperative lib r1 r2 coin tx = Inr tx'"
    using assms(1) by (simp add: sign_taproot_spend_def)
  then obtain sig where "tx' = tx\<lparr>tx_input := [inp\<lparr>witness := [sig]\<rparr>]\<rparr>"
    using assms(2)
    by (auto simp: sign_taproot_cooperative_def sign_simps on_first_input_eq split: prod.splits)
  then show ?thesis using assms(3) by (intro exI[of _ "[sig]"]) (auto simp: claim_witness_def)
qed

lemma claim_shape:
  assumes "sign_spend_transaction_with_output_value lib r1 r2 coin input_value output_value script = Inr tx"
  shows "\<exists>prev sqn w. output_value < input_value \<and> spend_outpoint lib coin = Inr prev \<and>
    claim_witness lib coin w \<and>
    tx = \<lparr>version = 2, lock_time = 0,
          tx_input = [\<lparr>previous_output = prev, script_sig = [], sequence = sqn, witness = w\<rparr>],
          tx_output = [\<lparr>value_of = output_value, script_pubkey = script\<rparr>]\<rparr>"
proof -
  obtain prev where prev: "output_value < input_value" "spend_outpoint lib coin = Inr prev"
    using assms by (auto simp: sign_spend_transaction_with_output_value_def result_simps split: if_splits)
  define sqn where "sqn = (if in_other_privkey coin \<noteq> None then ENABLE_RBF_NO_LOCKTIME else 0)"
  define tx0 where "tx0 = \<lparr>version = 2, lock_time = 0,
      tx_input = [\<lparr>previous_output = prev, script_sig = [], sequence = sqn, witness = []\<rparr>],
      tx_output = [\<lparr>value_of = output_value, script_pubkey = script\<rparr>]\<rparr>"
  have "(case in_protocol coin of Legacy \<Rightarrow> sign_legacy_spend lib coin tx0
      | Taproot \<Rightarrow> sign_taproot_spend lib r1 r2 coin tx0) = Inr tx"
    using assms prev(1)
    unfolding sign_spend_transaction_with_output_value_def prev(2) Let_def res_bind.simps
      tx0_def[unfolded sqn_def, symmetric] by simp
  then have "\<exists>w. tx = tx0\<lparr>tx_input := [\<lparr>previous_output = prev, script_sig = [], sequence = sqn,
      witness = w\<rparr>]\<rparr> \<and> claim_witness lib coin w"
    using legacy_spend_witness[of lib coin tx0 tx] taproot_spend_witness[of lib r1 r2 coin tx0 tx]
    by (cases "in_protocol coin") (auto simp: tx0_def)
  then show ?thesis using prev by (auto simp: tx0_def)
qed

lemma claim_not_timelock:
  assumes "taproot_codec (control_block lib) (taproot_leaf_script lib)"
    and "claim_witness lib coin (witness inp)" "tx_input tx = [inp]"
    and "in_hash_preimage coin \<noteq> Some []"
    and "in_protocol coin = Taproot \<Longrightarrow> in_hashlock_script coin \<noteq> in_timelock_script coin"
  shows "\<not> in_is_timelock_spend lib coin tx"
proof (cases "in_protocol coin")
  case Legacy
  then show ?thesis using assms(2-4)
    by (auto simp: in_is_timelock_spend_def is_timelock_spend_def claim_witness_def split: option.splits)
next
  case Taproot
  consider (key) sig where "witness inp = [sig]"
    | (leaf) sig p h t k cb where "in_hashlock_script coin = Some h" "control_block lib h t k h = Inr cb"
        "witness inp = [sig, p, h, cb]"
    using assms(2) Taproot by (auto simp: claim_witness_def)
  then show ?thesis
  proof cases
    case key
    then show ?thesis using Taproot assms(3) taproot_codec.key_path_leaf[OF assms(1)]
      by (simp add: in_is_timelock_spend_def is_timelock_spend_def split: option.splits)
  next
    case leaf
    have "taproot_leaf_script lib (witness inp) = Some (192, h)"
      using taproot_codec.script_path_leaf[OF assms(1) leaf(2), of "[sig, p]"] leaf(3) by simp
    then show ?thesis using Taproot assms(3) assms(5)[OF Taproot] leaf(1)
      by (auto simp: in_is_timelock_spend_def is_timelock_spend_def split: option.splits)
  qed
qed

section \<open>Properties\<close>

text \<open>Two concrete coins for the examples.\<close>

definition demo_contract :: Transaction where
  "demo_contract = \<lparr>version = 2, lock_time = 0,
     tx_input = [\<lparr>previous_output = \<lparr>txid = 7, vout = 0\<rparr>, script_sig = [], sequence = 0, witness = []\<rparr>],
     tx_output = [\<lparr>value_of = 5000, script_pubkey = [81]\<rparr>]\<rparr>"

definition demo_incoming :: IncomingSwapCoin where
  "demo_incoming = in_set_preimage (replicate 32 4) (in_set_taproot_params [1]
     \<lparr>compressed = True, inner = replicate 33 2\<rparr> \<lparr>compressed = True, inner = replicate 33 3\<rparr> [5] [6]
     (in_new_taproot [1] [10] [11] demo_contract 5000 2))"

definition demo_outgoing :: OutgoingSwapCoin where
  "demo_outgoing = out_set_taproot_params [1]
     \<lparr>compressed = True, inner = replicate 33 2\<rparr> \<lparr>compressed = True, inner = replicate 33 3\<rparr> [5] [6]
     (out_new_taproot [1] [10] (create_timelock_script ref_lib 800000 (replicate 32 1))
        demo_contract 5000 2)"

text \<open>
  C15 (timelocks read back). The height of a taproot timelock script and the block count of a
  legacy contract script are read back exactly, at every 32-bit height above 16 and every
  block count above zero.
\<close>

theorem timelock_read_back:
  assumes "contract_lib lib valid_point"
    and "17 \<le> height" "height \<le> u32_max" "length pubkey = 32"
    and "valid_point h" "valid_point t" "length hv = 20" "0 < blocks" "blocks \<le> u16_max"
  shows "contract_timelock lib Taproot rs (Some (create_timelock_script lib height pubkey)) = Some height \<and>
    contract_timelock lib Legacy (Some (create_contract_redeemscript lib
      \<lparr>compressed = True, inner = h\<rparr> \<lparr>compressed = True, inner = t\<rparr> hv blocks)) ts = Some blocks"
  using contract_lib.taproot_timelock_read[OF assms(1-4)] contract_lib.read_locktime[OF assms(1,5-9)]
  by (simp add: contract_timelock_def)

theorem timelock_read_back_witness:
  "contract_timelock ref_lib Taproot None (Some (create_timelock_script ref_lib 3000000000 (replicate 32 1)))
     = Some 3000000000"
proof -
  have "ref_valid_point (replicate 33 2)" "ref_valid_point (replicate 33 3)"
    by (simp_all add: ref_valid_point_def)
  from timelock_read_back[OF ref.contract_lib_axioms _ _ _ this, of 3000000000 "replicate 32 1" "replicate 20 7" 9]
  show ?thesis by simp
qed

text \<open>
  C13 (refund transactions). A refund that is built spends the contract output alone, once its
  timelock allows it, and pays its whole value less an affordable fee, never dust, to the
  recovery script. The classifier recognises it as our own timelock spend.
\<close>

theorem refund_tx_correct:
  assumes "taproot_codec (control_block lib) (taproot_leaf_script lib)"
    and "create_timelock_recovery_tx lib coin rates script = Inr tx"
  shows "out_is_own_timelock_spend lib coin tx \<and>
    (\<exists>n fee r. out_get_timelock lib coin = Some n \<and> r \<in> set rates \<and>
       fee_at_rate_sats (contract_and_timelock_vsize (out_protocol coin) Timelock) r = Some fee \<and>
       map previous_output (tx_input tx) = [\<lparr>txid = compute_txid lib (out_contract_tx coin),
         vout = out_get_contract_output_vout coin\<rparr>] \<and>
       (\<exists>out. tx_output tx = [out] \<and> script_pubkey out = script \<and>
          minimal_non_dust lib script \<le> value_of out \<and>
          value_of out + fee =
            value_of (tx_output (out_contract_tx coin) ! out_get_contract_output_vout coin)) \<and>
       (if out_protocol coin = Taproot
        then lock_time tx = (if n < 500000000 then n else 0) \<and>
          map sequence (tx_input tx) = [ENABLE_RBF_NO_LOCKTIME]
        else lock_time tx = 0 \<and> map sequence (tx_input tx) = [n mod 65536]))"
proof -
  let ?v = "out_get_contract_output_vout coin" and ?outs = "tx_output (out_contract_tx coin)"
  let ?size = "contract_and_timelock_vsize (out_protocol coin) Timelock"
  obtain n fee where n: "out_get_timelock lib coin = Some n" and v: "?v < length ?outs"
    and fee: "capped_fee rates ?size (value_of (?outs ! ?v)) (minimal_non_dust lib script) = Some fee"
    using assms(2)
    by (auto simp: create_timelock_recovery_tx_def sign_simps split: if_splits)
  define sqn where "sqn = (if out_protocol coin = Taproot then ENABLE_RBF_NO_LOCKTIME else n mod 65536)"
  define lock where
    "lock = (if out_protocol coin = Taproot then if n < 500000000 then n else 0 else 0)"
  define inp where "inp = \<lparr>previous_output = \<lparr>txid = compute_txid lib (out_contract_tx coin), vout = ?v\<rparr>,
      script_sig = [], sequence = sqn, witness = []\<rparr>"
  define tx0 where "tx0 = \<lparr>version = 2, lock_time = lock, tx_input = [inp],
      tx_output = [\<lparr>value_of = value_of (?outs ! ?v) - fee, script_pubkey = script\<rparr>]\<rparr>"
  note bound = capped_fee_bound[OF fee]
  have "sign_timelock_recovery lib coin tx0 = Inr tx"
    using assms(2) n v fee bound
    by (auto simp: create_timelock_recovery_tx_def sign_simps tx0_def inp_def lock_def sqn_def
        split: if_splits)
  note signed = recovery_recognised[OF assms(1) this, of inp "[]"] recovery_keeps[OF this]
  have own: "out_is_own_timelock_spend lib coin tx"
    using signed(1) by (simp add: tx0_def inp_def)
  obtain r where r: "r \<in> set rates" "fee_at_rate_sats ?size r = Some fee" using bound by blast
  have "minimal_non_dust lib script \<le> value_of (?outs ! ?v) - fee"
    "value_of (?outs ! ?v) - fee + fee = value_of (?outs ! ?v)" using bound by linarith+
  with signed(2) have outs: "\<exists>out. tx_output tx = [out] \<and> script_pubkey out = script \<and>
      minimal_non_dust lib script \<le> value_of out \<and> value_of out + fee = value_of (?outs ! ?v)"
    by (simp add: tx0_def)
  have ins: "map previous_output (tx_input tx) = [previous_output inp]"
    "map sequence (tx_input tx) = [sqn]" "lock_time tx = lock"
    using signed(2) by (simp_all add: tx0_def inp_def)
  show ?thesis using own n r outs
    by (intro conjI exI[of _ n] exI[of _ fee] exI[of _ r])
      (simp_all only: ins, simp_all add: inp_def lock_def sqn_def)
qed

theorem refund_tx_correct_witness:
  "\<exists>tx. create_timelock_recovery_tx ref_lib demo_outgoing [Fin 2] [9] = Inr tx \<and>
     out_is_own_timelock_spend ref_lib demo_outgoing tx"
proof -
  have fee: "fee_at_rate_sats 140 (Fin 2) = Some 280"
    using fee_at_rate_int_exact[of 2 140] by simp
  have coin: "out_protocol demo_outgoing = Taproot" "out_get_contract_output_vout demo_outgoing = 0"
      "tx_output (out_contract_tx demo_outgoing) = [\<lparr>value_of = 5000, script_pubkey = [81]\<rparr>]"
      "minimal_non_dust ref_lib s = 330" for s
    by (simp_all add: demo_outgoing_def out_new_taproot_def out_set_taproot_params_def demo_contract_def
        out_get_contract_output_vout_def contract_output_vout_def ref_lib_def)
  have lock: "out_get_timelock ref_lib demo_outgoing = Some 800000"
    using ref.taproot_timelock_read[of 800000 "replicate 32 1" None]
    by (simp add: out_get_timelock_def demo_outgoing_def out_new_taproot_def out_set_taproot_params_def)
  have signed: "\<exists>tx'. sign_timelock_recovery ref_lib demo_outgoing tx = Inr tx'"
    if "tx_input tx \<noteq> []" for tx
    using that
    by (simp add: sign_timelock_recovery_def demo_outgoing_def out_new_taproot_def
        out_set_taproot_params_def sign_simps out_get_contract_output_vout_def contract_output_vout_def
        demo_contract_def ref_lib_def)
  have "\<exists>tx. create_timelock_recovery_tx ref_lib demo_outgoing [Fin 2] [9] = Inr tx"
    using fee coin lock
    by (simp add: create_timelock_recovery_tx_def sign_simps capped_fee_def checked_sub_def
        List.map_filter_simps list_max_def TAPROOT_TIMELOCK_VSIZE_def signed)
  then obtain tx where "create_timelock_recovery_tx ref_lib demo_outgoing [Fin 2] [9] = Inr tx" ..
  with refund_tx_correct[OF ref_tap.taproot_codec_axioms this] show ?thesis by blast
qed

text \<open>
  C14 (claim transactions). A claim of an incoming coin spends exactly the coin's own output,
  pays the input value less the priced fee to the given script, and is never mistaken for
  the sender's refund, whichever branch signs it.
\<close>

theorem claim_tx_correct:
  assumes "taproot_codec (control_block lib) (taproot_leaf_script lib)"
    and "sign_spend_transaction lib r1 r2 coin input_value script rate = Inr tx"
    and "in_hash_preimage coin \<noteq> Some []"
    and "in_protocol coin = Taproot \<Longrightarrow> in_hashlock_script coin \<noteq> in_timelock_script coin"
  shows "\<not> in_is_timelock_spend lib coin tx \<and>
    (\<exists>prev fee. spend_outpoint lib coin = Inr prev \<and>
       fee_at_rate_sats (contract_and_timelock_vsize (in_protocol coin)
         (ContractSpend (in_other_privkey coin \<noteq> None))) rate = Some fee \<and> 0 < fee \<and>
       map previous_output (tx_input tx) = [prev] \<and>
       (\<exists>out. tx_output tx = [out] \<and> script_pubkey out = script \<and>
          value_of out + fee = input_value))"
proof -
  obtain fee where fee: "fee_at_rate_sats (contract_and_timelock_vsize (in_protocol coin)
         (ContractSpend (in_other_privkey coin \<noteq> None))) rate = Some fee" "fee \<le> input_value"
    and tx: "sign_spend_transaction_with_output_value lib r1 r2 coin input_value (input_value - fee)
         script = Inr tx"
    using assms(2) by (auto simp: sign_spend_transaction_def sign_simps checked_simps)
  obtain prev sqn w where shape: "input_value - fee < input_value" "spend_outpoint lib coin = Inr prev"
      "claim_witness lib coin w"
      "tx = \<lparr>version = 2, lock_time = 0,
          tx_input = [\<lparr>previous_output = prev, script_sig = [], sequence = sqn, witness = w\<rparr>],
          tx_output = [\<lparr>value_of = input_value - fee, script_pubkey = script\<rparr>]\<rparr>"
    using claim_shape[OF tx] by blast
  have "\<not> in_is_timelock_spend lib coin tx"
    by (rule claim_not_timelock[OF assms(1), of coin
          "\<lparr>previous_output = prev, script_sig = [], sequence = sqn, witness = w\<rparr>"])
      (use shape assms(3,4) in simp_all)
  then show ?thesis using fee shape by auto
qed

theorem claim_tx_correct_witness:
  "\<exists>tx. sign_spend_transaction ref_lib [1] [2] demo_incoming 5000 [9] (Fin 2) = Inr tx \<and>
     \<not> in_is_timelock_spend ref_lib demo_incoming tx"
proof -
  have "fee_at_rate_sats 155 (Fin 2) = Some 310"
    using fee_at_rate_int_exact[of 2 155] by simp
  then obtain tx where tx: "sign_spend_transaction ref_lib [1] [2] demo_incoming 5000 [9] (Fin 2) = Inr tx"
    by (simp add: sign_spend_transaction_def demo_incoming_def in_new_taproot_def in_set_preimage_def
        in_set_taproot_params_def sign_simps sign_spend_transaction_with_output_value_def checked_sub_def
        spend_outpoint_def sign_taproot_spend_def sign_taproot_hashlock_def create_taproot_script_def
        in_get_contract_output_vout_def contract_output_vout_def demo_contract_def
        TAPROOT_SCRIPTPATH_VSIZE_def ref_lib_def)
  moreover have "in_hash_preimage demo_incoming \<noteq> Some []"
    "in_hashlock_script demo_incoming \<noteq> in_timelock_script demo_incoming"
    by (simp_all add: demo_incoming_def in_new_taproot_def in_set_preimage_def in_set_taproot_params_def)
  ultimately show ?thesis using claim_tx_correct[OF ref_tap.taproot_codec_axioms tx] by blast
qed

end
