(* ===== verification/Text.thy ===== *)
theory Text
  imports Prelude "HOL-Library.Sublist" "HOL-Library.Word"
begin

text \<open>
  The string functions of Rust's standard library that the program calls. A \<open>str\<close> is the
  list of its UTF-8 bytes, written as characters below 256.
\<close>

section \<open>Splitting\<close>

fun str_find :: "char \<Rightarrow> string \<Rightarrow> nat option" where
  "str_find c [] = None"
| "str_find c (x # xs) = (if x = c then Some 0 else map_option Suc (str_find c xs))"

definition split_once :: "char \<Rightarrow> string \<Rightarrow> (string \<times> string) option" where
  "split_once c s = (case str_find c s of None \<Rightarrow> None | Some i \<Rightarrow> Some (take i s, drop (Suc i) s))"

fun split_on :: "char \<Rightarrow> string \<Rightarrow> string list" where
  "split_on c [] = [[]]"
| "split_on c (x # xs) =
     (if x = c then [] # split_on c xs
      else case split_on c xs of [] \<Rightarrow> [[x]] | w # ws \<Rightarrow> (x # w) # ws)"

definition starts_with :: "string \<Rightarrow> string \<Rightarrow> bool" where
  "starts_with p s = prefix p s"

definition strip_suffix :: "string \<Rightarrow> string \<Rightarrow> string option" where
  "strip_suffix suf s = (if suffix suf s then Some (take (length s - length suf) s) else None)"

section \<open>Decimal numbers\<close>

definition dec_char :: "nat \<Rightarrow> char" where
  "dec_char d = char_of (48 + d)"

definition ascii_digit :: "char \<Rightarrow> bool" where
  "ascii_digit c = (48 \<le> (of_char c :: nat) \<and> (of_char c :: nat) \<le> 57)"

definition dec_value :: "char \<Rightarrow> nat" where
  "dec_value c = of_char c - 48"

function show_nat :: "nat \<Rightarrow> string" where
  "show_nat n = (if n < 10 then [dec_char n] else show_nat (n div 10) @ [dec_char (n mod 10)])"
  by pat_completeness auto
termination by (relation "measure id") auto

declare show_nat.simps [simp del]

definition decimal :: "string \<Rightarrow> nat" where
  "decimal s = foldl (\<lambda>n c. 10 * n + dec_value c) 0 s"

text \<open>\<open>parse\<close> of an unsigned number: an optional plus sign, then at least one digit.\<close>

definition parse_digits :: "nat \<Rightarrow> string \<Rightarrow> nat option" where
  "parse_digits bound s =
     (if s \<noteq> [] \<and> list_all ascii_digit s \<and> decimal s \<le> bound then Some (decimal s) else None)"

definition parse_num_u32 :: "string \<Rightarrow> u32 option" where
  "parse_num_u32 s = parse_digits u32_max (case s of c # r \<Rightarrow> if c = CHR ''+'' then r else s | [] \<Rightarrow> [])"

definition parse_num_i32 :: "string \<Rightarrow> int option" where
  "parse_num_i32 s =
     (case s of
        [] \<Rightarrow> None
      | c # r \<Rightarrow>
          if c = CHR ''-'' then map_option (\<lambda>n. - int n) (parse_digits 2147483648 r)
          else if c = CHR ''+'' then map_option int (parse_digits 2147483647 r)
          else map_option int (parse_digits 2147483647 s))"

section \<open>UTF-8\<close>

definition continuation :: "nat \<Rightarrow> bool" where
  "continuation b = (128 \<le> b \<and> b \<le> 191)"

fun utf8_valid :: "nat list \<Rightarrow> bool" where
  "utf8_valid [] = True"
| "utf8_valid (a # bs) =
     (if a < 128 then utf8_valid bs
      else if 194 \<le> a \<and> a \<le> 223 then
        (case bs of b # r \<Rightarrow> continuation b \<and> utf8_valid r | _ \<Rightarrow> False)
      else if 224 \<le> a \<and> a \<le> 239 then
        (case bs of
           b # c # r \<Rightarrow> (if a = 224 then 160 \<le> b \<and> b \<le> 191 else if a = 237 then 128 \<le> b \<and> b \<le> 159
                         else continuation b) \<and> continuation c \<and> utf8_valid r
         | _ \<Rightarrow> False)
      else if 240 \<le> a \<and> a \<le> 244 then
        (case bs of
           b # c # d # r \<Rightarrow> (if a = 240 then 144 \<le> b \<and> b \<le> 191 else if a = 244 then 128 \<le> b \<and> b \<le> 143
                         else continuation b) \<and> continuation c \<and> continuation d \<and> utf8_valid r
         | _ \<Rightarrow> False)
      else False)"

definition from_utf8 :: "8 word list \<Rightarrow> string option" where
  "from_utf8 bs = (if utf8_valid (map unat bs) then Some (map (\<lambda>b. char_of (unat b)) bs) else None)"

section \<open>Lemmas\<close>

lemma str_find_eq_Some:
  "str_find c s = Some i \<longleftrightarrow> i < length s \<and> s ! i = c \<and> (\<forall>j<i. s ! j \<noteq> c)"
proof (induction s arbitrary: i)
  case (Cons x xs)
  then show ?case by (cases i) (auto simp: less_Suc_eq_0_disj)
qed simp

lemma split_once_append: "c \<notin> set a \<Longrightarrow> split_once c (a @ c # b) = Some (a, b)"
proof -
  assume "c \<notin> set a"
  then have "str_find c (a @ c # b) = Some (length a)"
    by (subst str_find_eq_Some) (auto simp: nth_append in_set_conv_nth)
  then show ?thesis by (simp add: split_once_def)
qed

lemma split_once_eq_Some: "split_once c s = Some (a, b) \<longleftrightarrow> s = a @ c # b \<and> c \<notin> set a"
proof
  assume "split_once c s = Some (a, b)"
  then obtain i where i: "str_find c s = Some i" "a = take i s" "b = drop (Suc i) s"
    by (auto simp: split_once_def split: option.splits)
  then have "i < length s" "s ! i = c" "\<forall>j<i. s ! j \<noteq> c" by (auto simp: str_find_eq_Some)
  then show "s = a @ c # b \<and> c \<notin> set a"
    unfolding i(2,3) by (auto simp: id_take_nth_drop[symmetric] in_set_conv_nth)
qed (simp add: split_once_append)

lemma strip_suffix_append [simp]: "strip_suffix suf (s @ suf) = Some s"
  by (simp add: strip_suffix_def suffix_def)

lemma strip_suffix_eq_Some: "strip_suffix suf s = Some t \<longleftrightarrow> s = t @ suf"
  by (auto simp: strip_suffix_def suffix_def)

lemma of_char_digit: "d < 10 \<Longrightarrow> (of_char (dec_char d) :: nat) = 48 + d"
  by (simp add: dec_char_def of_char_of)

lemma dec_char_props:
  "d < 10 \<Longrightarrow> ascii_digit (dec_char d) \<and> dec_value (dec_char d) = d"
  by (simp add: ascii_digit_def dec_value_def of_char_digit)

lemma show_nat_digits: "list_all ascii_digit (show_nat n) \<and> show_nat n \<noteq> []"
proof (induction n rule: show_nat.induct)
  case (1 n)
  then show ?case by (subst (1 2) show_nat.simps) (auto simp: dec_char_props)
qed

lemma decimal_show_nat [simp]: "decimal (show_nat n) = n"
proof (induction n rule: show_nat.induct)
  case (1 n)
  then show ?case by (subst show_nat.simps) (auto simp: decimal_def dec_char_props)
qed

lemma hd_show_nat: "0 < n \<Longrightarrow> hd (show_nat n) \<noteq> CHR ''0''"
proof (induction n rule: show_nat.induct)
  case (1 n)
  have ne: "show_nat (n div 10) \<noteq> []" using show_nat_digits by blast
  have "dec_char n \<noteq> CHR ''0''" if "n < 10"
  proof
    assume "dec_char n = CHR ''0''"
    then have "(of_char (dec_char n) :: nat) = of_char (CHR ''0'')" by simp
    then show False using of_char_digit[OF that] 1(2) by simp
  qed
  then show ?case using 1 ne by (subst show_nat.simps) (auto simp: hd_append)
qed

lemma length_show_nat: "n < 10 ^ Suc k \<Longrightarrow> length (show_nat n) \<le> Suc k"
proof (induction k arbitrary: n)
  case 0
  then show ?case by (simp add: show_nat.simps)
next
  case (Suc k)
  have "n div 10 < 10 ^ Suc k" using Suc.prems by (simp add: less_mult_imp_div_less)
  from Suc.IH[OF this] show ?case by (subst show_nat.simps) auto
qed

lemma digit_not_sign: "ascii_digit c \<Longrightarrow> c \<noteq> CHR ''+'' \<and> c \<noteq> CHR ''-''"
  by (auto simp: ascii_digit_def)

lemma parse_show_nat [simp]: "n \<le> u32_max \<Longrightarrow> parse_num_u32 (show_nat n) = Some n"
proof -
  assume n: "n \<le> u32_max"
  obtain c r where s: "show_nat n = c # r" using show_nat_digits[of n] by (cases "show_nat n") auto
  then have "c \<noteq> CHR ''+''" using show_nat_digits[of n] digit_not_sign by auto
  then have "parse_num_u32 (show_nat n) = parse_digits u32_max (show_nat n)"
    by (simp add: parse_num_u32_def s)
  then show ?thesis using n show_nat_digits[of n] by (simp add: parse_digits_def)
qed

end
