(* ===== verification/Fidelity.thy ===== *)
theory Fidelity
  imports SwapCoins Text
begin

text \<open>
  Fidelity bonds (\<open>wallet/fidelity.rs\<close>): coins a maker locks for three to six months so that
  takers rank it. The theory models the bond script, the checks a taker makes of a proof, the
  proof a maker generates, and the scan that rebuilds bond records after a restore. Key
  derivation is a parameter: \<open>keyring\<close> holds what the seed gives.
\<close>

section \<open>Bonds\<close>

definition MIN_FIDELITY_TIMELOCK :: u32 where "MIN_FIDELITY_TIMELOCK = 12960"
definition MAX_FIDELITY_TIMELOCK :: u32 where "MAX_FIDELITY_TIMELOCK = 25920"
definition MIN_FIDELITY_BOND_AMOUNT_SATS :: u64 where "MIN_FIDELITY_BOND_AMOUNT_SATS = 10000"

text \<open>A lock time is its consensus encoding: below 500 million a height, else a time.\<close>

type_synonym LockTime = u32

definition is_height :: "LockTime \<Rightarrow> bool" where
  "is_height lock = (lock < 500000000)"

record FidelityBond =
  fb_outpoint :: OutPoint
  fb_amount :: Amount
  fb_lock_time :: LockTime
  fb_pubkey :: PublicKey
  fb_conf_height :: "u32 option"
  fb_is_spent :: bool
  fb_index :: u32
  fb_tx :: "Transaction option"

record FidelityProof =
  proof_bond :: FidelityBond
  proof_cert_hash :: bytes
  proof_cert_sig :: bytes

definition fidelity_redeemscript :: "bitcoin_lib \<Rightarrow> LockTime \<Rightarrow> PublicKey \<Rightarrow> ScriptBuf" where
  "fidelity_redeemscript lib lock pubkey =
     into_script lib [push_key pubkey, push_opcode OP_CHECKSIGVERIFY, push_lock_time lock,
       push_opcode OP_CLTV]"

definition fb_redeem_script :: "bitcoin_lib \<Rightarrow> FidelityBond \<Rightarrow> ScriptBuf" where
  "fb_redeem_script lib bond = fidelity_redeemscript lib (fb_lock_time bond) (fb_pubkey bond)"

text \<open>\<open>expect\<close> on the script conversion: an error panics.\<close>

definition fb_script_pub_key :: "bitcoin_lib \<Rightarrow> FidelityBond \<Rightarrow> wallet_error + ScriptBuf" where
  "fb_script_pub_key lib bond =
     map_err (\<lambda>_. WPanic) (redeemscript_to_scriptpubkey lib (fb_redeem_script lib bond))"

definition str_bytes :: "string \<Rightarrow> bytes" where
  "str_bytes s = map of_char s"

definition cert_message :: "bitcoin_lib \<Rightarrow> FidelityBond \<Rightarrow> string \<Rightarrow> PublicKey \<Rightarrow> string" where
  "cert_message lib bond addr tweakable_point =
     ''fidelity-bond-cert|'' @ show_outpoint lib (fb_outpoint bond) @ ''|'' @
     show_pubkey lib (fb_pubkey bond) @ ''|'' @ show_lock_time lib (fb_lock_time bond) @ ''|'' @
     show_amount lib (fb_amount bond) @ ''|'' @ addr @ ''|'' @ show_pubkey lib tweakable_point"

definition generate_cert_hash :: "bitcoin_lib \<Rightarrow> FidelityBond \<Rightarrow> string \<Rightarrow> PublicKey \<Rightarrow> bytes" where
  "generate_cert_hash lib bond addr tweakable_point =
     (let cert_msg = str_bytes (cert_message lib bond addr tweakable_point) in
      sha256d lib (24 # str_bytes ''Bitcoin Signed Message:'' @ [10] @
        var_int lib (length cert_msg) @ cert_msg))"

section \<open>Checking a proof\<close>

text \<open>
  A taker's checks, in their order. Comparing lock times of different units is never
  greater. The casts \<open>current_height as u32\<close> keep the low 32 bits.
\<close>

definition verify_fidelity_checks ::
  "bitcoin_lib \<Rightarrow> FidelityProof \<Rightarrow> string \<Rightarrow> Transaction \<Rightarrow> u64 \<Rightarrow> u32 \<Rightarrow> PublicKey \<Rightarrow> bytes \<Rightarrow>
   wallet_error + unit" where
  "verify_fidelity_checks lib prf addr tx current_height confirmation_height tweakable_point
       tweak_chain_code =
     (let bond = proof_bond prf in
      res_bind (ok_or (checked_sub (fb_lock_time bond) confirmation_height)
                  (WFidelity InvalidBondLocktime)) (\<lambda>bond_height.
      res_bind (ensure (MIN_FIDELITY_TIMELOCK \<le> bond_height \<and> bond_height \<le> MAX_FIDELITY_TIMELOCK)
                  (WFidelity InvalidBondLocktime)) (\<lambda>_.
      let height = current_height mod (u32_max + 1) in
      res_bind (ensure (is_height height) WLibrary) (\<lambda>_.
      res_bind (ensure (\<not> (is_height (fb_lock_time bond) \<and> fb_lock_time bond < height))
                  (WFidelity BondLocktimeExpired)) (\<lambda>_.
      res_bind (ensure (proof_cert_hash prf = generate_cert_hash lib bond addr tweakable_point)
                  (WFidelity InvalidCertHash)) (\<lambda>_.
      res_bind (map_err (\<lambda>_. WLibrary)
                  (derive_pub lib (inner tweakable_point) tweak_chain_code [2, fb_index bond]))
        (\<lambda>derived.
      res_bind (ensure (derived = inner (fb_pubkey bond)) (WFidelity BondPubkeyMismatch)) (\<lambda>_.
      res_bind (map_err WProtocol (redeemscript_to_scriptpubkey lib
                  (fidelity_redeemscript lib (fb_lock_time bond) (fb_pubkey bond)))) (\<lambda>spk.
      let vout = vout (fb_outpoint bond) in
      res_bind (ensure (vout < length (tx_output tx)) (WFidelity BondDoesNotExist)) (\<lambda>_.
      let out = tx_output tx ! vout in
      res_bind (ensure (script_pubkey out = spk) (WFidelity BondDoesNotExist)) (\<lambda>_.
      res_bind (ensure (value_of out = fb_amount bond)
                  (WFidelity (BondAmountMismatch (fb_amount bond) (value_of out)))) (\<lambda>_.
      map_err (\<lambda>_. WFidelity InvalidCertSignature)
        (verify_ecdsa lib (proof_cert_hash prf) (proof_cert_sig prf) (inner (fb_pubkey bond)))))))))))))))"

text \<open>Maturity as a timestamp, ten minutes for each block to go; the sum is of 64 bits.\<close>

definition bond_maturity_time :: "LockTime \<Rightarrow> u64 \<Rightarrow> u64 \<Rightarrow> fidelity_error + u64" where
  "bond_maturity_time lock tip_height tip_time =
     (if is_height lock then
        res_bind (ok_or (checked_sub lock (tip_height mod (u32_max + 1))) BondLocktimeExpired)
          (\<lambda>height_diff. Inr (wrapping_add tip_time (height_diff * 10 * 60)))
      else Inl InvalidBondLocktime)"

definition read_locktime_from_fidelity_script :: "bitcoin_lib \<Rightarrow> ScriptBuf \<Rightarrow> wallet_error + LockTime" where
  "read_locktime_from_fidelity_script lib script =
     (let is = instructions lib script in
      case (if 2 < length is then Some (is ! 2) else None) of
        Some (Inr (PushBytes bs)) \<Rightarrow>
          if 4 < length bs then Inl WPanic else Inr (locktime_from bs)
      | _ \<Rightarrow> Inl (WFidelity WrongScriptType))"

definition read_pubkey_from_fidelity_script :: "bitcoin_lib \<Rightarrow> ScriptBuf \<Rightarrow> wallet_error + PublicKey" where
  "read_pubkey_from_fidelity_script lib script =
     (case instructions lib script of
        Inr (PushBytes bs) # _ \<Rightarrow>
          map_err (\<lambda>_. WFidelity (FGeneral ''invalid public key'')) (pubkey_from_slice lib bs)
      | _ \<Rightarrow> Inl (WFidelity WrongScriptType))"

section \<open>The maker's side\<close>

text \<open>
  What the seed gives: the tweakable key pair at \<open>m/175'\<close> with its chain code, and the key of
  the bond at each index, \<open>m/175'/2/index\<close>. Unsealing the master key or deriving may fail.
\<close>

record keyring =
  tweak_key :: "wallet_error + (SecretKey \<times> bytes)"
  fidelity_key :: "u32 \<Rightarrow> wallet_error + SecretKey"

definition fidelity_bond :: "FidelityBond list \<Rightarrow> u32 \<Rightarrow> wallet_error + FidelityBond" where
  "fidelity_bond bonds index =
     ok_or (find (\<lambda>bond. fb_index bond = index) bonds) (WFidelity BondDoesNotExist)"

definition next_fidelity_index :: "FidelityBond list \<Rightarrow> u32" where
  "next_fidelity_index bonds =
     (case list_max (map (\<lambda>bond. (fb_index bond + 1) mod (u32_max + 1)) bonds) of
        Some n \<Rightarrow> n
      | None \<Rightarrow> 0)"

definition get_next_fidelity_address ::
  "bitcoin_lib \<Rightarrow> keyring \<Rightarrow> FidelityBond list \<Rightarrow> LockTime \<Rightarrow>
   wallet_error + (u32 \<times> ScriptBuf \<times> PublicKey)" where
  "get_next_fidelity_address lib keys bonds lock =
     (let next_index = next_fidelity_index bonds in
      res_bind (fidelity_key keys next_index) (\<lambda>secret.
      let fidelity_pubkey = pubkey_of lib secret in
      Inr (next_index, to_p2wsh lib (fidelity_redeemscript lib lock fidelity_pubkey),
           fidelity_pubkey)))"

definition generate_fidelity_proof ::
  "bitcoin_lib \<Rightarrow> keyring \<Rightarrow> FidelityBond list \<Rightarrow> u32 \<Rightarrow> string \<Rightarrow> wallet_error + FidelityProof" where
  "generate_fidelity_proof lib keys bonds index maker_addr =
     res_bind (fidelity_bond bonds index) (\<lambda>bond.
     if fb_is_spent bond then Inl (WFidelity BondAlreadyRedeemed)
     else
       res_bind (tweak_key keys) (\<lambda>(tweak, _).
       let cert_hash = generate_cert_hash lib bond maker_addr (pubkey_of lib tweak) in
       res_bind (fidelity_key keys index) (\<lambda>secret.
       Inr \<lparr>proof_bond = bond\<lparr>fb_tx := None\<rparr>, proof_cert_hash = cert_hash,
            proof_cert_sig = sign_ecdsa lib cert_hash secret\<rparr>)))"

end
