(* ===== verification/Announce.thy ===== *)
theory Announce
  imports Fidelity
begin

text \<open>
  Bond announcements (\<open>watch_tower/utils.rs\<close>, \<open>wallet/fidelity.rs\<close>): a maker writes its onion
  address and the expiry height of its bond into an OP_RETURN output; the watch tower reads
  it back and validates it, and a restored wallet rebuilds its bond records from it.
\<close>

section \<open>Onion addresses\<close>

definition base32_value :: "byte \<Rightarrow> byte option" where
  "base32_value b =
     (if 97 \<le> b \<and> b \<le> 122 then Some (b - 97)
      else if 50 \<le> b \<and> b \<le> 55 then Some (b - 50 + 26)
      else None)"

text \<open>
  The decoding loop: \<open>buffer\<close> holds the \<open>bits\<close> bits not yet written. The loop returns the bits
  left over and the bytes written.
\<close>

fun onion_decode :: "16 word \<Rightarrow> nat \<Rightarrow> bytes \<Rightarrow> bytes \<Rightarrow> (nat \<times> bytes) option" where
  "onion_decode buffer bits decoded [] = Some (bits, decoded)"
| "onion_decode buffer bits decoded (b # label) =
     (case base32_value b of
        None \<Rightarrow> None
      | Some v \<Rightarrow>
          let buffer = or (push_bit 5 buffer) (ucast v); bits = bits + 5 in
          if 8 \<le> bits then
            let bits = bits - 8 in
            onion_decode (and buffer (push_bit bits 1 - 1)) bits
              (decoded @ [ucast (drop_bit bits buffer)]) label
          else onion_decode buffer bits decoded label)"

definition is_valid_maker_address :: "bitcoin_lib \<Rightarrow> string \<Rightarrow> bool" where
  "is_valid_maker_address lib address =
     (case strip_suffix ''.onion'' address of
        None \<Rightarrow> False
      | Some label \<Rightarrow>
          if length label \<noteq> 56 then False
          else case onion_decode 0 0 [] (str_bytes label) of
                 None \<Rightarrow> False
               | Some (bits, decoded) \<Rightarrow>
                   if length decoded \<noteq> 35 \<or> bits \<noteq> 0 \<or> decoded ! 34 \<noteq> 3 then False
                   else slice 32 34 decoded =
                     take 2 (sha3_256 lib (str_bytes ''.onion checksum'' @ take 32 decoded @ [decoded ! 34])))"

definition normalize_onion_address :: "bitcoin_lib \<Rightarrow> string \<Rightarrow> string option" where
  "normalize_onion_address lib s =
     (if suffix ''.onion'' s then None
      else if is_valid_maker_address lib (s @ ''.onion'') then Some (s @ ''.onion'') else None)"

section \<open>Announcements\<close>

definition MAX_FIDELITY_ANNOUNCEMENT_BYTES :: nat where "MAX_FIDELITY_ANNOUNCEMENT_BYTES = 67"

record FidelityAnnouncement =
  onion :: string
  expires_at_height :: u32

definition extract_op_return_data :: "ScriptBuf \<Rightarrow> bytes option" where
  "extract_op_return_data script =
     (case script of
        op # len # data \<Rightarrow>
          if op \<noteq> 106 then None
          else if 1 \<le> unat len \<and> unat len \<le> MAX_FIDELITY_ANNOUNCEMENT_BYTES \<and>
                  length script = unat len + 2 then Some data
          else None
      | _ \<Rightarrow> None)"

definition encode_fidelity_op_return :: "string \<Rightarrow> LockTime \<Rightarrow> wallet_error + bytes" where
  "encode_fidelity_op_return onion_addr lock =
     (if is_height lock then
        let label = (case strip_suffix ''.onion'' onion_addr of Some l \<Rightarrow> l | None \<Rightarrow> onion_addr) in
        Inr (str_bytes (label @ ''#'' @ show_nat lock))
      else Inl (WGeneral ''fidelity locktime must be height-based''))"

definition parse_fidelity_op_return :: "bitcoin_lib \<Rightarrow> bytes \<Rightarrow> FidelityAnnouncement option" where
  "parse_fidelity_op_return lib data =
     Option.bind (from_utf8 data) (\<lambda>decoded.
     Option.bind (split_once CHR ''#'' decoded) (\<lambda>(endpoint, locktime_str).
     if locktime_str = [] \<or> \<not> list_all ascii_digit locktime_str \<or>
        (1 < length locktime_str \<and> hd locktime_str = CHR ''0'') then None
     else
       Option.bind (parse_num_u32 locktime_str) (\<lambda>height.
       Option.bind (normalize_onion_address lib endpoint) (\<lambda>addr.
       Some \<lparr>onion = addr, expires_at_height = height\<rparr>))))"

definition SEQUENCE_MAX :: u32 where "SEQUENCE_MAX = 4294967295"

definition process_fidelity :: "bitcoin_lib \<Rightarrow> Transaction \<Rightarrow> u64 \<Rightarrow> FidelityAnnouncement option" where
  "process_fidelity lib tx confirmation_height =
     (if u32_max < confirmation_height then None
      else if \<not> (is_height (lock_time tx) \<and> lock_time tx \<noteq> 0) then None
      else if tx_input tx = [] \<or> list_all (\<lambda>inp. sequence inp = SEQUENCE_MAX) (tx_input tx) \<or>
              \<not> (2 \<le> length (tx_output tx) \<and> length (tx_output tx) \<le> 3) then None
      else
        let bond = tx_output tx ! 0; announcement_output = tx_output tx ! 1 in
        if \<not> is_p2wsh lib (script_pubkey bond) \<or> value_of bond < MIN_FIDELITY_BOND_AMOUNT_SATS then None
        else if value_of announcement_output \<noteq> 0 then None
        else
          Option.bind (extract_op_return_data (script_pubkey announcement_output)) (\<lambda>data.
          Option.bind (parse_fidelity_op_return lib data) (\<lambda>announcement.
          Option.bind (checked_sub (expires_at_height announcement) confirmation_height) (\<lambda>relative.
          if MIN_FIDELITY_TIMELOCK \<le> relative \<and> relative \<le> MAX_FIDELITY_TIMELOCK
          then Some announcement else None))))"

section \<open>Rebuilding bond records\<close>

definition saturating_add32 :: "u32 \<Rightarrow> u32 \<Rightarrow> u32" where
  "saturating_add32 a b = min u32_max (a + b)"

record BondHint =
  hint_index :: u32
  hint_locktime :: LockTime

record RestoreOptions =
  address_gap :: u32
  bond_hints :: "BondHint list"
  bond_gap :: u32

definition find_bond ::
  "bitcoin_lib \<Rightarrow> keyring \<Rightarrow> u32 \<Rightarrow> LockTime list \<Rightarrow> Transaction list \<Rightarrow> wallet_error + FidelityBond option" where
  "find_bond lib keys index lock_times txs =
     res_bind (fidelity_key keys index) (\<lambda>secret.
     let pubkey = pubkey_of lib secret in
     Inr (find_map (\<lambda>lock.
       let script = to_p2wsh lib (fidelity_redeemscript lib lock pubkey) in
       find_map (\<lambda>tx.
         map_option (\<lambda>i. \<lparr>fb_outpoint = \<lparr>txid = compute_txid lib tx, vout = i\<rparr>,
           fb_amount = value_of (tx_output tx ! i), fb_lock_time = lock, fb_pubkey = pubkey,
           fb_conf_height = None, fb_is_spent = False, fb_index = index, fb_tx = Some tx\<rparr>)
           (position (\<lambda>out. script_pubkey out = script) (tx_output tx))) txs) lock_times))"

text \<open>The hints, each at its own index.\<close>

fun try_hints ::
  "bitcoin_lib \<Rightarrow> keyring \<Rightarrow> Transaction list \<Rightarrow> BondHint list \<Rightarrow> u32 list \<Rightarrow> FidelityBond list \<Rightarrow>
   wallet_error + (u32 list \<times> FidelityBond list)" where
  "try_hints lib keys txs [] taken bonds = Inr (taken, bonds)"
| "try_hints lib keys txs (hint # hints) taken bonds =
     (if hint_index hint \<in> set taken \<or> 2147483648 \<le> hint_index hint
      then try_hints lib keys txs hints taken bonds
      else
        res_bind (find_bond lib keys (hint_index hint) [hint_locktime hint] txs) (\<lambda>found.
        case found of
          Some bond \<Rightarrow> try_hints lib keys txs hints (hint_index hint # taken) (bonds @ [bond])
        | None \<Rightarrow> try_hints lib keys txs hints taken bonds))"

text \<open>The inner loop: \<open>probe index\<close> is \<open>find_bond\<close> at one index for the announced lock times.\<close>

function scan_window ::
  "(u32 \<Rightarrow> wallet_error + FidelityBond option) \<Rightarrow> u32 \<Rightarrow> u32 \<Rightarrow> u32 \<Rightarrow> u32 list \<Rightarrow> FidelityBond list \<Rightarrow>
   wallet_error + (u32 \<times> u32 list \<times> FidelityBond list)" where
  "scan_window probe gap index stop taken bonds =
     (if index < stop then
        if index \<in> set taken then scan_window probe gap (index + 1) stop taken bonds
        else
          case probe index of
            Inl e \<Rightarrow> Inl e
          | Inr (Some bond) \<Rightarrow>
              scan_window probe gap (index + 1)
                (max stop (saturating_add32 (saturating_add32 index 1) gap)) (index # taken)
                (bonds @ [bond])
          | Inr None \<Rightarrow> scan_window probe gap (index + 1) stop taken bonds
      else Inr (stop, taken, bonds))"
  by pat_completeness auto
termination
  by (relation "measure (\<lambda>(_, _, index, stop, _). max stop u32_max - index)")
    (auto simp: saturating_add32_def)

declare scan_window.simps [simp del]

fun scan_starts ::
  "(u32 \<Rightarrow> wallet_error + FidelityBond option) \<Rightarrow> u32 \<Rightarrow> u32 list \<Rightarrow> u32 \<Rightarrow> u32 list \<Rightarrow> FidelityBond list \<Rightarrow>
   wallet_error + FidelityBond list" where
  "scan_starts probe gap [] scanned_to taken bonds = Inr bonds"
| "scan_starts probe gap (start # starts) scanned_to taken bonds =
     res_bind (scan_window probe gap (max start scanned_to) (saturating_add32 start gap) taken bonds)
       (\<lambda>(stop, taken, bonds).
          scan_starts probe gap starts (max scanned_to stop) taken bonds)"

definition announced_locks :: "bitcoin_lib \<Rightarrow> Transaction list \<Rightarrow> LockTime list" where
  "announced_locks lib txs =
     List.map_filter (\<lambda>tx.
       Option.bind (if 1 < length (tx_output tx) then Some (tx_output tx ! 1) else None) (\<lambda>out.
       Option.bind (extract_op_return_data (script_pubkey out)) (\<lambda>data.
       Option.bind (parse_fidelity_op_return lib data) (\<lambda>announcement.
       if is_height (expires_at_height announcement) then Some (expires_at_height announcement)
       else None)))) txs"

definition find_bonds ::
  "bitcoin_lib \<Rightarrow> keyring \<Rightarrow> RestoreOptions option \<Rightarrow> FidelityBond list \<Rightarrow> Transaction list \<Rightarrow>
   wallet_error + FidelityBond list" where
  "find_bonds lib keys pending_restore stored txs =
     (case pending_restore of
        None \<Rightarrow> Inr []
      | Some options \<Rightarrow>
          res_bind (try_hints lib keys txs (bond_hints options) (remdups (map fb_index stored)) [])
            (\<lambda>(taken, bonds).
          let announced = announced_locks lib txs;
              starts = sort (0 # map (\<lambda>i. saturating_add32 i 1) taken) in
          res_bind (scan_starts (\<lambda>i. find_bond lib keys i announced txs) (bond_gap options) starts 0
                      taken bonds) (\<lambda>bonds.
          Inr (sort_key fb_index bonds))))"

end
