(* ===== verification/Registry.thy ===== *)
theory Registry
  imports Announce "HOL-Library.AList"
begin

text \<open>
  The memory of the watch tower (\<open>watch_tower/registry_storage.rs\<close> and the second half of
  \<open>watch_tower/utils.rs\<close>): the watched outpoints with the spend recorded for each, the bonds
  heard of, the relay cursors, and the bounded set of transaction ids already judged. A hash
  map is an association list with one entry per key, a hash set is a set. The lemmas give
  each operation's effect on the recorded spends, and show that the id cache implements a
  bounded first-in first-out set.
\<close>

section \<open>Data\<close>

datatype watcher_error = WE_Wallet wallet_error | WE_MutexPoison | WE_General string

record WatchRequest =
  w_outpoint :: OutPoint
  w_script_pubkey :: ScriptBuf
  in_block :: bool
  spent_tx :: "Transaction option"

record Fidelity =
  f_txid :: Txid
  onion_address :: string
  expire_height :: u32

record RegistryData =
  watches :: "(OutPoint \<times> WatchRequest) list"
  fidelity :: "Fidelity set"
  nostr_cursors :: "(string \<times> u64) list"

text \<open>The data behind its mutex: the lock fails once a holder has panicked.\<close>

record FileRegistry =
  reg_data :: RegistryData
  poisoned :: bool

type_synonym 'a reg_act = "(FileRegistry, watcher_error, 'a) act"

section \<open>Operations\<close>

definition empty_registry :: FileRegistry where
  "empty_registry = \<lparr>reg_data = \<lparr>watches = [], fidelity = {}, nostr_cursors = []\<rparr>, poisoned = False\<rparr>"

definition with_data :: "(RegistryData \<Rightarrow> 'a \<times> RegistryData) \<Rightarrow> 'a reg_act" where
  "with_data f r =
     (if poisoned r then (Inl WE_MutexPoison, r)
      else case f (reg_data r) of (x, d) \<Rightarrow> (Inr x, r\<lparr>reg_data := d\<rparr>))"

definition upsert_watch :: "WatchRequest \<Rightarrow> unit reg_act" where
  "upsert_watch req =
     with_data (\<lambda>d. ((), d\<lparr>watches := AList.update (w_outpoint req) req (watches d)\<rparr>))"

definition register_watch :: "OutPoint \<Rightarrow> ScriptBuf \<Rightarrow> unit reg_act" where
  "register_watch outpoint spk =
     with_data (\<lambda>d.
       let entry = (case map_of (watches d) outpoint of
           Some w \<Rightarrow> w
         | None \<Rightarrow> \<lparr>w_outpoint = outpoint, w_script_pubkey = spk, in_block = False, spent_tx = None\<rparr>)
       in ((), d\<lparr>watches := AList.update outpoint (entry\<lparr>w_script_pubkey := spk\<rparr>) (watches d)\<rparr>))"

definition remove_watch :: "OutPoint \<Rightarrow> unit reg_act" where
  "remove_watch outpoint = with_data (\<lambda>d. ((), d\<lparr>watches := AList.delete outpoint (watches d)\<rparr>))"

definition list_watches :: "WatchRequest list reg_act" where
  "list_watches = with_data (\<lambda>d. (map snd (watches d), d))"

definition list_fidelity :: "bitcoin_lib \<Rightarrow> u32 \<Rightarrow> Fidelity set reg_act" where
  "list_fidelity lib height =
     with_data (\<lambda>d.
       let kept = Set.filter (\<lambda>f. height < expire_height f \<and> is_valid_maker_address lib (onion_address f))
                    (fidelity d)
       in (kept, d\<lparr>fidelity := kept\<rparr>))"

definition insert_fidelity :: "bitcoin_lib \<Rightarrow> Txid \<Rightarrow> FidelityAnnouncement \<Rightarrow> bool reg_act" where
  "insert_fidelity lib tid announcement =
     (if \<not> is_valid_maker_address lib (onion announcement) then ret False
      else
        let f = \<lparr>f_txid = tid, onion_address = onion announcement,
                 expire_height = expires_at_height announcement\<rparr> in
        with_data (\<lambda>d. (f \<notin> fidelity d, d\<lparr>fidelity := insert f (fidelity d)\<rparr>)))"

definition remove_fidelity :: "Txid \<Rightarrow> unit reg_act" where
  "remove_fidelity tid = with_data (\<lambda>d. ((), d\<lparr>fidelity := Set.filter (\<lambda>f. f_txid f \<noteq> tid) (fidelity d)\<rparr>))"

definition load_nostr_cursor :: "string \<Rightarrow> u64 option reg_act" where
  "load_nostr_cursor relay_url = with_data (\<lambda>d. (map_of (nostr_cursors d) relay_url, d))"

definition save_nostr_cursor :: "string \<Rightarrow> u64 \<Rightarrow> unit reg_act" where
  "save_nostr_cursor relay_url created_at_secs =
     with_data (\<lambda>d.
       let prev = (case map_of (nostr_cursors d) relay_url of Some c \<Rightarrow> c | None \<Rightarrow> 0);
           entry = (if prev < created_at_secs then created_at_secs else prev)
       in ((), d\<lparr>nostr_cursors := AList.update relay_url entry (nostr_cursors d)\<rparr>))"

section \<open>Transactions and blocks\<close>

text \<open>One watch of the snapshot against one input: a mempool rival of a confirmed spend is skipped.\<close>

definition mark_spend :: "bitcoin_lib \<Rightarrow> Transaction \<Rightarrow> bool \<Rightarrow> OutPoint \<Rightarrow> WatchRequest \<Rightarrow> unit reg_act" where
  "mark_spend lib tx in_blk outpoint w =
     (if outpoint \<noteq> w_outpoint w then ret ()
      else if (case spent_tx w of
                 None \<Rightarrow> False
               | Some recorded \<Rightarrow>
                   compute_txid lib recorded \<noteq> compute_txid lib tx \<and> in_block w \<and> \<not> in_blk) then ret ()
      else upsert_watch (w\<lparr>spent_tx := Some tx, in_block := in_blk\<rparr>))"

definition process_transaction :: "bitcoin_lib \<Rightarrow> Transaction \<Rightarrow> bool \<Rightarrow> unit reg_act" where
  "process_transaction lib tx in_blk =
     bnd list_watches (\<lambda>watch_requests.
     for_each (tx_input tx) (\<lambda>inp.
     for_each watch_requests (mark_spend lib tx in_blk (previous_output inp))))"

text \<open>A block: the hash of its header and its transactions.\<close>

record Block =
  block_hash :: bytes
  txdata :: "Transaction list"

definition process_block :: "bitcoin_lib \<Rightarrow> bool \<Rightarrow> Block \<Rightarrow> u64 option \<Rightarrow> unit reg_act" where
  "process_block lib run_discovery block confirmation_height =
     seq (for_each (txdata block) (\<lambda>tx. process_transaction lib tx True))
     (if \<not> run_discovery then ret ()
      else
        bnd (liftR (ok_or confirmation_height
               (WE_General ''Connected block is missing its confirmation height''))) (\<lambda>height.
        for_each (txdata block) (\<lambda>tx.
          case process_fidelity lib tx height of
            None \<Rightarrow> ret ()
          | Some a \<Rightarrow> bnd (insert_fidelity lib (compute_txid lib tx) a) (\<lambda>_. ret ()))))"

section \<open>Transaction ids already judged\<close>

definition MAX_SEEN_TXIDS :: nat where "MAX_SEEN_TXIDS = 5000"

record SeenTxids =
  seen :: "Txid set"
  order :: "Txid list"
  in_flight :: "Txid set"

definition seen_new :: SeenTxids where
  "seen_new = \<lparr>seen = {}, order = [], in_flight = {}\<rparr>"

definition seen_claim :: "Txid \<Rightarrow> SeenTxids \<Rightarrow> bool \<times> SeenTxids" where
  "seen_claim t s =
     (if t \<in> seen s then (False, s)
      else (t \<notin> in_flight s, s\<lparr>in_flight := insert t (in_flight s)\<rparr>))"

definition seen_release :: "Txid \<Rightarrow> SeenTxids \<Rightarrow> SeenTxids" where
  "seen_release t s = s\<lparr>in_flight := in_flight s - {t}\<rparr>"

text \<open>\<open>pop_front\<close> and the removal from the set, \<open>n\<close> times.\<close>

fun evict :: "nat \<Rightarrow> SeenTxids \<Rightarrow> SeenTxids" where
  "evict 0 s = s"
| "evict (Suc n) s =
     evict n (case order s of [] \<Rightarrow> s | old # rest \<Rightarrow> s\<lparr>order := rest, seen := seen s - {old}\<rparr>)"

definition seen_insert :: "Txid \<Rightarrow> SeenTxids \<Rightarrow> bool \<times> SeenTxids" where
  "seen_insert t s =
     (let s = s\<lparr>in_flight := in_flight s - {t}\<rparr> in
      if t \<notin> seen s then
        let s = s\<lparr>seen := insert t (seen s), order := order s @ [t]\<rparr> in
        (True, if MAX_SEEN_TXIDS < length (order s) then evict 10 s else s)
      else (False, s))"

section \<open>The registry\<close>

text \<open>One entry per outpoint, under its own outpoint.\<close>

definition reg_ok :: "FileRegistry \<Rightarrow> bool" where
  "reg_ok r \<longleftrightarrow> distinct (map fst (watches (reg_data r))) \<and>
     (\<forall>(k, w) \<in> set (watches (reg_data r)). w_outpoint w = k)"

definition recorded :: "FileRegistry \<Rightarrow> OutPoint \<Rightarrow> WatchRequest option" where
  "recorded r = map_of (watches (reg_data r))"

text \<open>What seeing a transaction makes of one watch.\<close>

definition rival :: "bitcoin_lib \<Rightarrow> Transaction \<Rightarrow> bool \<Rightarrow> WatchRequest \<Rightarrow> bool" where
  "rival lib tx b w \<longleftrightarrow> in_block w \<and> \<not> b \<and>
     (\<exists>t. spent_tx w = Some t \<and> compute_txid lib t \<noteq> compute_txid lib tx)"

definition spend_seen :: "bitcoin_lib \<Rightarrow> Transaction \<Rightarrow> bool \<Rightarrow> WatchRequest \<Rightarrow> WatchRequest" where
  "spend_seen lib tx b w =
     (if w_outpoint w \<in> previous_output ` set (tx_input tx) \<and> \<not> rival lib tx b w
      then w\<lparr>spent_tx := Some tx, in_block := b\<rparr> else w)"

named_theorems reg_simps \<open>what the registry operations do to the recorded watches\<close>

lemma with_data_open [reg_simps]:
  "\<not> poisoned r \<Longrightarrow> with_data f r = (Inr (fst (f (reg_data r))), r\<lparr>reg_data := snd (f (reg_data r))\<rparr>)"
  by (simp add: with_data_def split: prod.splits)

lemma with_data_poisoned [reg_simps]: "poisoned r \<Longrightarrow> with_data f r = (Inl WE_MutexPoison, r)"
  by (simp add: with_data_def)

lemma alist_update_keyed:
  assumes "\<forall>(k, w) \<in> set xs. P k w" "P k0 w0"
  shows "\<forall>(k, w) \<in> set (AList.update k0 w0 xs). P k w"
  using assms by (induction xs) auto

lemma reg_ok_recorded: "reg_ok r \<Longrightarrow> recorded r p = Some w \<Longrightarrow> w_outpoint w = p"
  by (auto simp: reg_ok_def recorded_def dest!: map_of_SomeD)

lemma empty_registry_ok: "reg_ok empty_registry \<and> recorded empty_registry = Map.empty"
  by (simp add: reg_ok_def recorded_def empty_registry_def)

lemma upsert_watch_eff:
  assumes "\<not> poisoned r" "reg_ok r"
  obtains r' where "upsert_watch w r = (Inr (), r')" "\<not> poisoned r'" "reg_ok r'"
    "recorded r' = (recorded r)(w_outpoint w \<mapsto> w)" "fidelity (reg_data r') = fidelity (reg_data r)"
proof
  show "upsert_watch w r = (Inr (), r\<lparr>reg_data := (reg_data r)\<lparr>watches :=
          AList.update (w_outpoint w) w (watches (reg_data r))\<rparr>\<rparr>)"
    using assms(1) by (simp add: upsert_watch_def reg_simps)
  have "\<forall>(k, v) \<in> set (AList.update (w_outpoint w) w (watches (reg_data r))). w_outpoint v = k"
    using alist_update_keyed[of "watches (reg_data r)" "\<lambda>k v. w_outpoint v = k"] assms(2)
    by (simp add: reg_ok_def)
  then show "reg_ok (r\<lparr>reg_data := (reg_data r)\<lparr>watches :=
          AList.update (w_outpoint w) w (watches (reg_data r))\<rparr>\<rparr>)"
    using assms(2) by (simp add: reg_ok_def distinct_update)
qed (use assms in \<open>simp_all add: recorded_def update_conv'\<close>)

definition seen_at :: "FileRegistry \<Rightarrow> FileRegistry \<Rightarrow> (OutPoint \<Rightarrow> WatchRequest option) \<Rightarrow> bool" where
  "seen_at r0 r m \<longleftrightarrow> \<not> poisoned r \<and> reg_ok r \<and> recorded r = m \<and>
     fidelity (reg_data r) = fidelity (reg_data r0)"

definition mark :: "bitcoin_lib \<Rightarrow> Transaction \<Rightarrow> bool \<Rightarrow> OutPoint \<Rightarrow> WatchRequest \<Rightarrow>
    (OutPoint \<Rightarrow> WatchRequest option) \<Rightarrow> (OutPoint \<Rightarrow> WatchRequest option)" where
  "mark lib tx b p w m =
     (if p = w_outpoint w \<and> \<not> rival lib tx b w then m(p \<mapsto> w\<lparr>spent_tx := Some tx, in_block := b\<rparr>) else m)"

lemma mark_spend_eff:
  assumes "seen_at r0 r m"
  shows "\<exists>r'. mark_spend lib tx b p w r = (Inr (), r') \<and> seen_at r0 r' (mark lib tx b p w m)"
proof (cases "p = w_outpoint w \<and> \<not> rival lib tx b w")
  case True
  then have "mark_spend lib tx b p w = upsert_watch (w\<lparr>spent_tx := Some tx, in_block := b\<rparr>)"
    by (auto simp: mark_spend_def rival_def split: option.splits)
  moreover obtain r' where "upsert_watch (w\<lparr>spent_tx := Some tx, in_block := b\<rparr>) r = (Inr (), r')"
    "\<not> poisoned r'" "reg_ok r'" "fidelity (reg_data r') = fidelity (reg_data r)"
    "recorded r' = (recorded r)(w_outpoint w \<mapsto> w\<lparr>spent_tx := Some tx, in_block := b\<rparr>)"
    by (rule upsert_watch_eff[of r "w\<lparr>spent_tx := Some tx, in_block := b\<rparr>"])
      (use assms in \<open>simp_all add: seen_at_def\<close>)
  ultimately show ?thesis using True assms by (auto simp: seen_at_def mark_def)
next
  case False
  then have "mark_spend lib tx b p w = ret ()"
    by (auto simp: mark_spend_def rival_def split: option.splits)
  moreover have "mark lib tx b p w m = m" using False by (auto simp: mark_def)
  ultimately show ?thesis using assms by (simp add: ret_def)
qed

lemma for_each_eff:
  assumes "\<And>x r m. x \<in> set xs \<Longrightarrow> I r m \<Longrightarrow> \<exists>r'. f x r = (Inr (), r') \<and> I r' (g x m)" "I r m"
  shows "\<exists>r'. for_each xs f r = (Inr (), r') \<and> I r' (fold g xs m)"
  using assms
proof (induction xs arbitrary: r m)
  case (Cons x xs)
  then obtain r' where r': "f x r = (Inr (), r')" "I r' (g x m)" by (meson list.set_intros(1))
  then obtain r'' where "for_each xs f r' = (Inr (), r'')" "I r'' (fold g xs (g x m))"
    using Cons.IH[of r' "g x m"] Cons.prems(1) by (meson list.set_intros(2))
  then show ?case using r' by (simp add: seq_def bnd_def)
qed (simp add: ret_def)

lemma mark_snapshot:
  assumes "distinct (map fst xs)" "\<forall>(k, w) \<in> set xs. w_outpoint w = k"
  shows "fold (mark lib tx b p) (map snd xs) m =
     (case map_of xs p of
        Some w \<Rightarrow> if rival lib tx b w then m else m(p \<mapsto> w\<lparr>spent_tx := Some tx, in_block := b\<rparr>)
      | None \<Rightarrow> m)"
  using assms
proof (induction xs arbitrary: m)
  case (Cons x xs)
  obtain k w where x: "x = (k, w)" "w_outpoint w = k" using Cons.prems(2) by (cases x) auto
  have ih: "fold (mark lib tx b p) (map snd xs) m =
     (case map_of xs p of
        Some w \<Rightarrow> if rival lib tx b w then m else m(p \<mapsto> w\<lparr>spent_tx := Some tx, in_block := b\<rparr>)
      | None \<Rightarrow> m)" for m using Cons by auto
  have step: "fold (mark lib tx b p) (map snd (x # xs)) m =
      fold (mark lib tx b p) (map snd xs) (mark lib tx b p w m)" by (simp add: x(1))
  show ?case
  proof (cases "p = k")
    case True
    then have "map_of xs p = None" using Cons.prems(1) x by (auto simp: map_of_eq_None_iff)
    then show ?thesis unfolding step ih using True x by (auto simp: mark_def fun_eq_iff)
  next
    case False
    then have m: "mark lib tx b p w m = m" using x by (simp add: mark_def)
    show ?thesis unfolding step m ih using x False by simp
  qed
qed simp

lemma mark_inputs:
  assumes "\<And>p w. snap p = Some w \<Longrightarrow> w_outpoint w = p"
  shows "fold (\<lambda>i m. case snap (previous_output i) of
        Some w \<Rightarrow> if rival lib tx b w then m
          else m(previous_output i \<mapsto> w\<lparr>spent_tx := Some tx, in_block := b\<rparr>)
      | None \<Rightarrow> m) ins m p =
     (case snap p of
        Some w \<Rightarrow> if p \<in> previous_output ` set ins \<and> \<not> rival lib tx b w
                   then Some (w\<lparr>spent_tx := Some tx, in_block := b\<rparr>) else m p
      | None \<Rightarrow> m p)"
  by (induction ins arbitrary: m) (auto split: option.splits)

lemma process_transaction_eff:
  assumes "reg_ok r" "\<not> poisoned r"
  shows "\<exists>r'. process_transaction lib tx b r = (Inr (), r') \<and>
    seen_at r r' (\<lambda>p. map_option (spend_seen lib tx b) (recorded r p))"
proof -
  let ?ws = "map snd (watches (reg_data r))"
  let ?g = "\<lambda>i. fold (mark lib tx b (previous_output i)) ?ws"
  have lw: "list_watches r = (Inr ?ws, r)" using assms(2) by (simp add: list_watches_def reg_simps)
  have inner: "\<exists>r'. for_each ?ws (mark_spend lib tx b p) q = (Inr (), r') \<and>
      seen_at r r' (fold (mark lib tx b p) ?ws m)" if "seen_at r q m" for p q m
    by (rule for_each_eff[where I = "seen_at r", OF mark_spend_eff that])
  have "seen_at r r (recorded r)" using assms by (simp add: seen_at_def)
  then obtain r' where r': "for_each (tx_input tx)
      (\<lambda>inp. for_each ?ws (mark_spend lib tx b (previous_output inp))) r = (Inr (), r')"
    "seen_at r r' (fold ?g (tx_input tx) (recorded r))"
    using for_each_eff[where I = "seen_at r" and g = ?g and xs = "tx_input tx" and
      f = "\<lambda>inp. for_each ?ws (mark_spend lib tx b (previous_output inp))", OF inner] by blast
  have key: "recorded r p = Some w \<Longrightarrow> w_outpoint w = p" for p w
    using reg_ok_recorded[OF assms(1)] .
  have g: "?g = (\<lambda>i m. case recorded r (previous_output i) of
        Some w \<Rightarrow> if rival lib tx b w then m
          else m(previous_output i \<mapsto> w\<lparr>spent_tx := Some tx, in_block := b\<rparr>)
      | None \<Rightarrow> m)"
    using assms(1) by (auto simp: reg_ok_def recorded_def mark_snapshot fun_eq_iff)
  have "fold ?g (tx_input tx) (recorded r) p = map_option (spend_seen lib tx b) (recorded r p)" for p
    unfolding g by (subst mark_inputs[OF key]) (auto simp: spend_seen_def split: option.splits dest: key)
  then have "fold ?g (tx_input tx) (recorded r) = (\<lambda>p. map_option (spend_seen lib tx b) (recorded r p))" ..
  then show ?thesis using r' lw by (simp add: process_transaction_def bnd_def)
qed

section \<open>The id cache\<close>

text \<open>The cache is a queue without repetition of at most \<open>MAX_SEEN_TXIDS\<close> ids; \<open>seen\<close> is its set of ids.\<close>

definition seen_wf :: "SeenTxids \<Rightarrow> bool" where
  "seen_wf s \<longleftrightarrow> distinct (order s) \<and> seen s = set (order s) \<and> length (order s) \<le> MAX_SEEN_TXIDS \<and>
     seen s \<inter> in_flight s = {}"

text \<open>The specification: a bounded queue and a set of claims.\<close>

definition fifo_push :: "Txid \<Rightarrow> Txid list \<Rightarrow> Txid list" where
  "fifo_push t q =
     (if t \<in> set q then q
      else if MAX_SEEN_TXIDS \<le> length q then drop 10 (q @ [t]) else q @ [t])"

datatype seen_op = Claim Txid | Release Txid | Insert Txid

fun seen_step :: "seen_op \<Rightarrow> SeenTxids \<Rightarrow> bool \<times> SeenTxids" where
  "seen_step (Claim t) s = seen_claim t s"
| "seen_step (Release t) s = (True, seen_release t s)"
| "seen_step (Insert t) s = seen_insert t s"

fun spec_step :: "seen_op \<Rightarrow> Txid list \<times> Txid set \<Rightarrow> bool \<times> (Txid list \<times> Txid set)" where
  "spec_step (Claim t) (q, c) =
     (if t \<in> set q \<union> c then (False, (q, c)) else (True, (q, insert t c)))"
| "spec_step (Release t) (q, c) = (True, (q, c - {t}))"
| "spec_step (Insert t) (q, c) = (t \<notin> set q, (fifo_push t q, c - {t}))"

definition seen_abs :: "SeenTxids \<Rightarrow> Txid list \<times> Txid set" where
  "seen_abs s = (order s, in_flight s)"

lemma evict_order:
  assumes "distinct (order s)" "seen s = set (order s)"
  shows "evict n s = s\<lparr>order := drop n (order s), seen := set (drop n (order s))\<rparr>"
  using assms
proof (induction n s rule: evict.induct)
  case (2 n s)
  then show ?case by (cases "order s") auto
qed simp

lemma seen_insert_eff:
  assumes "seen_wf s"
  shows "seen_insert t s = (t \<notin> set (order s),
    s\<lparr>order := fifo_push t (order s), seen := set (fifo_push t (order s)), in_flight := in_flight s - {t}\<rparr>)"
  using assms by (auto simp: seen_insert_def Let_def evict_order seen_wf_def fifo_push_def MAX_SEEN_TXIDS_def)

lemma fifo_push_wf:
  assumes "distinct q" "length q \<le> MAX_SEEN_TXIDS"
  shows "distinct (fifo_push t q) \<and> length (fifo_push t q) \<le> MAX_SEEN_TXIDS \<and>
    set (fifo_push t q) \<subseteq> insert t (set q)"
proof -
  have d: "distinct (drop 10 (q @ [t]))" if "t \<notin> set q" using assms(1) that distinct_drop[of "q @ [t]" 10] by simp
  have s: "set (drop 10 (q @ [t])) \<subseteq> insert t (set q)" using set_drop_subset[of 10 "q @ [t]"] by auto
  show ?thesis using assms d s by (auto simp: fifo_push_def MAX_SEEN_TXIDS_def simp del: drop_append)
qed

lemma seen_step_refines:
  assumes "seen_wf s"
  shows "seen_wf (snd (seen_step op s)) \<and>
    (fst (seen_step op s), seen_abs (snd (seen_step op s))) = spec_step op (seen_abs s)"
proof (cases op)
  case (Insert t)
  have "distinct (order s)" "length (order s) \<le> MAX_SEEN_TXIDS" using assms by (simp_all add: seen_wf_def)
  from fifo_push_wf[OF this, of t] show ?thesis
    using assms by (auto simp: Insert seen_insert_eff[OF assms] seen_wf_def seen_abs_def)
qed (use assms in \<open>auto simp: seen_claim_def seen_release_def seen_wf_def seen_abs_def\<close>)

fun run_ops :: "(seen_op \<Rightarrow> 's \<Rightarrow> bool \<times> 's) \<Rightarrow> seen_op list \<Rightarrow> 's \<Rightarrow> bool list \<times> 's" where
  "run_ops f [] s = ([], s)"
| "run_ops f (x # xs) s =
     (case f x s of (b, s') \<Rightarrow> case run_ops f xs s' of (bs, s'') \<Rightarrow> (b # bs, s''))"

lemma run_ops_refines:
  "seen_wf s \<Longrightarrow> seen_wf (snd (run_ops seen_step ops s)) \<and>
     map_prod id seen_abs (run_ops seen_step ops s) = run_ops spec_step ops (seen_abs s)"
proof (induction ops arbitrary: s)
  case (Cons x xs)
  obtain b s' where st: "seen_step x s = (b, s')" by force
  have "seen_wf s'" "spec_step x (seen_abs s) = (b, seen_abs s')"
    using seen_step_refines[OF Cons.prems, of x] st by simp_all
  then show ?case using Cons.IH[of s'] st by (auto simp: map_prod_def split: prod.splits)
qed simp

text \<open>How long an id is remembered: it has at most as many ids behind it as were pushed since.\<close>

definition behind :: "Txid \<Rightarrow> nat \<Rightarrow> Txid list \<Rightarrow> bool" where
  "behind t n q \<longleftrightarrow> (\<exists>xs ys. q = xs @ t # ys \<and> length ys \<le> n)"

lemma behind_push_self: "length q \<le> MAX_SEEN_TXIDS \<Longrightarrow> t \<notin> set q \<Longrightarrow> behind t 0 (fifo_push t q)"
  by (auto simp: fifo_push_def behind_def MAX_SEEN_TXIDS_def)

lemma behind_push:
  assumes "behind t n q" "length q \<le> MAX_SEEN_TXIDS" "Suc n < MAX_SEEN_TXIDS - 9"
  shows "behind t (Suc n) (fifo_push t' q)"
proof -
  obtain xs ys where q: "q = xs @ t # ys" "length ys \<le> n" using assms(1) by (auto simp: behind_def)
  show ?thesis
  proof (cases "t' \<in> set q \<or> length q < MAX_SEEN_TXIDS")
    case True
    then show ?thesis using q by (fastforce simp: fifo_push_def behind_def)
  next
    case False
    then have l: "10 \<le> length xs" using assms(2,3) q by (simp add: MAX_SEEN_TXIDS_def)
    then have "fifo_push t' q = drop 10 xs @ t # (ys @ [t'])" using False q by (simp add: fifo_push_def)
    then show ?thesis using q(2) unfolding behind_def by (intro exI[of _ "drop 10 xs"] exI[of _ "ys @ [t']"]) simp
  qed
qed

lemma remembered_run:
  assumes "behind t n (fst s)" "length (fst s) \<le> MAX_SEEN_TXIDS" "distinct (fst s)"
    "n + length ops < MAX_SEEN_TXIDS - 9"
  shows "t \<in> set (fst (snd (run_ops spec_step ops s)))"
  using assms
proof (induction ops arbitrary: s n)
  case Nil
  then show ?case by (auto simp: behind_def)
next
  case (Cons x xs)
  obtain q c where s: "s = (q, c)" by force
  obtain b q' c' where st: "spec_step x s = (b, (q', c'))" by (metis prod.exhaust)
  have "behind t (Suc n) q' \<and> length q' \<le> MAX_SEEN_TXIDS \<and> distinct q'"
  proof (cases "q' = q")
    case True
    then show ?thesis using Cons.prems s by (fastforce simp: behind_def)
  next
    case False
    then obtain t' where "q' = fifo_push t' q" using st s by (cases x) (auto split: if_splits)
    then show ?thesis using behind_push[of t n q t'] fifo_push_wf[of q t'] Cons.prems s by auto
  qed
  then show ?case using Cons.IH[of "Suc n" "(q', c')"] Cons.prems st by (auto split: prod.splits)
qed

section \<open>Properties\<close>

text \<open>
  C26 Seeing a transaction changes exactly the watches of the outpoints it spends: each such
  watch then records the transaction with its confirmation state, except that a spend on
  record as confirmed is not replaced by a different transaction seen only in the mempool.
  Watches are neither lost nor added, and an outpoint spent by two inputs or listed in any
  order gives the same result.
\<close>

theorem spends_recorded_exact:
  assumes "reg_ok r" "\<not> poisoned r"
  shows "\<exists>r'. process_transaction lib tx b r = (Inr (), r') \<and> reg_ok r' \<and>
    (\<forall>p. recorded r' p =
      (case recorded r p of
         None \<Rightarrow> None
       | Some w \<Rightarrow>
           Some (if p \<in> previous_output ` set (tx_input tx) \<and>
                   (\<forall>t. in_block w \<and> \<not> b \<and> spent_tx w = Some t \<longrightarrow> compute_txid lib t = compute_txid lib tx)
                 then w\<lparr>spent_tx := Some tx, in_block := b\<rparr> else w)))"
proof -
  obtain r' where r': "process_transaction lib tx b r = (Inr (), r')"
    "seen_at r r' (\<lambda>p. map_option (spend_seen lib tx b) (recorded r p))"
    using process_transaction_eff[OF assms] by blast
  have "recorded r' p = (case recorded r p of
         None \<Rightarrow> None
       | Some w \<Rightarrow>
           Some (if p \<in> previous_output ` set (tx_input tx) \<and>
                   (\<forall>t. in_block w \<and> \<not> b \<and> spent_tx w = Some t \<longrightarrow> compute_txid lib t = compute_txid lib tx)
                 then w\<lparr>spent_tx := Some tx, in_block := b\<rparr> else w))" for p
  proof (cases "recorded r p")
    case (Some w)
    then show ?thesis using r'(2) reg_ok_recorded[OF assms(1) Some]
      by (auto simp: seen_at_def spend_seen_def rival_def)
  qed (use r' in \<open>simp add: seen_at_def\<close>)
  then show ?thesis using r' by (auto simp: seen_at_def)
qed

definition demo_tx :: "OutPoint \<Rightarrow> nat \<Rightarrow> Transaction" where
  "demo_tx p n = \<lparr>version = 2, lock_time = n,
     tx_input = [\<lparr>previous_output = p, script_sig = [], sequence = 0, witness = []\<rparr>], tx_output = []\<rparr>"

definition demo_registry :: "WatchRequest \<Rightarrow> FileRegistry" where
  "demo_registry w = \<lparr>reg_data = \<lparr>watches = [(w_outpoint w, w)], fidelity = {}, nostr_cursors = []\<rparr>, poisoned = False\<rparr>"

lemma demo_registry_ok: "reg_ok (demo_registry w) \<and> \<not> poisoned (demo_registry w) \<and>
    recorded (demo_registry w) = Map.empty(w_outpoint w \<mapsto> w)"
  by (simp add: reg_ok_def recorded_def demo_registry_def)

theorem spends_recorded_exact_witness:
  "\<exists>r' w'. process_transaction ref_lib (demo_tx \<lparr>txid = 7, vout = 0\<rparr> 1) True
      (demo_registry \<lparr>w_outpoint = \<lparr>txid = 7, vout = 0\<rparr>, w_script_pubkey = [], in_block = False, spent_tx = None\<rparr>) =
      (Inr (), r') \<and> recorded r' \<lparr>txid = 7, vout = 0\<rparr> = Some w' \<and>
     spent_tx w' = Some (demo_tx \<lparr>txid = 7, vout = 0\<rparr> 1) \<and> in_block w'"
proof -
  let ?w = "\<lparr>w_outpoint = \<lparr>txid = 7, vout = 0\<rparr>, w_script_pubkey = [], in_block = False, spent_tx = None\<rparr>"
  have ok: "reg_ok (demo_registry ?w)" "\<not> poisoned (demo_registry ?w)"
    "recorded (demo_registry ?w) \<lparr>txid = 7, vout = 0\<rparr> = Some ?w"
    using demo_registry_ok[of ?w] by simp_all
  from spends_recorded_exact[OF ok(1,2), of ref_lib "demo_tx \<lparr>txid = 7, vout = 0\<rparr> 1" True] obtain r'
    where "process_transaction ref_lib (demo_tx \<lparr>txid = 7, vout = 0\<rparr> 1) True (demo_registry ?w) = (Inr (), r')"
      "recorded r' \<lparr>txid = 7, vout = 0\<rparr> = Some (?w\<lparr>spent_tx := Some (demo_tx \<lparr>txid = 7, vout = 0\<rparr> 1), in_block := True\<rparr>)"
    using ok(3) by (auto simp: demo_tx_def)
  then show ?thesis by auto
qed

lemma run_ops_append:
  "run_ops f (xs @ ys) s = (case run_ops f xs s of (bs, s') \<Rightarrow> case run_ops f ys s' of (cs, s'') \<Rightarrow> (bs @ cs, s''))"
  by (induction xs arbitrary: s) (auto split: prod.splits)

lemma seen_new_wf: "seen_wf seen_new \<and> seen_abs seen_new = ([], {})"
  by (simp add: seen_wf_def seen_new_def seen_abs_def)

text \<open>
  C32 The cache of judged transaction ids implements a bounded queue with a set of claims: for
  every sequence of claims, releases and insertions it returns the same answers as the
  specification and stands for the same queue and claims; it holds each id once, at most
  5000 of them, none of them claimed. An id newly inserted is remembered through at least
  the next 4990 operations.
\<close>

theorem seen_cache_refines:
  "map_prod id seen_abs (run_ops seen_step ops seen_new) = run_ops spec_step ops ([], {}) \<and>
   seen_wf (snd (run_ops seen_step ops seen_new)) \<and>
   (t \<in> seen (snd (run_ops seen_step ops seen_new)) \<or>
    t \<in> seen (snd (run_ops seen_step (ops @ Insert t # later) seen_new)) \<or>
    4990 < length later)"
proof -
  have wf: "seen_wf (snd (run_ops seen_step xs seen_new))"
    and abs: "map_prod id seen_abs (run_ops seen_step xs seen_new) = run_ops spec_step xs ([], {})" for xs
    using run_ops_refines[of seen_new xs] seen_new_wf by simp_all
  have seen: "seen (snd (run_ops seen_step xs seen_new)) = set (fst (snd (run_ops spec_step xs ([], {}))))" for xs
    using wf[of xs] unfolding abs[symmetric] by (simp add: seen_wf_def seen_abs_def)
  have wq: "distinct (fst (snd (run_ops spec_step xs ([], {})))) \<and>
      length (fst (snd (run_ops spec_step xs ([], {})))) \<le> MAX_SEEN_TXIDS" for xs
    using wf[of xs] unfolding abs[symmetric] by (simp add: seen_wf_def seen_abs_def)
  obtain bs q c where r: "run_ops spec_step ops ([], {}) = (bs, (q, c))" by (metis prod.exhaust)
  have "t \<in> set (fst (snd (run_ops spec_step (ops @ Insert t # later) ([], {}))))"
    if "t \<notin> set q" "length later \<le> 4990"
  proof -
    have "distinct q" "length q \<le> MAX_SEEN_TXIDS" using wq[of ops] r by simp_all
    then have "t \<in> set (fst (snd (run_ops spec_step later (fifo_push t q, c - {t}))))"
      using remembered_run[of t 0 "(fifo_push t q, c - {t})" later] behind_push_self[of q t]
        fifo_push_wf[of q t] that by (simp add: MAX_SEEN_TXIDS_def)
    then show ?thesis using r by (simp add: run_ops_append case_prod_beta)
  qed
  then show ?thesis using wf abs seen r by (metis fst_conv not_le snd_conv)
qed

end
