(* ===== verification/CoreRpc.thy ===== *)
theory CoreRpc
  imports Registry
begin

text \<open>
  The Bitcoin Core backend (\<open>wallet/blockchain/corerpc.rs\<close>): the queries the watch tower makes of
  the node, and the notification socket with its loss detection. The node and the ZeroMQ
  library are parameters: the answer to a call is a function of the moment it is made, so two
  calls may see different chains. The lemmas show that a break in a topic's numbering is
  always reported, and what the spend searches return.
\<close>

section \<open>The node\<close>

datatype rpc_error = RpcCode int string | RpcFailure string

record TxInfo =
  ti_blockhash :: "bytes option"
  ti_confirmations :: "u32 option"

record TxOutInfo =
  to_confirmations :: u32
  to_value :: Amount

text \<open>The RPC calls, each with the moment of the call first.\<close>

record core_rpc =
  rpc_raw_transaction_info :: "nat \<Rightarrow> Txid \<Rightarrow> rpc_error + TxInfo"
  rpc_raw_transaction :: "nat \<Rightarrow> Txid \<Rightarrow> rpc_error + Transaction"
  rpc_block_header_info :: "nat \<Rightarrow> bytes \<Rightarrow> rpc_error + nat"
  rpc_block_count :: "nat \<Rightarrow> rpc_error + u64"
  rpc_block_hash :: "nat \<Rightarrow> u64 \<Rightarrow> rpc_error + bytes"
  rpc_block :: "nat \<Rightarrow> bytes \<Rightarrow> rpc_error + Block"
  rpc_tx_out :: "nat \<Rightarrow> Txid \<Rightarrow> u32 \<Rightarrow> bool option \<Rightarrow> rpc_error + TxOutInfo option"
  rpc_mempool_entry :: "nat \<Rightarrow> Txid \<Rightarrow> rpc_error + unit"
  rpc_spending_prevout :: "nat \<Rightarrow> OutPoint \<Rightarrow> rpc_error + Txid option list"
  rpc_raw_mempool :: "nat \<Rightarrow> rpc_error + Txid list"
  rpc_txindex_synced :: "nat \<Rightarrow> rpc_error + bool option"

fun rpc_err :: "rpc_error \<Rightarrow> wallet_error" where
  "rpc_err (RpcCode c m) = WBackend m"
| "rpc_err (RpcFailure m) = WBackend m"

type_synonym 'a query = "(nat, wallet_error, 'a) act"

definition ask :: "(nat \<Rightarrow> rpc_error + 'a) \<Rightarrow> 'a query" where
  "ask f t = (map_err rpc_err (f t), Suc t)"

definition ask_raw :: "(nat \<Rightarrow> rpc_error + 'a) \<Rightarrow> (rpc_error + 'a) query" where
  "ask_raw f t = (Inr (f t), Suc t)"

text \<open>Error code -5 is the node's answer for an unknown transaction.\<close>

fun is_unknown :: "rpc_error \<Rightarrow> bool" where
  "is_unknown (RpcCode c m) = (c = - 5)"
| "is_unknown (RpcFailure m) = False"

section \<open>Queries\<close>

definition get_block_count :: "core_rpc \<Rightarrow> u64 query" where
  "get_block_count core = ask (rpc_block_count core)"

definition block_height :: "core_rpc \<Rightarrow> bytes \<Rightarrow> u64 query" where
  "block_height core h = ask (\<lambda>t. rpc_block_header_info core t h)"

definition get_tx_out :: "core_rpc \<Rightarrow> Txid \<Rightarrow> u32 \<Rightarrow> bool option \<Rightarrow> TxOutInfo option query" where
  "get_tx_out core id_tx n include_mempool = ask (\<lambda>t. rpc_tx_out core t id_tx n include_mempool)"

definition get_raw_transaction :: "core_rpc \<Rightarrow> Txid \<Rightarrow> Transaction query" where
  "get_raw_transaction core id_tx = ask (\<lambda>t. rpc_raw_transaction core t id_tx)"

definition get_raw_mempool :: "core_rpc \<Rightarrow> Txid list query" where
  "get_raw_mempool core = ask (rpc_raw_mempool core)"

definition tx_confirmations :: "core_rpc \<Rightarrow> Txid \<Rightarrow> u32 option query" where
  "tx_confirmations core id_tx =
     bnd (ask_raw (\<lambda>t. rpc_raw_transaction_info core t id_tx)) (\<lambda>r. case r of
       Inr info \<Rightarrow> ret (Some (case ti_confirmations info of Some c \<Rightarrow> c | None \<Rightarrow> 0))
     | Inl e \<Rightarrow> if is_unknown e then ret None else fail (rpc_err e))"

definition txindex_synced :: "core_rpc \<Rightarrow> bool query" where
  "txindex_synced core = bnd (ask (rpc_txindex_synced core)) (\<lambda>b. ret (case b of Some x \<Rightarrow> x | None \<Rightarrow> False))"

definition block_at_height :: "core_rpc \<Rightarrow> u64 \<Rightarrow> Block query" where
  "block_at_height core height =
     bnd (ask (\<lambda>t. rpc_block_hash core t height)) (\<lambda>h. ask (\<lambda>t. rpc_block core t h))"

definition tx_block_height :: "core_rpc \<Rightarrow> Txid \<Rightarrow> u64 option query" where
  "tx_block_height core id_tx =
     bnd (ask_raw (\<lambda>t. rpc_raw_transaction_info core t id_tx)) (\<lambda>r. case r of
       Inl e \<Rightarrow> if is_unknown e then ret None else fail (rpc_err e)
     | Inr info \<Rightarrow> (case ti_blockhash info of
           Some h \<Rightarrow> bnd (ask (\<lambda>t. rpc_block_header_info core t h)) (\<lambda>n. ret (Some n))
         | None \<Rightarrow> ret None))"

definition is_confirmed_spend :: "core_rpc \<Rightarrow> OutPoint \<Rightarrow> bool query" where
  "is_confirmed_spend core outpoint =
     bnd (tx_block_height core (txid outpoint)) (\<lambda>height.
     if height = None then ret False
     else bnd (get_tx_out core (txid outpoint) (vout outpoint) (Some False)) (\<lambda>unspent.
       ret (unspent = None)))"

definition is_tx_unknown :: "core_rpc \<Rightarrow> Txid \<Rightarrow> bool query" where
  "is_tx_unknown core id_tx =
     bnd (ask_raw (\<lambda>t. rpc_raw_transaction_info core t id_tx)) (\<lambda>r. case r of
       Inl e \<Rightarrow> if is_unknown e then ret True else fail (rpc_err e)
     | Inr info \<Rightarrow>
         if ti_blockhash info \<noteq> None then ret False
         else bnd (ask_raw (\<lambda>t. rpc_mempool_entry core t id_tx)) (\<lambda>m. case m of
           Inr _ \<Rightarrow> ret False
         | Inl e \<Rightarrow> if is_unknown e then ret True else fail (rpc_err e)))"

definition mempool_spending_transaction :: "core_rpc \<Rightarrow> OutPoint \<Rightarrow> Transaction option query" where
  "mempool_spending_transaction core outpoint =
     bnd (ask (\<lambda>t. rpc_spending_prevout core t outpoint)) (\<lambda>spends.
     case spends of
       Some id_tx # _ \<Rightarrow> bnd (get_raw_transaction core id_tx) (\<lambda>tx. ret (Some tx))
     | _ \<Rightarrow> ret None)"

definition spends_outpoint :: "OutPoint \<Rightarrow> Transaction \<Rightarrow> bool" where
  "spends_outpoint outpoint tx = list_ex (\<lambda>inp. previous_output inp = outpoint) (tx_input tx)"

fun scan_for_spend :: "core_rpc \<Rightarrow> OutPoint \<Rightarrow> u64 list \<Rightarrow> Transaction option query" where
  "scan_for_spend core outpoint [] = ret None"
| "scan_for_spend core outpoint (h # hs) =
     bnd (block_at_height core h) (\<lambda>block.
     case find (spends_outpoint outpoint) (txdata block) of
       Some tx \<Rightarrow> ret (Some tx)
     | None \<Rightarrow> scan_for_spend core outpoint hs)"

definition mined_spending_transaction :: "core_rpc \<Rightarrow> OutPoint \<Rightarrow> Transaction option query" where
  "mined_spending_transaction core outpoint =
     bnd (get_tx_out core (txid outpoint) (vout outpoint) (Some True)) (\<lambda>unspent.
     if unspent \<noteq> None then ret None
     else bnd (tx_block_height core (txid outpoint)) (\<lambda>start. case start of
         None \<Rightarrow> ret None
       | Some start \<Rightarrow>
           bnd (get_block_count core) (\<lambda>count. scan_for_spend core outpoint [start..<Suc count])))"

definition spending_transaction :: "core_rpc \<Rightarrow> OutPoint \<Rightarrow> Transaction option query" where
  "spending_transaction core outpoint =
     bnd (mempool_spending_transaction core outpoint) (\<lambda>r. case r of
       Some tx \<Rightarrow> ret (Some tx)
     | None \<Rightarrow> mined_spending_transaction core outpoint)"

section \<open>Notifications\<close>

record BlockRef =
  br_height :: u64
  br_hash :: bytes

datatype WatchEvent =
    TxSeen bytes
  | BlockConnected BlockRef
  | Unreachable
  | Missed
  | Unfetched ScriptBuf

record ZmqState =
  socket :: bool
  last_sequence :: "(string \<times> u32) list"
  missed :: bool
  zmq_poisoned :: bool

text \<open>What one read of the socket returns: a multipart message, nothing queued, or a failure.\<close>

datatype zmq_result = Frames "bytes list" | Again | ZmqFailed

text \<open>
  \<open>String::from_utf8_lossy\<close>: the length of the next character, or of the malformed sequence that
  the replacement character stands for.
\<close>

fun utf8_step :: "nat \<Rightarrow> nat list \<Rightarrow> bool \<times> nat" where
  "utf8_step a bs =
     (let get = (\<lambda>i. if i < length bs then bs ! i else 0) in
      if a < 128 then (True, 1)
      else if 194 \<le> a \<and> a \<le> 223 then (if continuation (get 0) then (True, 2) else (False, 1))
      else if 224 \<le> a \<and> a \<le> 239 then
        (if \<not> (if a = 224 then 160 \<le> get 0 \<and> get 0 \<le> 191 else if a = 237 then 128 \<le> get 0 \<and> get 0 \<le> 159
               else continuation (get 0)) then (False, 1)
         else if \<not> continuation (get 1) then (False, 2) else (True, 3))
      else if 240 \<le> a \<and> a \<le> 244 then
        (if \<not> (if a = 240 then 144 \<le> get 0 \<and> get 0 \<le> 191 else if a = 244 then 128 \<le> get 0 \<and> get 0 \<le> 143
               else continuation (get 0)) then (False, 1)
         else if \<not> continuation (get 1) then (False, 2)
         else if \<not> continuation (get 2) then (False, 3) else (True, 4))
      else (False, 1))"

function utf8_lossy :: "nat list \<Rightarrow> nat list" where
  "utf8_lossy [] = []"
| "utf8_lossy (a # bs) =
     (case utf8_step a bs of (ok, n) \<Rightarrow>
        (if ok then take n (a # bs) else [239, 191, 189]) @ utf8_lossy (drop (n - 1) bs))"
  by pat_completeness auto
termination by (relation "measure length") auto

definition from_utf8_lossy :: "bytes \<Rightarrow> string" where
  "from_utf8_lossy bs = map char_of (utf8_lossy (map unat bs))"

definition u32_from_le_bytes :: "bytes \<Rightarrow> u32 option" where
  "u32_from_le_bytes bs =
     (case bs of
        [a, b, c, d] \<Rightarrow> Some (unat a + 256 * unat b + 65536 * unat c + 16777216 * unat d)
      | _ \<Rightarrow> None)"

definition wrapping_add32 :: "u32 \<Rightarrow> u32 \<Rightarrow> u32" where
  "wrapping_add32 a b = (a + b) mod (u32_max + 1)"

definition take_missed :: "ZmqState \<Rightarrow> bool \<times> ZmqState" where
  "take_missed z = (if zmq_poisoned z then (False, z) else (missed z, z\<lparr>missed := False\<rparr>))"

text \<open>\<open>opened\<close> is the outcome of opening, connecting and subscribing a new socket.\<close>

definition ensure_connected :: "wallet_error + unit \<Rightarrow> ZmqState \<Rightarrow> (wallet_error + unit) \<times> ZmqState" where
  "ensure_connected opened z =
     (if zmq_poisoned z then (Inl (WGeneral ''ZMQ socket mutex poisoned''), z)
      else if socket z then (Inr (), z)
      else case opened of
             Inl e \<Rightarrow> (Inl e, z)
           | Inr _ \<Rightarrow> (Inr (), z\<lparr>socket := True\<rparr>))"

definition recv_event :: "wallet_error + unit \<Rightarrow> zmq_result \<Rightarrow> ZmqState \<Rightarrow> (string \<times> bytes) option \<times> ZmqState" where
  "recv_event opened received z =
     (case ensure_connected opened z of
        (Inl e, z) \<Rightarrow> (None, z)
      | (Inr _, z) \<Rightarrow>
          case received of
            Again \<Rightarrow> (None, z)
          | ZmqFailed \<Rightarrow> (None, z\<lparr>socket := False, missed := True\<rparr>)
          | Frames msg \<Rightarrow>
              case (case msg of [_, _, sq] \<Rightarrow> u32_from_le_bytes sq | _ \<Rightarrow> None) of
                None \<Rightarrow> (None, z\<lparr>missed := True\<rparr>)
              | Some sq \<Rightarrow>
                  let body = msg ! 1; topic = from_utf8_lossy (msg ! 0);
                      last = map_of (last_sequence z) topic;
                      z = z\<lparr>last_sequence := AList.update topic sq (last_sequence z)\<rparr>;
                      z = (case last of
                             Some l \<Rightarrow> if sq \<noteq> wrapping_add32 l 1 then z\<lparr>missed := True\<rparr> else z
                           | None \<Rightarrow> z)
                  in (Some (topic, body), z))"

definition core_poll_event :: "wallet_error + unit \<Rightarrow> zmq_result \<Rightarrow> ZmqState \<Rightarrow> WatchEvent option \<times> ZmqState" where
  "core_poll_event opened received z =
     (case take_missed z of (lost, z) \<Rightarrow>
      if lost then (Some Missed, z)
      else case recv_event opened received z of
          (None, z) \<Rightarrow> (case take_missed z of (lost, z) \<Rightarrow> (if lost then Some Missed else None, z))
        | (Some (topic, payload), z) \<Rightarrow>
            (if topic = ''rawtx'' then Some (TxSeen payload)
             else if topic = ''rawblock'' then Some (BlockConnected \<lparr>br_height = 0, br_hash = payload\<rparr>)
             else None, z))"

end
