(* ===== verification/Funding.thy ===== *)
theory Funding
  imports Bitcoin "HOL-Library.Product_Lexorder" "HOL-Library.Multiset"
begin

text \<open>
  Funding plans (\<open>wallet/funding.rs\<close>): how an amount is split over funding transactions, which
  coins each split spends, the guard on over-budget inputs, the netting of reimbursed fees,
  and the re-plan that keeps a declared shape. A pool is a list of coins with their values.
  Unchecked 64-bit additions wrap, as in a release build.
\<close>

section \<open>Definitions\<close>

type_synonym pool = "(OutPoint \<times> Amount) list"

record SplitPlan =
  utxos :: "OutPoint list"
  split_value :: Amount

datatype funding_error =
    FGeneral string
  | InsufficientFund u64 u64

text \<open>\<open>rposition\<close>: the last index that satisfies a predicate.\<close>

definition rposition :: "('a \<Rightarrow> bool) \<Rightarrow> 'a list \<Rightarrow> nat option" where
  "rposition P xs =
     (case filter (\<lambda>i. P (xs ! i)) (rev [0..<length xs]) of [] \<Rightarrow> None | i # _ \<Rightarrow> Some i)"

text \<open>The two-pointer search of \<open>smallest_cover\<close> for two inputs.\<close>

function two_pointer ::
  "(nat \<Rightarrow> u64) \<Rightarrow> u64 \<Rightarrow> nat \<Rightarrow> nat \<Rightarrow> (u64 \<times> nat \<times> nat) option \<Rightarrow> (u64 \<times> nat \<times> nat) option" where
  "two_pointer val need lo hi best =
     (if lo < hi then
        let s = wrapping_add (val lo) (val hi) in
        if need \<le> s then
          two_pointer val need lo (hi - 1)
            (if (case best of None \<Rightarrow> True | Some (b, _, _) \<Rightarrow> s < b) then Some (s, lo, hi) else best)
        else two_pointer val need (lo + 1) hi best
      else best)"
  by pat_completeness auto
termination by (relation "measure (\<lambda>(_, _, lo, hi, _). hi - lo)") auto

definition pair_cover :: "pool \<Rightarrow> u64 \<Rightarrow> nat list option" where
  "pair_cover pool_desc need =
     (let m = length pool_desc; val = (\<lambda>i. snd (pool_desc ! (m - 1 - i)))
      in map_option (\<lambda>(_, lo, hi). [m - 1 - lo, m - 1 - hi])
           (two_pointer val need 0 (m - 1) None))"

text \<open>
  The greedy fill: the mask \<open>taken\<close> of the source marks exactly the positions in \<open>chosen\<close>.
\<close>

definition greedy_pick :: "pool \<Rightarrow> nat list \<Rightarrow> u64 \<Rightarrow> nat option" where
  "greedy_pick pool_desc chosen deficit =
     (let free = filter (\<lambda>i. i \<notin> set chosen) [0..<length pool_desc] in
      case find (\<lambda>i. snd (pool_desc ! i) \<le> deficit) free of
        Some i \<Rightarrow> Some i
      | None \<Rightarrow> find (\<lambda>i. deficit < snd (pool_desc ! i)) (rev free))"

fun greedy_fill :: "pool \<Rightarrow> u64 \<Rightarrow> nat \<Rightarrow> u64 \<Rightarrow> nat list \<Rightarrow> nat list option" where
  "greedy_fill pool_desc need 0 covered chosen = None"
| "greedy_fill pool_desc need (Suc n) covered chosen =
     (case greedy_pick pool_desc chosen (need - covered) of
        None \<Rightarrow> None
      | Some pick \<Rightarrow>
          let covered' = wrapping_add covered (snd (pool_desc ! pick));
              chosen' = chosen @ [pick]
          in if need \<le> covered' then Some chosen' else greedy_fill pool_desc need n covered' chosen')"

definition smallest_cover :: "pool \<Rightarrow> nat \<Rightarrow> u64 \<Rightarrow> nat list option" where
  "smallest_cover pool_desc n need =
     (if length pool_desc < n then None
      else if n = 1 then
        map_option (\<lambda>pos. [pos]) (rposition (\<lambda>(_, v). need \<le> v) pool_desc)
      else if n = 2 then pair_cover pool_desc need
      else greedy_fill pool_desc need n 0 [])"

definition split_need :: "u64 \<Rightarrow> u64 option \<Rightarrow> f64 \<Rightarrow> nat \<Rightarrow> u64 option" where
  "split_need target exact_change fee_rate inputs =
     (case exact_change of
        Some change \<Rightarrow> checked_add target change
      | None \<Rightarrow> do { fee \<leftarrow> fee_at_rate_sats (funding_tx_vsize inputs) fee_rate;
                   checked_add target fee })"

fun top_sums :: "u64 \<Rightarrow> pool \<Rightarrow> u64 list" where
  "top_sums s [] = []"
| "top_sums s ((_, v) # pool) = saturating_add s v # top_sums (saturating_add s v) pool"

text \<open>\<open>find_map\<close> over the input counts \<open>n, n + 1, \<dots>, budget\<close>.\<close>

definition cover_with :: "pool \<Rightarrow> (nat \<Rightarrow> u64 option) \<Rightarrow> nat \<Rightarrow> nat list option" where
  "cover_with remaining need_for n = do {
     need \<leftarrow> need_for n;
     if top_sums 0 remaining ! (n - 1) < need then None else smallest_cover remaining n need }"

fun find_cover :: "pool \<Rightarrow> (nat \<Rightarrow> u64 option) \<Rightarrow> nat list \<Rightarrow> nat list option" where
  "find_cover remaining need_for [] = None"
| "find_cover remaining need_for (n # ns) =
     (case cover_with remaining need_for n of
        Some ps \<Rightarrow> Some ps
      | None \<Rightarrow> find_cover remaining need_for ns)"

text \<open>The over-budget fallback: the largest coins until they cover what they need.\<close>

fun fallback_fill :: "pool \<Rightarrow> (nat \<Rightarrow> u64 option) \<Rightarrow> nat \<Rightarrow> u64 \<Rightarrow> nat \<times> u64" where
  "fallback_fill [] need_for pos covered = (pos, covered)"
| "fallback_fill ((_, v) # rest) need_for pos covered =
     (if (case need_for pos of None \<Rightarrow> True | Some need \<Rightarrow> need \<le> covered) then (pos, covered)
      else fallback_fill rest need_for (Suc pos) (wrapping_add covered v))"

definition fallback_cover :: "pool \<Rightarrow> (nat \<Rightarrow> u64 option) \<Rightarrow> nat list option" where
  "fallback_cover remaining need_for =
     (let (pos, covered) = fallback_fill remaining need_for 0 0 in
      if (case need_for pos of None \<Rightarrow> False | Some need \<Rightarrow> need \<le> covered)
      then Some [0..<pos] else None)"

definition pick_split ::
  "u32 \<Rightarrow> u32 \<Rightarrow> f64 \<Rightarrow> u64 option \<Rightarrow> u64 \<Rightarrow> pool \<Rightarrow> nat list option" where
  "pick_split k max_input_budget fee_rate exact_change target remaining =
     (let need_for = split_need target exact_change fee_rate;
          budget = min max_input_budget (length remaining)
      in case find_cover remaining need_for [1..<Suc budget] of
           Some ps \<Rightarrow> Some ps
         | None \<Rightarrow> if k = 1 then fallback_cover remaining need_for else None)"

text \<open>\<open>Vec::remove\<close> at each position, highest first.\<close>

fun take_out :: "nat list \<Rightarrow> pool \<Rightarrow> OutPoint list \<times> pool" where
  "take_out [] remaining = ([], remaining)"
| "take_out (pos # ps) remaining =
     (let (taken, rest) = take_out ps (take pos remaining @ drop (Suc pos) remaining)
      in (fst (remaining ! pos) # taken, rest))"

fun plan_loop ::
  "u64 \<Rightarrow> u32 \<Rightarrow> u32 \<Rightarrow> f64 \<Rightarrow> u64 option \<Rightarrow> nat \<Rightarrow> pool \<Rightarrow> u64 \<Rightarrow> SplitPlan list option" where
  "plan_loop total_sats k max_input_budget fee_rate exact_change 0 remaining assigned = Some []"
| "plan_loop total_sats k max_input_budget fee_rate exact_change (Suc left) remaining assigned =
     (let target = (total_sats - assigned) div Suc left in
      case pick_split k max_input_budget fee_rate exact_change target remaining of
        None \<Rightarrow> None
      | Some positions \<Rightarrow>
          let (taken, rest) = take_out (rev (sort positions)) remaining in
          map_option (\<lambda>plans. \<lparr>utxos = taken, split_value = target\<rparr> # plans)
            (plan_loop total_sats k max_input_budget fee_rate exact_change left rest
               (assigned + target)))"

definition plan_with_k ::
  "pool \<Rightarrow> u64 \<Rightarrow> u32 \<Rightarrow> u32 \<Rightarrow> f64 \<Rightarrow> u64 \<Rightarrow> u64 option \<Rightarrow> SplitPlan list option" where
  "plan_with_k pool_desc total_sats k max_input_budget fee_rate min_split exact_change =
     (if k = 0 \<or> total_sats < (k * min_split) mod (u64_max + 1) then None
      else plan_loop total_sats k max_input_budget fee_rate exact_change k pool_desc 0)"

definition coin_key :: "OutPoint \<times> Amount \<Rightarrow> nat \<times> nat \<times> nat" where
  "coin_key c = (snd c, txid (fst c), vout (fst c))"

definition sort_desc :: "pool \<Rightarrow> pool" where
  "sort_desc pool_utxos = rev (sort_key coin_key pool_utxos)"

fun first_plan :: "(nat \<Rightarrow> SplitPlan list option) \<Rightarrow> nat \<Rightarrow> SplitPlan list" where
  "first_plan plan_k 0 = []"
| "first_plan plan_k (Suc k) =
     (case plan_k (Suc k) of Some plan \<Rightarrow> plan | None \<Rightarrow> first_plan plan_k k)"

definition plan_funding_splits ::
  "pool \<Rightarrow> u64 \<Rightarrow> u32 \<Rightarrow> u32 \<Rightarrow> f64 \<Rightarrow> u64 \<Rightarrow> u64 option \<Rightarrow> SplitPlan list" where
  "plan_funding_splits pool_utxos total_sats max_splits max_input_budget fee_rate min_split
       exact_change =
     first_plan (\<lambda>k. plan_with_k (sort_desc pool_utxos) total_sats k max_input_budget fee_rate
       min_split exact_change) max_splits"

definition funding_fee :: "nat \<Rightarrow> f64 \<Rightarrow> funding_error + u64" where
  "funding_fee inputs fee_rate =
     ok_or (fee_at_rate_sats (funding_tx_vsize inputs) fee_rate)
       (FGeneral ''funding fee arithmetic overflow'')"

definition clamp :: "nat \<Rightarrow> nat \<Rightarrow> nat \<Rightarrow> nat" where
  "clamp lo hi n = (if n < lo then lo else if hi < n then hi else n)"

text \<open>
  The loop of \<open>check_over_budget_spend\<close>: \<open>counts\<close> are the input count of each split and the
  count it is reimbursed for.
\<close>

fun over_budget_sum :: "u32 \<Rightarrow> f64 \<Rightarrow> (nat \<times> nat) list \<Rightarrow> u64 \<Rightarrow> funding_error + u64" where
  "over_budget_sum max_input_budget fee_rate [] over_budget = Inr over_budget"
| "over_budget_sum max_input_budget fee_rate ((inputs, declared) # counts) over_budget =
     (let priced = clamp 1 (max max_input_budget 1) declared in
      res_bind (funding_fee inputs fee_rate) (\<lambda>real.
      res_bind (funding_fee priced fee_rate) (\<lambda>reimbursed.
      res_bind (ok_or (checked_sub real reimbursed)
                  (FGeneral ''funding fee arithmetic underflow'')) (\<lambda>extra.
      res_bind (ok_or (checked_add over_budget extra)
                  (FGeneral ''funding fee arithmetic overflow'')) (\<lambda>over_budget'.
      over_budget_sum max_input_budget fee_rate counts over_budget')))))"

definition check_over_budget_spend ::
  "SplitPlan list \<Rightarrow> nat list option \<Rightarrow> u32 \<Rightarrow> f64 \<Rightarrow> u64 \<Rightarrow> funding_error + unit" where
  "check_over_budget_spend plan declared max_input_budget fee_rate swap_fee_sats =
     (let inputs = map (\<lambda>s. length (utxos s)) plan;
          counts = (case declared of None \<Rightarrow> inputs | Some d \<Rightarrow> d)
      in if length counts \<noteq> length plan
         then Inl (FGeneral ''the guard needs one declared input count per split'')
         else
           res_bind (over_budget_sum max_input_budget fee_rate (zip inputs counts) 0)
             (\<lambda>over_budget.
               if swap_fee_sats < over_budget
               then Inl (FGeneral ''funding plan spends above the taker's input budget'')
               else Inr ()))"

fun net_splits ::
  "u32 \<Rightarrow> f64 \<Rightarrow> u64 \<Rightarrow> (SplitPlan \<times> nat) list \<Rightarrow> funding_error + SplitPlan list" where
  "net_splits max_input_budget fee_rate min_split [] = Inr []"
| "net_splits max_input_budget fee_rate min_split ((split, inputs) # rest) =
     res_bind (ok_or (funding_fee_policy_sats inputs max_input_budget fee_rate)
                 (FGeneral ''funding fee arithmetic overflow'')) (\<lambda>fee.
     res_bind (case checked_sub (split_value split) fee of
                 Some v \<Rightarrow> if min_split \<le> v then Inr v
                           else Inl (FGeneral ''funding fee pushes a split below the minimum'')
               | None \<Rightarrow> Inl (FGeneral ''funding fee pushes a split below the minimum'')) (\<lambda>v.
     res_bind (net_splits max_input_budget fee_rate min_split rest) (\<lambda>netted.
     Inr (split\<lparr>split_value := v\<rparr> # netted))))"

definition net_policy_fees ::
  "u64 \<Rightarrow> SplitPlan list \<Rightarrow> nat list \<Rightarrow> u32 \<Rightarrow> f64 \<Rightarrow> ProtocolVersion \<Rightarrow>
   funding_error + SplitPlan list" where
  "net_policy_fees p2tr_dust plan priced_inputs max_input_budget fee_rate protocol =
     (if length priced_inputs \<noteq> length plan
      then Inl (FGeneral ''netting needs one priced input count per split'')
      else
        res_bind (ok_or (min_contract_value_sats p2tr_dust protocol fee_rate)
                    (FGeneral ''contract floor cannot be priced'')) (\<lambda>min_split.
        net_splits max_input_budget fee_rate min_split (zip plan priced_inputs)))"

text \<open>
  \<open>fit_declared_shape\<close>. \<open>rank ! i\<close> is the place of declared count \<open>i\<close> in ascending order; the
  fresh splits, in ascending order of their input counts, are dealt out by rank. Both sorts
  are stable.
\<close>

definition declared_rank :: "nat list \<Rightarrow> nat list" where
  "declared_rank declared =
     (let order = sort_key (\<lambda>i. declared ! i) [0..<length declared]
      in foldl (\<lambda>rank (r, i). rank[i := r]) (replicate (length declared) 0)
           (zip [0..<length order] order))"

definition pair_by_size :: "SplitPlan list \<Rightarrow> nat list \<Rightarrow> SplitPlan list" where
  "pair_by_size fresh declared =
     (let sorted = sort_key (\<lambda>s. length (utxos s)) fresh
      in map (\<lambda>r. sorted ! r) (declared_rank declared))"

definition spare_coins :: "OutPoint set \<Rightarrow> u64 \<Rightarrow> pool \<Rightarrow> OutPoint list" where
  "spare_coins used input_fee pool =
     map fst (sort_key snd (filter (\<lambda>(outpoint, amount). outpoint \<notin> used \<and> input_fee \<le> amount) pool))"

fun top_up ::
  "OutPoint set \<Rightarrow> (SplitPlan \<times> nat) list \<Rightarrow> OutPoint list \<Rightarrow> OutPoint list \<Rightarrow>
   funding_error + SplitPlan list" where
  "top_up swept [] spare_regular spare_swept = Inr []"
| "top_up swept ((split, inputs) # rest) spare_regular spare_swept =
     (let short = inputs - length (utxos split);
          from_swept = (case utxos split of [] \<Rightarrow> False | o' # _ \<Rightarrow> o' \<in> swept);
          pool = (if from_swept then spare_swept else spare_regular)
      in if length pool < short
         then Inl (FGeneral ''too few spare coins to keep a split's declared input count'')
         else
           res_bind (if from_swept
                     then top_up swept rest spare_regular (drop short spare_swept)
                     else top_up swept rest (drop short spare_regular) spare_swept) (\<lambda>fitted.
           Inr (split\<lparr>utxos := utxos split @ take short pool\<rparr> # fitted)))"

definition fit_declared_shape ::
  "u64 \<Rightarrow> SplitPlan list \<Rightarrow> nat list \<Rightarrow> pool \<Rightarrow> pool \<Rightarrow> u32 \<Rightarrow> f64 \<Rightarrow> u64 \<Rightarrow> ProtocolVersion \<Rightarrow>
   funding_error + SplitPlan list" where
  "fit_declared_shape p2tr_dust fresh declared regular_pool swept_pool max_input_budget fee_rate
       swap_fee_sats protocol =
     (if length fresh \<noteq> length declared
      then Inl (FGeneral ''re-plan has a different split count'')
      else
        let fitted = pair_by_size fresh declared;
            used = set (concat (map utxos fitted));
            swept = set (map fst swept_pool)
        in res_bind (ok_or (fee_at_rate_sats (funding_tx_vsize 2 - funding_tx_vsize 1) fee_rate)
                       (FGeneral ''input fee arithmetic overflow'')) (\<lambda>input_fee.
           res_bind (top_up swept (zip fitted declared) (spare_coins used input_fee regular_pool)
                       (spare_coins used input_fee swept_pool)) (\<lambda>topped.
           res_bind (check_over_budget_spend topped (Some declared) max_input_budget fee_rate
                       swap_fee_sats) (\<lambda>_.
           net_policy_fees p2tr_dust topped declared max_input_budget fee_rate protocol))))"

definition wrapping_sum :: "u64 list \<Rightarrow> u64" where
  "wrapping_sum xs = foldl wrapping_add 0 xs"

definition pool_sum :: "pool \<Rightarrow> u64" where
  "pool_sum pool = wrapping_sum (map snd pool)"

text \<open>The loop of \<open>plan_from_pools\<close> over the two pools, with the first guard error.\<close>

fun try_pools ::
  "pool list \<Rightarrow> u64 \<Rightarrow> u64 \<Rightarrow> u32 \<Rightarrow> u32 \<Rightarrow> f64 \<Rightarrow> u64 option \<Rightarrow> u64 \<Rightarrow> u64 option \<Rightarrow>
   funding_error option \<Rightarrow> funding_error option + SplitPlan list" where
  "try_pools [] required total_sats max_splits budget fee_rate swap_fee min_split exact_change err =
     Inl err"
| "try_pools (pool # pools) required total_sats max_splits budget fee_rate swap_fee min_split
       exact_change err =
     (let next = try_pools pools required total_sats max_splits budget fee_rate swap_fee min_split
                   exact_change
      in if required \<le> pool_sum pool then
           let plan = plan_funding_splits pool total_sats max_splits budget fee_rate min_split
                        exact_change
           in if plan = [] then next err
              else case swap_fee of
                     None \<Rightarrow> Inr plan
                   | Some swap_fee_sats \<Rightarrow>
                       (case check_over_budget_spend plan None budget fee_rate swap_fee_sats of
                          Inl e \<Rightarrow> next (case err of None \<Rightarrow> Some e | Some e' \<Rightarrow> Some e')
                        | Inr _ \<Rightarrow> Inr plan)
         else next err)"

definition plan_from_pools ::
  "pool \<Rightarrow> pool \<Rightarrow> u64 \<Rightarrow> u64 \<Rightarrow> u32 \<Rightarrow> u32 \<Rightarrow> f64 \<Rightarrow> u64 option \<Rightarrow> u64 \<Rightarrow> u64 option \<Rightarrow>
   funding_error + SplitPlan list" where
  "plan_from_pools regular_pool swap_pool required total_sats max_splits max_input_budget fee_rate
       swap_fee_sats min_split exact_change =
     (case try_pools [regular_pool, swap_pool] required total_sats max_splits max_input_budget
             fee_rate swap_fee_sats min_split exact_change None of
        Inr plan \<Rightarrow> Inr plan
      | Inl (Some e) \<Rightarrow> Inl e
      | Inl None \<Rightarrow>
          Inl (InsufficientFund (wrapping_add (pool_sum regular_pool) (pool_sum swap_pool)) required))"

text \<open>
  The manual-selection branch and the whole of \<open>plan_funding_with_change\<close>; the two pools are
  the wallet's plannable pools. A \<open>HashSet\<close> of the selected outpoints has as many elements as
  there are distinct outpoints.
\<close>

definition plan_manual ::
  "pool \<Rightarrow> pool \<Rightarrow> OutPoint list \<Rightarrow> u64 \<Rightarrow> u64 \<Rightarrow> u32 \<Rightarrow> u32 \<Rightarrow> f64 \<Rightarrow> u64 option \<Rightarrow> u64 \<Rightarrow>
   u64 option \<Rightarrow> funding_error + SplitPlan list" where
  "plan_manual regular_pool swap_pool manual required total_sats max_splits max_input_budget
       fee_rate swap_fee_sats min_split exact_change =
     (let in_regular = filter (\<lambda>c. fst c \<in> set manual) regular_pool;
          in_swap = filter (\<lambda>c. fst c \<in> set manual) swap_pool
      in if length in_regular + length in_swap \<noteq> length (remdups manual)
         then Inl (FGeneral ''Some manually selected UTXOs are unavailable, locked, or excluded'')
         else if in_regular \<noteq> [] \<and> in_swap \<noteq> []
         then Inl (FGeneral ''Cannot mix regular and swap UTXOs in manual selection'')
         else
           let pool = (if in_regular = [] then in_swap else in_regular);
               plan = plan_funding_splits pool total_sats max_splits max_input_budget fee_rate
                        min_split exact_change
           in if plan = [] then Inl (InsufficientFund (pool_sum pool) required)
              else case swap_fee_sats of
                     None \<Rightarrow> Inr plan
                   | Some fee \<Rightarrow>
                       res_bind (check_over_budget_spend plan None max_input_budget fee_rate fee)
                         (\<lambda>_. Inr plan))"

definition plan_funding_with_change ::
  "u64 \<Rightarrow> pool \<Rightarrow> pool \<Rightarrow> u64 \<Rightarrow> u32 \<Rightarrow> f64 \<Rightarrow> u32 \<Rightarrow> u64 option \<Rightarrow> OutPoint list option \<Rightarrow>
   OutPoint list option \<Rightarrow> ProtocolVersion \<Rightarrow> u64 option \<Rightarrow> funding_error + SplitPlan list" where
  "plan_funding_with_change p2tr_dust regular swept total_sats max_splits fee_rate max_input_budget
       swap_fee_sats manually_selected excluded_outpoints protocol exact_change =
     res_bind (ok_or (min_contract_value_sats p2tr_dust protocol fee_rate)
                 (FGeneral ''contract floor cannot be priced'')) (\<lambda>min_split.
     if total_sats < min_split then Inl (FGeneral ''Amount is below the contract floor'')
     else
       let excluded = set (case excluded_outpoints of None \<Rightarrow> [] | Some os \<Rightarrow> os);
           regular_pool = filter (\<lambda>c. fst c \<notin> excluded) regular;
           swap_pool = filter (\<lambda>c. fst c \<notin> excluded) swept
       in res_bind (case exact_change of Some change \<Rightarrow> Inr change | None \<Rightarrow> funding_fee 1 fee_rate)
            (\<lambda>margin.
          res_bind (ok_or (checked_add total_sats margin) (FGeneral ''funding threshold overflow''))
            (\<lambda>required.
          case manually_selected of
            Some (o' # os) \<Rightarrow>
              plan_manual regular_pool swap_pool (o' # os) required total_sats max_splits
                max_input_budget fee_rate swap_fee_sats min_split exact_change
          | _ \<Rightarrow>
              plan_from_pools regular_pool swap_pool required total_sats max_splits
                max_input_budget fee_rate swap_fee_sats min_split exact_change)))"

definition plan_funding ::
  "u64 \<Rightarrow> pool \<Rightarrow> pool \<Rightarrow> u64 \<Rightarrow> u32 \<Rightarrow> f64 \<Rightarrow> u32 \<Rightarrow> u64 option \<Rightarrow> OutPoint list option \<Rightarrow>
   OutPoint list option \<Rightarrow> ProtocolVersion \<Rightarrow> funding_error + SplitPlan list" where
  "plan_funding p2tr_dust regular swept total_sats max_splits fee_rate max_input_budget swap_fee_sats
       manually_selected excluded_outpoints protocol =
     plan_funding_with_change p2tr_dust regular swept total_sats max_splits fee_rate max_input_budget
       swap_fee_sats manually_selected excluded_outpoints protocol None"

end
