(* ===== verification/Store.thy ===== *)
theory Store
  imports CoreRpc Funding
begin

text \<open>
  The wallet's state (\<open>wallet/storage.rs\<close>, \<open>wallet/api.rs\<close>): the swap coins under recovery, the
  inputs reserved for swaps, the cached outputs and what each is. A method of \<open>Wallet\<close> is a
  program over \<open>world\<close>, which holds the store in memory, the store last written to disk, and
  the transactions handed to the backend with the store in memory and on disk at that moment. Swap coins
  are keyed by their contract's transaction id. The outcome of a write, the backend and the
  clock are parameters, functions of the moment of the call.
\<close>

section \<open>Data\<close>

datatype AddressType = P2WPKH | P2TR

datatype UTXOSpendInfo =
    SeedCoin string Amount AddressType
  | IncomingCoin ScriptBuf
  | OutgoingCoin ScriptBuf
  | TimelockContract ScriptBuf Amount
  | HashlockContract ScriptBuf Amount
  | FidelityBondCoin u32 Amount
  | SweptCoin string Amount AddressType

fun estimate_witness_size :: "UTXOSpendInfo \<Rightarrow> nat" where
  "estimate_witness_size (SeedCoin p v t) = (case t of P2WPKH \<Rightarrow> 107 | P2TR \<Rightarrow> 66)"
| "estimate_witness_size (SweptCoin p v t) = (case t of P2WPKH \<Rightarrow> 107 | P2TR \<Rightarrow> 66)"
| "estimate_witness_size (IncomingCoin s) = 218"
| "estimate_witness_size (OutgoingCoin s) = 218"
| "estimate_witness_size (TimelockContract s v) = 179"
| "estimate_witness_size (HashlockContract s v) = 211"
| "estimate_witness_size (FidelityBondCoin i v) = 115"

record ListUnspentResultEntry =
  u_txid :: Txid
  u_vout :: u32
  u_amount :: Amount
  u_script_pub_key :: ScriptBuf
  u_descriptor :: "string option"
  u_witness_script :: "ScriptBuf option"
  u_confirmations :: u32

definition u_outpoint :: "ListUnspentResultEntry \<Rightarrow> OutPoint" where
  "u_outpoint u = \<lparr>txid = u_txid u, vout = u_vout u\<rparr>"

record HdOrigin =
  fingerprint :: string
  keychain_idx :: u32
  hd_index :: u32
  is_taproot :: bool

record SwapReservation =
  outpoints :: "OutPoint set"
  reserved_at :: u64

datatype SwapRole = TakerRole | MakerRole

text \<open>A coin without a swap id is reported under its key.\<close>

record RecoveryReport =
  rr_swap_id :: "string + Txid"
  rr_role :: SwapRole
  rr_node :: "string option"
  rr_hashlock :: bool
  rr_txids :: "Txid list"
  rr_network :: string
  rr_timestamp :: u64

record WalletStore =
  external_index :: u32
  internal_index :: u32
  offer_maxsize :: u64
  incoming_swapcoins :: "(Txid \<times> IncomingSwapCoin) list"
  outgoing_swapcoins :: "(Txid \<times> OutgoingSwapCoin) list"
  watchonly_swapcoins :: "(string \<times> WatchOnlySwapCoin list) list"
  prevout_to_contract_map :: "(OutPoint \<times> ScriptBuf) list"
  swept_incoming_swapcoins :: "ScriptBuf set"
  fidelity_bonds :: "FidelityBond list"
  last_synced_height :: "u64 option"
  wallet_birthday :: "u64 option"
  pending_restore :: "RestoreOptions option"
  utxo_cache :: "(OutPoint \<times> (ListUnspentResultEntry \<times> UTXOSpendInfo)) list"
  swap_locks :: "(string \<times> SwapReservation) list"
  ln_pending_swaps :: "string list"
  ln_maker_swaps :: "string list"
  reports :: "RecoveryReport list"

record world =
  wstore :: WalletStore
  locked_utxos :: "OutPoint set"
  disk :: WalletStore
  sends :: "(Transaction \<times> WalletStore \<times> WalletStore) list"
  wclock :: nat
  wtime :: nat
  watched :: "ScriptBuf set"
  hd_paths :: "(ScriptBuf \<times> HdOrigin) list"

type_synonym 'a wact = "(world, wallet_error, 'a) act"

section \<open>The environment\<close>

text \<open>The backend as the wallet sees it (the trait \<open>Blockchain\<close>), with the moment of each call.\<close>

record chain_view =
  c_block_count :: "nat \<Rightarrow> wallet_error + u64"
  c_tx_block_height :: "nat \<Rightarrow> Txid \<Rightarrow> wallet_error + u64 option"
  c_tx_out :: "nat \<Rightarrow> Txid \<Rightarrow> u32 \<Rightarrow> bool option \<Rightarrow> wallet_error + TxOutInfo option"
  c_is_tx_unknown :: "nat \<Rightarrow> Txid \<Rightarrow> wallet_error + bool"
  c_raw_transaction :: "nat \<Rightarrow> Txid \<Rightarrow> wallet_error + Transaction"
  c_raw_transaction_info :: "nat \<Rightarrow> Txid \<Rightarrow> wallet_error + TxInfo"
  c_spending_transaction :: "nat \<Rightarrow> OutPoint \<Rightarrow> ScriptBuf \<Rightarrow> wallet_error + Transaction option"
  c_confirmed_spending_transaction :: "nat \<Rightarrow> OutPoint \<Rightarrow> ScriptBuf \<Rightarrow> wallet_error + Transaction option"
  c_send_raw_transaction :: "nat \<Rightarrow> Transaction \<Rightarrow> wallet_error + Txid"
  c_estimate_feerate :: "nat \<Rightarrow> nat \<Rightarrow> wallet_error + f64"
  c_incremental_relay_feerate :: "nat \<Rightarrow> f64 option"

datatype KeychainKind = External | Internal

text \<open>A descriptor handed to Bitcoin Core, by what it describes; the checksum is appended by the library.\<close>

datatype Descriptor =
    WalletDesc AddressType KeychainKind
  | SortedMulti PublicKey PublicKey
  | RawScript ScriptBuf

text \<open>What a sync asks of the backend, and the public derivation of a child script.\<close>

record sync_view =
  s_is_electrum :: bool
  s_prepare_backend_wallet :: "nat \<Rightarrow> wallet_error + unit"
  s_imported_range_covers :: "nat \<Rightarrow> Descriptor \<Rightarrow> u32 \<Rightarrow> wallet_error + bool"
  s_import_descriptors :: "nat \<Rightarrow> (Descriptor \<times> u32 option) list \<Rightarrow> u32 \<Rightarrow> wallet_error + unit"
  s_wallet_scanning :: "nat \<Rightarrow> wallet_error + bool"
  s_rescan_wallet_from :: "nat \<Rightarrow> u64 \<Rightarrow> wallet_error + unit"
  s_header_time :: "nat \<Rightarrow> u64 \<Rightarrow> wallet_error + u32"
  s_list_unspent :: "nat \<Rightarrow> ScriptBuf set \<Rightarrow> wallet_error + ListUnspentResultEntry list"
  s_script_has_history :: "nat \<Rightarrow> ScriptBuf \<Rightarrow> wallet_error + bool"
  s_list_transactions :: "nat \<Rightarrow> wallet_error + (Txid \<times> bool) list"
  s_is_confirmed_spend :: "nat \<Rightarrow> OutPoint \<Rightarrow> ScriptBuf \<Rightarrow> wallet_error + bool"
  s_child_script :: "AddressType \<Rightarrow> KeychainKind \<Rightarrow> u32 \<Rightarrow> wallet_error + ScriptBuf"
  s_keys :: keyring

text \<open>A write fails before or after its file replaced the old one.\<close>

datatype save_outcome = SaveOk | SaveFailed wallet_error bool

record wallet_env =
  w_lib :: bitcoin_lib
  w_chain :: chain_view
  w_save :: "nat \<Rightarrow> save_outcome"
  w_sync :: sync_view
  w_shutdown :: "nat \<Rightarrow> bool"
  w_fuel :: nat
  w_delay :: "nat \<Rightarrow> nat"
  w_now :: "nat \<Rightarrow> u64"
  w_node :: "string option"
  w_network :: string
  w_derive_addresses :: "nat \<Rightarrow> AddressType \<Rightarrow> KeychainKind \<Rightarrow> u32 \<Rightarrow> u32 \<Rightarrow> wallet_error + ScriptBuf list"
  w_on_network :: "ScriptBuf \<Rightarrow> bool"
  w_nonce :: "nat \<Rightarrow> bytes"
  w_vsize :: "Transaction \<Rightarrow> u64"
  w_account_fingerprint :: "AddressType \<Rightarrow> wallet_error + string"

text \<open>Each call happens at a tick of \<open>wclock\<close> and takes \<open>w_delay\<close> nanoseconds of \<open>wtime\<close>, the monotonic clock.\<close>

definition elapse :: "wallet_env \<Rightarrow> world \<Rightarrow> world" where
  "elapse env w = w\<lparr>wclock := Suc (wclock w), wtime := wtime w + w_delay env (wclock w)\<rparr>"

definition tick :: "wallet_env \<Rightarrow> (nat \<Rightarrow> wallet_error + 'a) \<Rightarrow> 'a wact" where
  "tick env f w = (f (wclock w), elapse env w)"

definition save_to_disk :: "wallet_env \<Rightarrow> unit wact" where
  "save_to_disk env w =
     (case w_save env (wclock w) of
        SaveOk \<Rightarrow> (Inr (), elapse env (w\<lparr>disk := wstore w\<rparr>))
      | SaveFailed e landed \<Rightarrow>
          (Inl e, elapse env (w\<lparr>disk := (if landed then wstore w else disk w)\<rparr>)))"

definition send_raw_transaction :: "wallet_env \<Rightarrow> Transaction \<Rightarrow> Txid wact" where
  "send_raw_transaction env tx w =
     (c_send_raw_transaction (w_chain env) (wclock w) tx,
      elapse env (w\<lparr>sends := sends w @ [(tx, wstore w, disk w)]\<rparr>))"

definition on_store :: "(WalletStore \<Rightarrow> WalletStore) \<Rightarrow> world \<Rightarrow> world" where
  "on_store f w = w\<lparr>wstore := f (wstore w)\<rparr>"

section \<open>Swap coins\<close>

definition add_incoming_swapcoin :: "bitcoin_lib \<Rightarrow> IncomingSwapCoin \<Rightarrow> WalletStore \<Rightarrow> WalletStore" where
  "add_incoming_swapcoin lib coin s =
     s\<lparr>incoming_swapcoins := AList.update (compute_txid lib (in_contract_tx coin)) coin (incoming_swapcoins s)\<rparr>"

definition add_outgoing_swapcoin :: "bitcoin_lib \<Rightarrow> OutgoingSwapCoin \<Rightarrow> WalletStore \<Rightarrow> WalletStore" where
  "add_outgoing_swapcoin lib coin s =
     (let key = compute_txid lib (out_contract_tx coin);
          coin = (case map_of (outgoing_swapcoins s) key of
                    None \<Rightarrow> coin
                  | Some stored \<Rightarrow>
                      coin\<lparr>committed := committed coin \<or> committed stored,
                           incoming_claimed := incoming_claimed coin \<or> incoming_claimed stored\<rparr>)
      in s\<lparr>outgoing_swapcoins := AList.update key coin (outgoing_swapcoins s)\<rparr>)"

definition restart_funding_grace :: "wallet_env \<Rightarrow> string \<Rightarrow> unit wact" where
  "restart_funding_grace env swap_id w =
     (case map_of (swap_locks (wstore w)) swap_id of
        None \<Rightarrow> (Inr (), w)
      | Some locks \<Rightarrow>
          save_to_disk env (on_store (\<lambda>s. s\<lparr>swap_locks :=
            AList.update swap_id (locks\<lparr>reserved_at := w_now env (wclock w)\<rparr>) (swap_locks s)\<rparr>) w))"

text \<open>Putting back what a map held before: the entry, or its absence.\<close>

fun restore_entries :: "('k \<times> 'v option) list \<Rightarrow> ('k \<times> 'v) list \<Rightarrow> ('k \<times> 'v) list" where
  "restore_entries [] m = m"
| "restore_entries ((k, Some v) # ps) m = restore_entries ps (AList.update k v m)"
| "restore_entries ((k, None) # ps) m = restore_entries ps (AList.delete k m)"

definition save_funding_batch :: "wallet_env \<Rightarrow> IncomingSwapCoin list \<Rightarrow> OutgoingSwapCoin list \<Rightarrow> unit wact" where
  "save_funding_batch env incoming outgoing w =
     (let lib = w_lib env;
          previous_incoming = map (\<lambda>c. let k = compute_txid lib (in_contract_tx c) in
              (k, map_of (incoming_swapcoins (wstore w)) k)) incoming;
          previous_outgoing = map (\<lambda>c. let k = compute_txid lib (out_contract_tx c) in
              (k, map_of (outgoing_swapcoins (wstore w)) k)) outgoing;
          w = on_store (fold (add_outgoing_swapcoin lib) outgoing) (on_store (fold (add_incoming_swapcoin lib) incoming) w)
      in case save_to_disk env w of
           (Inr _, w) \<Rightarrow> (Inr (), w)
         | (Inl e, w) \<Rightarrow>
             (Inl e, on_store (\<lambda>s. s\<lparr>incoming_swapcoins := restore_entries previous_incoming (incoming_swapcoins s),
               outgoing_swapcoins := restore_entries previous_outgoing (outgoing_swapcoins s)\<rparr>) w))"

definition find_incoming_swapcoin :: "Txid \<Rightarrow> WalletStore \<Rightarrow> IncomingSwapCoin option" where
  "find_incoming_swapcoin key s = map_of (incoming_swapcoins s) key"

definition find_outgoing_swapcoin_by_multisig :: "bitcoin_lib \<Rightarrow> ScriptBuf \<Rightarrow> WalletStore \<Rightarrow> OutgoingSwapCoin option" where
  "find_outgoing_swapcoin_by_multisig lib script s =
     find (\<lambda>c. out_protocol c = Legacy \<and>
       (case (out_my_pubkey c, out_other_pubkey c) of
          (Some my, Some other) \<Rightarrow> create_multisig_redeemscript lib my other = script
        | _ \<Rightarrow> False)) (map snd (outgoing_swapcoins s))"

definition find_incoming_swapcoin_by_multisig :: "bitcoin_lib \<Rightarrow> ScriptBuf \<Rightarrow> WalletStore \<Rightarrow> IncomingSwapCoin option" where
  "find_incoming_swapcoin_by_multisig lib script s =
     find (\<lambda>c. in_protocol c = Legacy \<and>
       (case (in_my_pubkey c, in_other_pubkey c) of
          (Some my, Some other) \<Rightarrow> create_multisig_redeemscript lib my other = script
        | _ \<Rightarrow> False)) (map snd (incoming_swapcoins s))"

definition remove_incoming_swapcoin :: "Txid \<Rightarrow> WalletStore \<Rightarrow> IncomingSwapCoin option \<times> WalletStore" where
  "remove_incoming_swapcoin key s =
     (map_of (incoming_swapcoins s) key, s\<lparr>incoming_swapcoins := AList.delete key (incoming_swapcoins s)\<rparr>)"

definition remove_outgoing_swapcoin :: "Txid \<Rightarrow> WalletStore \<Rightarrow> OutgoingSwapCoin option \<times> WalletStore" where
  "remove_outgoing_swapcoin key s =
     (map_of (outgoing_swapcoins s) key, s\<lparr>outgoing_swapcoins := AList.delete key (outgoing_swapcoins s)\<rparr>)"

definition add_watchonly_swapcoins :: "string \<Rightarrow> WatchOnlySwapCoin list \<Rightarrow> WalletStore \<Rightarrow> WalletStore" where
  "add_watchonly_swapcoins swap_id coins s =
     (let old = (case map_of (watchonly_swapcoins s) swap_id of Some cs \<Rightarrow> cs | None \<Rightarrow> []) in
      s\<lparr>watchonly_swapcoins := AList.update swap_id (old @ coins) (watchonly_swapcoins s)\<rparr>)"

definition in_scope :: "string set option \<Rightarrow> string option \<Rightarrow> bool" where
  "in_scope scope swap_id =
     (case scope of
        None \<Rightarrow> True
      | Some ids \<Rightarrow> (case swap_id of Some i \<Rightarrow> i \<in> ids | None \<Rightarrow> False))"

text \<open>The contract output of a coin; indexing past the outputs panics.\<close>

fun collect_outpoints :: "(OutPoint \<times> Transaction) list \<Rightarrow> wallet_error + (OutPoint \<times> ScriptBuf) list" where
  "collect_outpoints [] = Inr []"
| "collect_outpoints ((p, tx) # cs) =
     (if length (tx_output tx) \<le> vout p then Inl WPanic
      else res_bind (collect_outpoints cs) (\<lambda>rest. Inr ((p, script_pubkey (tx_output tx ! vout p)) # rest)))"

definition outgoing_contract_outpoints ::
  "bitcoin_lib \<Rightarrow> string set option \<Rightarrow> WalletStore \<Rightarrow> wallet_error + (OutPoint \<times> ScriptBuf) list" where
  "outgoing_contract_outpoints lib scope s =
     collect_outpoints (map (\<lambda>(_, c). (\<lparr>txid = compute_txid lib (out_contract_tx c),
         vout = out_get_contract_output_vout c\<rparr>, out_contract_tx c))
       (filter (\<lambda>(_, c). in_scope scope (out_swap_id c)) (outgoing_swapcoins s)))"

definition incoming_contract_outpoints ::
  "bitcoin_lib \<Rightarrow> string set option \<Rightarrow> WalletStore \<Rightarrow> wallet_error + (OutPoint \<times> ScriptBuf) list" where
  "incoming_contract_outpoints lib scope s =
     collect_outpoints (map (\<lambda>(_, c). (\<lparr>txid = compute_txid lib (in_contract_tx c),
         vout = in_get_contract_output_vout c\<rparr>, in_contract_tx c))
       (filter (\<lambda>(_, c). in_scope scope (in_swap_id c)) (incoming_swapcoins s)))"

definition watchonly_contract_outpoints :: "bitcoin_lib \<Rightarrow> WalletStore \<Rightarrow> (OutPoint \<times> ScriptBuf) list" where
  "watchonly_contract_outpoints lib s =
     List.map_filter (\<lambda>c. let p = wo_contract_outpoint lib c; outs = tx_output (wo_contract_tx c) in
         if vout p < length outs then Some (p, script_pubkey (outs ! vout p)) else None)
       (concat (map snd (watchonly_swapcoins s)))"

definition outgoing_keys_for_swap :: "string \<Rightarrow> WalletStore \<Rightarrow> Txid list" where
  "outgoing_keys_for_swap swap_id s =
     map fst (filter (\<lambda>(_, c). out_swap_id c = Some swap_id) (outgoing_swapcoins s))"

definition incoming_keys_for_swap :: "string \<Rightarrow> WalletStore \<Rightarrow> Txid list" where
  "incoming_keys_for_swap swap_id s =
     map fst (filter (\<lambda>(_, c). in_swap_id c = Some swap_id) (incoming_swapcoins s))"

definition has_unsent_funding :: "string \<Rightarrow> WalletStore \<Rightarrow> bool" where
  "has_unsent_funding swap_id s =
     list_ex (\<lambda>(_, c). out_swap_id c = Some swap_id \<and> \<not> committed c) (outgoing_swapcoins s)"

text \<open>\<open>remove\<close> of each key in turn, collecting what was there.\<close>

fun take_entries :: "'k list \<Rightarrow> ('k \<times> 'v) list \<Rightarrow> ('k \<times> 'v) list \<times> ('k \<times> 'v) list" where
  "take_entries [] m = ([], m)"
| "take_entries (k # ks) m =
     (case map_of m k of
        None \<Rightarrow> take_entries ks (AList.delete k m)
      | Some v \<Rightarrow> (case take_entries ks (AList.delete k m) of (taken, m') \<Rightarrow> ((k, v) # taken, m')))"

definition extend_entries :: "('k \<times> 'v) list \<Rightarrow> ('k \<times> 'v) list \<Rightarrow> ('k \<times> 'v) list" where
  "extend_entries ps m = fold (\<lambda>(k, v). AList.update k v) ps m"

definition remove_swap_coins_and_save :: "wallet_env \<Rightarrow> string \<Rightarrow> bool \<Rightarrow> bool \<Rightarrow> unit wact" where
  "remove_swap_coins_and_save env swap_id remove_incoming remove_outgoing w =
     (let s = wstore w;
          (incoming, inc) = (if remove_incoming then take_entries (incoming_keys_for_swap swap_id s) (incoming_swapcoins s)
                             else ([], incoming_swapcoins s));
          (outgoing, out) = (if remove_outgoing then take_entries (outgoing_keys_for_swap swap_id s) (outgoing_swapcoins s)
                             else ([], outgoing_swapcoins s));
          watchonly = (if remove_outgoing then map_of (watchonly_swapcoins s) swap_id else None);
          wo = (if remove_outgoing then AList.delete swap_id (watchonly_swapcoins s) else watchonly_swapcoins s);
          reservation = map_of (swap_locks s) swap_id;
          w = w\<lparr>wstore := s\<lparr>incoming_swapcoins := inc, outgoing_swapcoins := out, watchonly_swapcoins := wo,
                 swap_locks := AList.delete swap_id (swap_locks s)\<rparr>\<rparr>
      in case save_to_disk env w of
           (Inr _, w) \<Rightarrow> (Inr (), w)
         | (Inl e, w) \<Rightarrow>
             (Inl e, on_store (\<lambda>s. s\<lparr>
               incoming_swapcoins := extend_entries incoming (incoming_swapcoins s),
               outgoing_swapcoins := extend_entries outgoing (outgoing_swapcoins s),
               watchonly_swapcoins := (case watchonly of
                   Some coins \<Rightarrow> AList.update swap_id coins (watchonly_swapcoins s) | None \<Rightarrow> watchonly_swapcoins s),
               swap_locks := (case reservation of
                   Some r \<Rightarrow> AList.update swap_id r (swap_locks s) | None \<Rightarrow> swap_locks s)\<rparr>) w))"

definition onchain_swap_ids :: "WalletStore \<Rightarrow> string set" where
  "onchain_swap_ids s =
     set (List.map_filter (\<lambda>(_, c). in_swap_id c) (incoming_swapcoins s)) \<union>
     set (List.map_filter (\<lambda>(_, c). out_swap_id c) (outgoing_swapcoins s)) \<union>
     set (map fst (watchonly_swapcoins s))"

definition swap_ids :: "WalletStore \<Rightarrow> string set" where
  "swap_ids s = onchain_swap_ids s \<union> set (ln_pending_swaps s) \<union> set (ln_maker_swaps s)"

definition find_unfinished_swapcoins :: "WalletStore \<Rightarrow> IncomingSwapCoin list \<times> OutgoingSwapCoin list" where
  "find_unfinished_swapcoins s = (map snd (incoming_swapcoins s), map snd (outgoing_swapcoins s))"

section \<open>Contract bindings\<close>

definition ensure_prevout_matches_cached_contract :: "OutPoint \<Rightarrow> ScriptBuf \<Rightarrow> WalletStore \<Rightarrow> wallet_error + unit" where
  "ensure_prevout_matches_cached_contract prevout spk s =
     (case map_of (prevout_to_contract_map s) prevout of
        Some cached \<Rightarrow>
          if cached = spk then Inr ()
          else Inl (WGeneral ''Provided contract does not match the cached sender contract'')
      | None \<Rightarrow> Inl (WGeneral ''No cached sender contract for funding prevout''))"

definition cache_prevout_to_contract :: "wallet_env \<Rightarrow> (OutPoint \<times> ScriptBuf) list \<Rightarrow> unit wact" where
  "cache_prevout_to_contract env bindings w =
     (if list_ex (\<lambda>(p, c). case map_of (prevout_to_contract_map (wstore w)) p of
                            Some cached \<Rightarrow> cached \<noteq> c | None \<Rightarrow> False) bindings
      then (Inl (WGeneral ''Refusing to rebind funding prevout to a different contract''), w)
      else save_to_disk env (on_store (\<lambda>s. s\<lparr>prevout_to_contract_map :=
             extend_entries bindings (prevout_to_contract_map s)\<rparr>) w))"

section \<open>Reserved inputs\<close>

definition is_swap_reserved :: "WalletStore \<Rightarrow> OutPoint \<Rightarrow> bool" where
  "is_swap_reserved s p = list_ex (\<lambda>(_, locks). p \<in> outpoints locks) (swap_locks s)"

definition reserve_swap_locks :: "u64 \<Rightarrow> string \<Rightarrow> OutPoint list \<Rightarrow> WalletStore \<Rightarrow> WalletStore" where
  "reserve_swap_locks now swap_key ps s =
     (let entry = (case map_of (swap_locks s) swap_key of
                     Some locks \<Rightarrow> locks | None \<Rightarrow> \<lparr>outpoints = {}, reserved_at = 0\<rparr>);
          entry = (if outpoints entry = {} then entry\<lparr>reserved_at := now\<rparr> else entry)
      in s\<lparr>swap_locks := AList.update swap_key (entry\<lparr>outpoints := outpoints entry \<union> set ps\<rparr>) (swap_locks s)\<rparr>)"

definition is_seed_coin :: "UTXOSpendInfo \<Rightarrow> bool" where
  "is_seed_coin i = (case i of SeedCoin _ _ _ \<Rightarrow> True | _ \<Rightarrow> False)"

definition is_swept_coin :: "UTXOSpendInfo \<Rightarrow> bool" where
  "is_swept_coin i = (case i of SweptCoin _ _ _ \<Rightarrow> True | _ \<Rightarrow> False)"

definition list_utxos :: "(UTXOSpendInfo \<Rightarrow> bool) \<Rightarrow> WalletStore \<Rightarrow> (ListUnspentResultEntry \<times> UTXOSpendInfo) list" where
  "list_utxos P s = filter (\<lambda>(_, i). P i) (map snd (utxo_cache s))"

definition list_descriptor_utxo_spend_info :: "WalletStore \<Rightarrow> (ListUnspentResultEntry \<times> UTXOSpendInfo) list" where
  "list_descriptor_utxo_spend_info = list_utxos is_seed_coin"

definition list_swept_incoming_swap_utxos :: "WalletStore \<Rightarrow> (ListUnspentResultEntry \<times> UTXOSpendInfo) list" where
  "list_swept_incoming_swap_utxos = list_utxos is_swept_coin"

definition list_live_timelock_contract_spend_info :: "WalletStore \<Rightarrow> (ListUnspentResultEntry \<times> UTXOSpendInfo) list" where
  "list_live_timelock_contract_spend_info =
     list_utxos (\<lambda>i. case i of TimelockContract _ _ \<Rightarrow> True | _ \<Rightarrow> False)"

definition list_fidelity_spend_info :: "WalletStore \<Rightarrow> (ListUnspentResultEntry \<times> UTXOSpendInfo) list" where
  "list_fidelity_spend_info = list_utxos (\<lambda>i. case i of FidelityBondCoin _ _ \<Rightarrow> True | _ \<Rightarrow> False)"

definition to_pool :: "world \<Rightarrow> (ListUnspentResultEntry \<times> UTXOSpendInfo) list \<Rightarrow> pool" where
  "to_pool w listing =
     filter (\<lambda>(p, _). p \<notin> locked_utxos w \<and> \<not> is_swap_reserved (wstore w) p)
       (map (\<lambda>(u, _). (u_outpoint u, u_amount u)) listing)"

definition plannable_pools :: "world \<Rightarrow> pool \<times> pool" where
  "plannable_pools w =
     (to_pool w (list_descriptor_utxo_spend_info (wstore w)),
      to_pool w (list_swept_incoming_swap_utxos (wstore w)))"

definition plannable_balance :: "world \<Rightarrow> Amount" where
  "plannable_balance w =
     (case plannable_pools w of (r, s) \<Rightarrow> max (wrapping_sum (map snd r)) (wrapping_sum (map snd s)))"

definition claim_swap_inputs :: "wallet_env \<Rightarrow> string \<Rightarrow> OutPoint list \<Rightarrow> world \<Rightarrow> bool \<times> world" where
  "claim_swap_inputs env swap_key inputs w =
     (let (r, s) = plannable_pools w; plannable = set (map fst (r @ s)) in
      if \<not> list_all (\<lambda>p. p \<in> plannable) inputs then (False, w)
      else (True, on_store (reserve_swap_locks (w_now env (wclock w)) swap_key inputs) w))"

definition claim_or_hold_swap_inputs :: "wallet_env \<Rightarrow> string \<Rightarrow> OutPoint list \<Rightarrow> world \<Rightarrow> bool \<times> world" where
  "claim_or_hold_swap_inputs env swap_key inputs w =
     (if (case map_of (swap_locks (wstore w)) swap_key of
            Some locks \<Rightarrow> list_all (\<lambda>p. p \<in> outpoints locks) inputs | None \<Rightarrow> False)
      then (True, w)
      else claim_swap_inputs env swap_key inputs w)"

definition release_swap_locks :: "string \<Rightarrow> OutPoint list option \<Rightarrow> WalletStore \<Rightarrow> bool \<times> WalletStore" where
  "release_swap_locks swap_key inputs s =
     (case inputs of
        None \<Rightarrow> (map_of (swap_locks s) swap_key \<noteq> None, s\<lparr>swap_locks := AList.delete swap_key (swap_locks s)\<rparr>)
      | Some inputs \<Rightarrow>
          let s = s\<lparr>utxo_cache := fold AList.delete inputs (utxo_cache s)\<rparr> in
          (case map_of (swap_locks s) swap_key of
             None \<Rightarrow> (False, s)
           | Some locks \<Rightarrow>
               let freed = list_ex (\<lambda>p. p \<in> outpoints locks) inputs;
                   left = outpoints locks - set inputs
               in (freed, s\<lparr>swap_locks :=
                    (if left = {} then AList.delete swap_key (swap_locks s)
                     else AList.update swap_key (locks\<lparr>outpoints := left\<rparr>) (swap_locks s))\<rparr>)))"

definition lock_utxos :: "OutPoint list \<Rightarrow> world \<Rightarrow> world" where
  "lock_utxos ps w = w\<lparr>locked_utxos := locked_utxos w \<union> set ps\<rparr>"

section \<open>What an output is\<close>

text \<open>Electrum keeps the scripts to watch and their key origins on the client; Core ignores both.\<close>

definition watch_script :: "wallet_env \<Rightarrow> ScriptBuf \<Rightarrow> HdOrigin option \<Rightarrow> world \<Rightarrow> world" where
  "watch_script env script origin w =
     (if s_is_electrum (w_sync env)
      then w\<lparr>watched := insert script (watched w),
             hd_paths := (case origin of Some path \<Rightarrow> AList.update script path (hd_paths w) | None \<Rightarrow> hd_paths w)\<rparr>
      else w)"

definition hd_origin_for_script :: "world \<Rightarrow> ScriptBuf \<Rightarrow> HdOrigin option" where
  "hd_origin_for_script w script = map_of (hd_paths w) script"

definition show_int :: "int \<Rightarrow> string" where
  "show_int i = (if i < 0 then ''-'' @ show_nat (nat (- i)) else show_nat (nat i))"

text \<open>Slicing from after the bracket to before the closing one panics when they are out of order.\<close>

definition get_hd_path_from_descriptor :: "string \<Rightarrow> wallet_error + (string \<times> u32 \<times> int) option" where
  "get_hd_path_from_descriptor descriptor =
     (case (str_find (CHR ''['') descriptor, str_find (CHR '']'') descriptor) of
        (Some opn, Some cls) \<Rightarrow>
          if cls < opn + 1 then Inl WPanic
          else
            let path_chunks = split_on (CHR ''/'') (take (cls - (opn + 1)) (drop (opn + 1) descriptor)) in
            if length path_chunks \<noteq> 3 then Inr None
            else (case (parse_num_u32 (path_chunks ! 1), parse_num_i32 (path_chunks ! 2)) of
                    (Some addr_type, Some idx) \<Rightarrow> Inr (Some (path_chunks ! 0, addr_type, idx))
                  | _ \<Rightarrow> Inr None)
      | _ \<Rightarrow> Inr None)"

definition descriptor_type :: "string \<Rightarrow> AddressType" where
  "descriptor_type d = (if starts_with ''tr('' d then P2TR else P2WPKH)"

definition origin_type :: "HdOrigin \<Rightarrow> AddressType" where
  "origin_type origin = (if is_taproot origin then P2TR else P2WPKH)"

definition origin_path :: "HdOrigin \<Rightarrow> string" where
  "origin_path origin = ''m/'' @ show_nat (keychain_idx origin) @ ''/'' @ show_nat (hd_index origin)"

fun check_if_fidelity :: "bitcoin_lib \<Rightarrow> FidelityBond list \<Rightarrow> ListUnspentResultEntry \<Rightarrow> wallet_error + UTXOSpendInfo option" where
  "check_if_fidelity lib [] u = Inr None"
| "check_if_fidelity lib (bond # bonds) u =
     (case fb_script_pub_key lib bond of
        Inl e \<Rightarrow> Inl WPanic
      | Inr spk \<Rightarrow>
          if spk = u_script_pub_key u \<and> fb_amount bond = u_amount u
          then Inr (Some (FidelityBondCoin (fb_index bond) (fb_amount bond)))
          else check_if_fidelity lib bonds u)"

definition check_if_swept_incoming_swapcoin ::
  "(ScriptBuf \<Rightarrow> HdOrigin option) \<Rightarrow> WalletStore \<Rightarrow> ListUnspentResultEntry \<Rightarrow> wallet_error + UTXOSpendInfo option" where
  "check_if_swept_incoming_swapcoin origins s u =
     (if u_script_pub_key u \<notin> swept_incoming_swapcoins s then Inr None
      else
        res_bind (case u_descriptor u of None \<Rightarrow> Inr None | Some d \<Rightarrow> get_hd_path_from_descriptor d) (\<lambda>origin.
        case origin of
          Some (_, addr_type, idx) \<Rightarrow>
            Inr (Some (SweptCoin (''m/'' @ show_nat addr_type @ ''/'' @ show_int idx) (u_amount u)
              (descriptor_type (the (u_descriptor u)))))
        | None \<Rightarrow>
            Inr (map_option (\<lambda>origin. SweptCoin (origin_path origin) (u_amount u) (origin_type origin))
              (origins (u_script_pub_key u)))))"

definition in_is_preimage_known :: "IncomingSwapCoin \<Rightarrow> bool" where
  "in_is_preimage_known c = (in_hash_preimage c \<noteq> None)"

definition check_and_derive_live_contract_spend_info ::
  "bitcoin_lib \<Rightarrow> WalletStore \<Rightarrow> ListUnspentResultEntry \<Rightarrow> UTXOSpendInfo option" where
  "check_and_derive_live_contract_spend_info lib s u =
     (let redeem = (\<lambda>r. case r of Some x \<Rightarrow> x | None \<Rightarrow> []) in
      case find (\<lambda>(_, c). u_txid u = compute_txid lib (out_contract_tx c) \<and>
                   u_vout u = out_get_contract_output_vout c) (outgoing_swapcoins s) of
        Some (_, c) \<Rightarrow> Some (TimelockContract (redeem (out_contract_redeemscript c)) (u_amount u))
      | None \<Rightarrow>
          map_option (\<lambda>(_, c). HashlockContract (redeem (in_contract_redeemscript c)) (u_amount u))
            (find (\<lambda>(_, c). u_txid u = compute_txid lib (in_contract_tx c) \<and>
                     u_vout u = in_get_contract_output_vout c \<and> in_is_preimage_known c)
               (incoming_swapcoins s)))"

definition match_rs :: "bitcoin_lib \<Rightarrow> ScriptBuf \<Rightarrow> PublicKey option \<Rightarrow> PublicKey option \<Rightarrow> ScriptBuf option" where
  "match_rs lib spk my other =
     (case (my, other) of
        (Some m, Some t) \<Rightarrow>
          let rs = create_multisig_redeemscript lib m t in
          if to_p2wsh lib rs = spk then Some rs else None
      | _ \<Rightarrow> None)"

definition match_swap_coin :: "bitcoin_lib \<Rightarrow> WalletStore \<Rightarrow> ScriptBuf \<Rightarrow> UTXOSpendInfo option" where
  "match_swap_coin lib s spk =
     (case find_map (\<lambda>(_, c). if in_protocol c = Legacy \<and> in_other_privkey c \<noteq> None
                              then match_rs lib spk (in_my_pubkey c) (in_other_pubkey c) else None)
             (incoming_swapcoins s) of
        Some rs \<Rightarrow> Some (IncomingCoin rs)
      | None \<Rightarrow>
          map_option OutgoingCoin
            (find_map (\<lambda>(_, c). if out_protocol c = Legacy \<and> out_hash_preimage c \<noteq> None
                                then match_rs lib spk (out_my_pubkey c) (out_other_pubkey c) else None)
               (outgoing_swapcoins s)))"

text \<open>The last branch: the descriptor of Bitcoin Core, with a key origin or as one of our swap coins.\<close>

definition derive_from_descriptor ::
  "wallet_env \<Rightarrow> WalletStore \<Rightarrow> ListUnspentResultEntry \<Rightarrow> string \<Rightarrow> wallet_error + UTXOSpendInfo option" where
  "derive_from_descriptor env s u d =
     res_bind (get_hd_path_from_descriptor d) (\<lambda>r. case r of
       Some (fp, addr_type, idx) \<Rightarrow>
         res_bind (w_account_fingerprint env (descriptor_type d)) (\<lambda>account.
         Inr (if fp = account
              then Some (SeedCoin (''m/'' @ show_nat addr_type @ ''/'' @ show_int idx) (u_amount u) (descriptor_type d))
              else None))
     | None \<Rightarrow>
         let script = (case u_witness_script u of Some ws \<Rightarrow> ws | None \<Rightarrow> []) in
         if (case find_incoming_swapcoin_by_multisig (w_lib env) script s of
               Some c \<Rightarrow> in_other_privkey c \<noteq> None | None \<Rightarrow> False)
         then (case u_witness_script u of Some ws \<Rightarrow> Inr (Some (IncomingCoin ws)) | None \<Rightarrow> Inl WPanic)
         else if (case find_outgoing_swapcoin_by_multisig (w_lib env) script s of
               Some c \<Rightarrow> out_hash_preimage c \<noteq> None | None \<Rightarrow> False)
         then (case u_witness_script u of Some ws \<Rightarrow> Inr (Some (OutgoingCoin ws)) | None \<Rightarrow> Inl WPanic)
         else Inr None)"

definition check_and_derive_descriptor_utxo_or_swap_coin ::
  "wallet_env \<Rightarrow> (ScriptBuf \<Rightarrow> HdOrigin option) \<Rightarrow> WalletStore \<Rightarrow> ListUnspentResultEntry \<Rightarrow> wallet_error + UTXOSpendInfo option" where
  "check_and_derive_descriptor_utxo_or_swap_coin env origins s u =
     res_bind (check_if_swept_incoming_swapcoin origins s u) (\<lambda>swept. case swept of
       Some i \<Rightarrow> Inr (Some i)
     | None \<Rightarrow>
     res_bind (case origins (u_script_pub_key u) of
                 None \<Rightarrow> Inr None
               | Some origin \<Rightarrow>
                   res_bind (w_account_fingerprint env (origin_type origin)) (\<lambda>account.
                   Inr (if fingerprint origin = account
                        then Some (SeedCoin (origin_path origin) (u_amount u) (origin_type origin)) else None)))
       (\<lambda>seed. case seed of
         Some i \<Rightarrow> Inr (Some i)
       | None \<Rightarrow>
         (case (if u_witness_script u = None then match_swap_coin (w_lib env) s (u_script_pub_key u) else None) of
            Some i \<Rightarrow> Inr (Some i)
          | None \<Rightarrow>
              (case u_descriptor u of
                 None \<Rightarrow> Inr None
               | Some d \<Rightarrow> derive_from_descriptor env s u d))))"

section \<open>The output cache\<close>

definition spend_info_of ::
  "wallet_env \<Rightarrow> (ScriptBuf \<Rightarrow> HdOrigin option) \<Rightarrow> WalletStore \<Rightarrow> ListUnspentResultEntry \<Rightarrow> wallet_error + UTXOSpendInfo option" where
  "spend_info_of env origins s u =
     res_bind (check_if_fidelity (w_lib env) (fidelity_bonds s) u) (\<lambda>f.
     case (case f of Some i \<Rightarrow> Some i | None \<Rightarrow> check_and_derive_live_contract_spend_info (w_lib env) s u) of
       Some i \<Rightarrow> Inr (Some i)
     | None \<Rightarrow> check_and_derive_descriptor_utxo_or_swap_coin env origins s u)"

text \<open>
  The loop over the listed outputs: a cached one keeps its amount, script and spend info and
  takes the rest of the new listing; another is classified and inserted after the loop.
\<close>

fun refresh_utxos ::
  "wallet_env \<Rightarrow> (ScriptBuf \<Rightarrow> HdOrigin option) \<Rightarrow> ListUnspentResultEntry list \<Rightarrow> (OutPoint \<times> (ListUnspentResultEntry \<times> UTXOSpendInfo)) list \<Rightarrow>
   WalletStore \<Rightarrow>
   (wallet_error + (OutPoint \<times> (ListUnspentResultEntry \<times> UTXOSpendInfo)) list) \<times> WalletStore" where
  "refresh_utxos env origins [] new s = (Inr new, s)"
| "refresh_utxos env origins (u # us) new s =
     (case map_of (utxo_cache s) (u_outpoint u) of
        Some (cached, info) \<Rightarrow>
          refresh_utxos env origins us new (s\<lparr>utxo_cache := AList.update (u_outpoint u)
            (u\<lparr>u_amount := u_amount cached, u_script_pub_key := u_script_pub_key cached\<rparr>, info) (utxo_cache s)\<rparr>)
      | None \<Rightarrow>
          (case spend_info_of env origins s u of
             Inl e \<Rightarrow> (Inl e, s)
           | Inr None \<Rightarrow> refresh_utxos env origins us new s
           | Inr (Some info) \<Rightarrow> refresh_utxos env origins us (new @ [(u_outpoint u, (u, info))]) s))"

definition update_utxo_cache :: "wallet_env \<Rightarrow> ListUnspentResultEntry list \<Rightarrow> unit wact" where
  "update_utxo_cache env us w =
     (let existing = set (map u_outpoint us); s = wstore w;
          s = s\<lparr>utxo_cache := fold AList.delete (filter (\<lambda>p. p \<notin> existing) (map fst (utxo_cache s))) (utxo_cache s)\<rparr>
      in case refresh_utxos env (hd_origin_for_script w) us [] s of
           (Inl e, s) \<Rightarrow> (Inl e, w\<lparr>wstore := s\<rparr>)
         | (Inr new, s) \<Rightarrow> (Inr (), w\<lparr>wstore := s\<lparr>utxo_cache := extend_entries new (utxo_cache s)\<rparr>\<rparr>))"

fun unclassified :: "wallet_env \<Rightarrow> (ScriptBuf \<Rightarrow> HdOrigin option) \<Rightarrow> WalletStore \<Rightarrow> ListUnspentResultEntry list \<Rightarrow> wallet_error + OutPoint list" where
  "unclassified env origins s [] = Inr []"
| "unclassified env origins s (u # us) =
     res_bind (check_and_derive_descriptor_utxo_or_swap_coin env origins s u) (\<lambda>i.
     res_bind (unclassified env origins s us) (\<lambda>rest. Inr (if i = None then u_outpoint u # rest else rest)))"

definition list_unspent :: "wallet_env \<Rightarrow> ListUnspentResultEntry list wact" where
  "list_unspent env w = tick env (\<lambda>t. s_list_unspent (w_sync env) t (watched w)) w"

definition lock_unspendable_utxos :: "wallet_env \<Rightarrow> unit wact" where
  "lock_unspendable_utxos env =
     bnd (modify (\<lambda>w. w\<lparr>locked_utxos := {}\<rparr>)) (\<lambda>_.
     bnd (list_unspent env) (\<lambda>all_unspents.
     bnd (gets (\<lambda>w. unclassified env (hd_origin_for_script w) (wstore w) all_unspents)) (\<lambda>r.
     bnd (liftR r) (\<lambda>utxos_to_lock. modify (lock_utxos utxos_to_lock)))))"

record Balances =
  regular :: Amount
  swap_balance :: Amount
  contract_balance :: Amount
  fidelity_balance :: Amount
  spendable :: Amount

text \<open>Adding amounts past the range of \<open>u64\<close> panics.\<close>

definition amount_sum :: "(ListUnspentResultEntry \<times> UTXOSpendInfo) list \<Rightarrow> wallet_error + Amount" where
  "amount_sum us = foldl (\<lambda>r (u, _). res_bind r (\<lambda>a. ok_or (checked_add a (u_amount u)) WPanic)) (Inr 0) us"

definition get_balances :: "WalletStore \<Rightarrow> wallet_error + Balances" where
  "get_balances s =
     res_bind (amount_sum (list_descriptor_utxo_spend_info s)) (\<lambda>r.
     res_bind (amount_sum (list_live_timelock_contract_spend_info s)) (\<lambda>c.
     res_bind (amount_sum (list_swept_incoming_swap_utxos s)) (\<lambda>sw.
     res_bind (amount_sum (list_fidelity_spend_info s)) (\<lambda>f.
     res_bind (ok_or (checked_add r sw) WPanic) (\<lambda>sp.
     Inr \<lparr>regular = r, swap_balance = sw, contract_balance = c, fidelity_balance = f, spendable = sp\<rparr>)))))"

text \<open>The change index advances when addresses are handed out, before the write.\<close>

definition get_next_internal_addresses :: "wallet_env \<Rightarrow> u32 \<Rightarrow> AddressType \<Rightarrow> ScriptBuf list wact" where
  "get_next_internal_addresses env how_many address_type w =
     (if how_many = 0 then (Inr [], w)
      else
        let start = internal_index (wstore w) in
          bnd (tick env (\<lambda>t. w_derive_addresses env t address_type Internal start ((start + how_many - 1) mod (u32_max + 1)))) (\<lambda>addresses.
          bnd (modify (on_store (\<lambda>s. s\<lparr>internal_index := (start + how_many) mod (u32_max + 1)\<rparr>))) (\<lambda>_.
          seq (save_to_disk env) (ret addresses))) w)"

end
