(* ===== verification/Sync.thy ===== *)
theory Sync
  imports Store
begin

text \<open>
  Synchronising the wallet with its backend and waiting for confirmations (\<open>wallet/api.rs\<close>).
  Time is explicit: a call takes the time the environment gives it, a sleep at least its
  duration. The loops that retry until the backend recovers or a shutdown comes run on fuel
  and end in \<open>WDiverged\<close> when it is spent; the wait for confirmations needs none, for its
  deadline bounds it.
\<close>

section \<open>Shutdown and sleep\<close>

definition NANOS :: nat where "NANOS = 1000000000"
definition HEART_BEAT_INTERVAL :: nat where "HEART_BEAT_INTERVAL = 3"
definition TX_BROADCAST_TIMEOUT :: nat where "TX_BROADCAST_TIMEOUT = 300"
definition TX_CONFIRMATION_TIMEOUT :: nat where "TX_CONFIRMATION_TIMEOUT = 7200"
definition ADDRESS_IMPORT_COUNT :: u32 where "ADDRESS_IMPORT_COUNT = 20"
definition MAX_SYNC_PASSES :: nat where "MAX_SYNC_PASSES = 100"
definition MAX_WATCH_WINDOW :: u32 where "MAX_WATCH_WINDOW = 100000"

definition sleep_second :: "wallet_env \<Rightarrow> unit wact" where
  "sleep_second env w = (Inr (), (elapse env w)\<lparr>wtime := wtime w + NANOS + w_delay env (wclock w)\<rparr>)"

definition check_shutdown :: "wallet_env \<Rightarrow> unit wact" where
  "check_shutdown env =
     tick env (\<lambda>t. if w_shutdown env t then Inl (WInterrupted ''Shutdown requested'') else Inr ())"

fun wait_for_shutdown :: "wallet_env \<Rightarrow> nat \<Rightarrow> unit wact" where
  "wait_for_shutdown env 0 = check_shutdown env"
| "wait_for_shutdown env (Suc remaining) =
     seq (check_shutdown env) (seq (sleep_second env) (wait_for_shutdown env remaining))"

text \<open>The flag and the closure of a wait are optional.\<close>

definition check_interrupts :: "wallet_env \<Rightarrow> bool \<Rightarrow> (nat \<Rightarrow> bool) option \<Rightarrow> unit wact" where
  "check_interrupts env shutdown abort_check =
     seq (on_cond shutdown (check_shutdown env))
       (case abort_check of
          None \<Rightarrow> ret ()
        | Some f \<Rightarrow> tick env (\<lambda>t. if f t then Inl (WInterrupted ''Abort requested'') else Inr ()))"

fun pause_between_polls :: "wallet_env \<Rightarrow> bool \<Rightarrow> (nat \<Rightarrow> bool) option \<Rightarrow> nat \<Rightarrow> unit wact" where
  "pause_between_polls env shutdown abort_check 0 = ret ()"
| "pause_between_polls env shutdown abort_check (Suc secs) =
     seq (check_interrupts env shutdown abort_check)
       (seq (sleep_second env) (pause_between_polls env shutdown abort_check secs))"

section \<open>Waiting for confirmations\<close>

definition SYNC_INTERVAL_SECS :: nat where "SYNC_INTERVAL_SECS = 10"
definition MEMPOOL_RECHECK :: nat where "MEMPOOL_RECHECK = 60"

record wait_state =
  unseen :: "Txid list"
  vanished_at :: "(Txid \<times> nat) list"
  last_tip :: "u64 option"
  last_read :: "nat option"

definition now_instant :: "wallet_env \<Rightarrow> nat wact" where
  "now_instant env w = (Inr (wtime w), elapse env w)"

definition query :: "wallet_env \<Rightarrow> (chain_view \<Rightarrow> nat \<Rightarrow> wallet_error + 'a) \<Rightarrow> 'a wact" where
  "query env f = tick env (f (w_chain env))"

definition ask_query :: "wallet_env \<Rightarrow> (chain_view \<Rightarrow> nat \<Rightarrow> wallet_error + 'a) \<Rightarrow> (wallet_error + 'a) wact" where
  "ask_query env f = attempt (query env f)"

text \<open>One transaction of a poll: what is still unseen, whether all are confirmed, the greatest height.\<close>

definition poll_tx ::
  "wallet_env \<Rightarrow> u32 \<Rightarrow> nat \<Rightarrow> Txid \<Rightarrow> wait_state \<times> bool \<times> u32 \<Rightarrow> (wait_state \<times> bool \<times> u32) wact" where
  "poll_tx env required_confirms arrival_timeout id_tx acc = (case acc of (st, all_confirmed, max_height) \<Rightarrow>
     bnd (ask_query env (\<lambda>c t. c_raw_transaction_info c t id_tx)) (\<lambda>r. case r of
       Inr info \<Rightarrow>
         let confirms = (case ti_confirmations info of Some n \<Rightarrow> n | None \<Rightarrow> 0);
             st = st\<lparr>unseen := removeAll id_tx (unseen st)\<rparr> in
         if confirms < required_confirms then ret (st, False, max_height)
         else bnd (query env (\<lambda>c t. c_tx_block_height c t id_tx)) (\<lambda>h. case h of
           None \<Rightarrow> fail (WGeneral ''Confirmed transaction has no block height'')
         | Some height \<Rightarrow> ret (st, all_confirmed, max max_height (height mod (u32_max + 1))))
     | Inl e \<Rightarrow>
         if id_tx \<in> set (unseen st) then ret (st, False, max_height)
         else
           bnd (now_instant env) (\<lambda>now.
           let since = (case map_of (vanished_at st) id_tx of Some since \<Rightarrow> since | None \<Rightarrow> now);
               st = st\<lparr>vanished_at := AList.update id_tx since (vanished_at st)\<rparr> in
           bnd (now_instant env) (\<lambda>now.
           if arrival_timeout * NANOS < now - since
           then fail (WTxConfirmationTimeout ''Tx vanished from our mempool and did not reappear'')
           else ret (st, False, max_height)))))"

fun absent_everywhere :: "wallet_env \<Rightarrow> Txid list \<Rightarrow> bool wact" where
  "absent_everywhere env [] = ret True"
| "absent_everywhere env (id_tx # missing) =
     bnd (ask_query env (\<lambda>c t. c_is_tx_unknown c t id_tx)) (\<lambda>r. case r of
       Inr True \<Rightarrow> absent_everywhere env missing
     | _ \<Rightarrow> ret False)"

definition report_missing :: "wallet_env \<Rightarrow> Txid list \<Rightarrow> 'a wact" where
  "report_missing env still_unseen =
     (let missing = sort still_unseen in
      bnd (absent_everywhere env missing) (\<lambda>confirmed_absent.
      if confirmed_absent then fail (WTxNeverBroadcast missing)
      else fail (WTxConfirmationTimeout ''Tx did not reach our mempool before the broadcast timeout'')))"

text \<open>
  One round of the loop: \<open>Inr (Inr height)\<close> ends the wait, \<open>Inr (Inl st)\<close> goes on after the pause.
\<close>

definition poll_round ::
  "wallet_env \<Rightarrow> Txid list \<Rightarrow> u32 \<Rightarrow> nat \<Rightarrow> bool \<Rightarrow> (nat \<Rightarrow> bool) option \<Rightarrow> nat \<Rightarrow> wait_state \<Rightarrow>
   (wait_state + u32) wact" where
  "poll_round env txids required_confirms arrival_timeout shutdown abort_check started st =
     seq (check_interrupts env shutdown abort_check)
     (bnd (now_instant env) (\<lambda>now.
      if TX_CONFIRMATION_TIMEOUT * NANOS < now - started
      then fail (WTxConfirmationTimeout ''Tx did not confirm before the confirmation deadline'')
      else
        bnd (ask_query env (\<lambda>c t. c_block_count c t)) (\<lambda>r.
        let tip = (case r of Inr n \<Rightarrow> Some n | Inl e \<Rightarrow> None) in
        bnd (now_instant env) (\<lambda>now.
        if unseen st = [] \<and> vanished_at st = [] \<and> tip \<noteq> None \<and> tip = last_tip st \<and>
           (case last_read st of Some since \<Rightarrow> now - since < MEMPOOL_RECHECK * NANOS | None \<Rightarrow> False)
        then seq (pause_between_polls env shutdown abort_check SYNC_INTERVAL_SECS) (ret (Inl st))
        else
          bnd (now_instant env) (\<lambda>now.
          let st = st\<lparr>last_tip := tip, last_read := Some now\<rparr> in
          bnd (fold_act txids (poll_tx env required_confirms arrival_timeout) (st, True, 0))
            (\<lambda>(st, all_confirmed, max_height).
          bnd (now_instant env) (\<lambda>now.
          if unseen st \<noteq> [] \<and> arrival_timeout * NANOS < now - started then report_missing env (unseen st)
          else if all_confirmed then ret (Inr max_height)
          else seq (pause_between_polls env shutdown abort_check SYNC_INTERVAL_SECS) (ret (Inl st)))))))))"

text \<open>
  The deadline bounds the loop: a round that goes on has slept, so the elapsed time grows.
\<close>

function wait_rounds ::
  "wallet_env \<Rightarrow> Txid list \<Rightarrow> u32 \<Rightarrow> nat \<Rightarrow> bool \<Rightarrow> (nat \<Rightarrow> bool) option \<Rightarrow> nat \<Rightarrow> wait_state \<Rightarrow> world \<Rightarrow>
   (wallet_error + u32) \<times> world" where
  "wait_rounds env txids required_confirms arrival_timeout shutdown abort_check started st w =
     (case poll_round env txids required_confirms arrival_timeout shutdown abort_check started st w of
        (Inl e, w) \<Rightarrow> (Inl e, w)
      | (Inr (Inr height), w) \<Rightarrow> (Inr height, w)
      | (Inr (Inl st), w) \<Rightarrow>
          wait_rounds env txids required_confirms arrival_timeout shutdown abort_check started st w)"
  by pat_completeness auto


definition later :: "world \<Rightarrow> world \<Rightarrow> bool" where
  "later w w' \<longleftrightarrow> wtime w \<le> wtime w'"

named_theorems later_steps \<open>no operation sets the clock back\<close>

lemma later_rules:
  shows later_refl: "reflp later" and later_trans: "transp later"
  by (auto simp: later_def reflp_def transp_def)

lemma steps_tick_later [later_steps]: "steps later (tick env f)"
  by (simp add: steps_def tick_def elapse_def later_def)

lemma steps_now_later [later_steps]: "steps later (now_instant env)"
  by (simp add: steps_def now_instant_def elapse_def later_def)

lemma steps_sleep_later [later_steps]: "steps later (sleep_second env)"
  by (simp add: steps_def sleep_second_def elapse_def later_def)

lemma steps_query_later [later_steps]: "steps later (query env f)" "steps later (ask_query env f)"
  by (auto simp: query_def ask_query_def intro: later_steps steps_attempt)

lemma steps_interrupts_later [later_steps]: "steps later (check_interrupts env sd ab)"
  by (auto simp: check_interrupts_def check_shutdown_def split: option.split
      intro!: steps_intros later_rules later_steps)

lemma steps_poll_tx_later [later_steps]: "steps later (poll_tx env n tmo x acc)"
  by (auto simp: poll_tx_def Let_def split: prod.split sum.split option.split
      intro!: steps_intros later_rules later_steps)

lemma steps_absent_later [later_steps]: "steps later (absent_everywhere env xs)"
  by (induction xs) (auto split: sum.split bool.split intro!: steps_intros later_rules later_steps)

lemma pause_sleeps:
  "pause_between_polls env sd ab n w = (Inr (), w') \<Longrightarrow> wtime w + n * NANOS \<le> wtime w'"
proof (induction n arbitrary: w)
  case 0
  then show ?case by (simp add: ret_def)
next
  case (Suc n)
  from Suc.prems obtain w1 w2 where
    a: "check_interrupts env sd ab w = (Inr (), w1)" and b: "sleep_second env w1 = (Inr (), w2)"
    and c: "pause_between_polls env sd ab n w2 = (Inr (), w')"
    by (auto simp: seq_def bnd_eq_Inr)
  have "wtime w \<le> wtime w1" using stepsD[OF steps_interrupts_later a] by (simp add: later_def)
  moreover have "wtime w1 + NANOS \<le> wtime w2" using b by (auto simp: sleep_second_def)
  ultimately show ?case using Suc.IH[OF c] by simp
qed

text \<open>\<open>pauses m\<close>: when \<open>m\<close> asks for another round, it has slept the interval.\<close>

definition pauses :: "('a + 'b) wact \<Rightarrow> bool" where
  "pauses m \<longleftrightarrow> (\<forall>w x w'. m w = (Inr (Inl x), w') \<longrightarrow> wtime w + SYNC_INTERVAL_SECS * NANOS \<le> wtime w')"

lemma pauses_bnd: "steps later m \<Longrightarrow> (\<And>x. pauses (f x)) \<Longrightarrow> pauses (bnd m f)"
  unfolding pauses_def bnd_eq_Inr using stepsD[of later m] by (fastforce simp: later_def)

lemma pauses_pause: "pauses (seq (pause_between_polls env sd ab SYNC_INTERVAL_SECS) (ret x))"
  by (auto simp: pauses_def seq_def bnd_eq_Inr ret_def dest: pause_sleeps)

lemma pauses_done: "pauses (fail e)" "pauses (ret (Inr x))"
  by (simp_all add: pauses_def fail_def ret_def)

lemma pauses_missing: "pauses (report_missing env xs)"
  by (auto simp: report_missing_def Let_def intro!: pauses_bnd pauses_done later_steps)

lemma steps_polls_later [later_steps]: "steps later (fold_act txids (poll_tx env n tmo) acc)"
  by (intro steps_intros later_rules later_steps)

lemmas pauses_rules = pauses_bnd pauses_pause pauses_done pauses_missing later_steps

lemma poll_round_pauses: "pauses (poll_round env txids n tmo sd ab started st)"
  unfolding poll_round_def seq_def[of "check_interrupts env sd ab"] Let_def
  by (auto intro!: pauses_rules split: prod.split)

lemma poll_round_progress:
  assumes "poll_round env txids n tmo sd ab started st w = (Inr (Inl st'), w')"
  shows "wtime w \<le> started + TX_CONFIRMATION_TIMEOUT * NANOS" and "wtime w + SYNC_INTERVAL_SECS * NANOS \<le> wtime w'"
proof -
  obtain w1 where a: "check_interrupts env sd ab w = (Inr (), w1)"
    and now: "\<not> TX_CONFIRMATION_TIMEOUT * NANOS < wtime w1 - started"
    using assms unfolding poll_round_def seq_def[of "check_interrupts env sd ab"]
    by (auto simp: bnd_eq_Inr now_instant_def fail_def split: if_splits)
  show "wtime w \<le> started + TX_CONFIRMATION_TIMEOUT * NANOS"
    using stepsD[OF steps_interrupts_later a] now by (simp add: later_def)
  show "wtime w + SYNC_INTERVAL_SECS * NANOS \<le> wtime w'"
    using poll_round_pauses assms unfolding pauses_def by blast
qed

termination wait_rounds
proof (relation "measure (\<lambda>(env, txids, n, tmo, sd, ab, started, st, w).
    Suc (started + TX_CONFIRMATION_TIMEOUT * NANOS) - wtime w)", goal_cases)
  case 1
  then show ?case by simp
next
  case (2 env txids n tmo sd ab started st w x w' r st')
  then have "poll_round env txids n tmo sd ab started st w = (Inr (Inl st'), w')" by simp
  from poll_round_progress[OF this] show ?case by (simp add: SYNC_INTERVAL_SECS_def NANOS_def)
qed

declare wait_rounds.simps [simp del]

definition wait_for_tx_confirmation ::
  "wallet_env \<Rightarrow> Txid list \<Rightarrow> u32 \<Rightarrow> nat \<Rightarrow> bool \<Rightarrow> (nat \<Rightarrow> bool) option \<Rightarrow> u32 wact" where
  "wait_for_tx_confirmation env txids required_confirms arrival_timeout shutdown abort_check =
     (if required_confirms = 0 \<or> txids = [] then ret 0
      else bnd (now_instant env) (\<lambda>started.
        wait_rounds env txids required_confirms arrival_timeout shutdown abort_check started
          \<lparr>unseen = remdups txids, vanished_at = [], last_tip = None, last_read = None\<rparr>))"

section \<open>The watch window\<close>

fun index_num :: "KeychainKind \<Rightarrow> u32" where
  "index_num External = 0"
| "index_num Internal = 1"

definition as_i32 :: "u32 \<Rightarrow> int" where
  "as_i32 n = (if n < 2147483648 then int n else int n - 4294967296)"

definition hd_position :: "world \<Rightarrow> ListUnspentResultEntry \<Rightarrow> wallet_error + (u32 \<times> int) option" where
  "hd_position w u =
     (case u_descriptor u of
        Some d \<Rightarrow> res_bind (get_hd_path_from_descriptor d) (\<lambda>r. Inr (map_option (\<lambda>(_, kc, i). (kc, i)) r))
      | None \<Rightarrow> Inr (map_option (\<lambda>origin. (keychain_idx origin, as_i32 (hd_index origin)))
                    (hd_origin_for_script w (u_script_pub_key u))))"

definition list_swap_coin_utxo_spend_info :: "WalletStore \<Rightarrow> (ListUnspentResultEntry \<times> UTXOSpendInfo) list" where
  "list_swap_coin_utxo_spend_info =
     list_utxos (\<lambda>i. case i of IncomingCoin _ \<Rightarrow> True | OutgoingCoin _ \<Rightarrow> True | _ \<Rightarrow> False)"

definition max_used_index :: "world \<Rightarrow> KeychainKind \<Rightarrow> wallet_error + int" where
  "max_used_index w keychain =
     foldl (\<lambda>acc (u, _). res_bind acc (\<lambda>max_index.
        res_bind (hd_position w u) (\<lambda>r. Inr (case r of
            Some (kc_idx, index) \<Rightarrow> if kc_idx = index_num keychain then max max_index index else max_index
          | None \<Rightarrow> max_index))))
       (Inr (- 1)) (list_descriptor_utxo_spend_info (wstore w) @ list_swap_coin_utxo_spend_info (wstore w))"

fun has_history :: "wallet_env \<Rightarrow> KeychainKind \<Rightarrow> u32 \<Rightarrow> AddressType list \<Rightarrow> bool wact" where
  "has_history env keychain probe [] = ret False"
| "has_history env keychain probe (address_type # accounts) =
     bnd (liftR (s_child_script (w_sync env) address_type keychain probe)) (\<lambda>script.
     bnd (tick env (\<lambda>t. s_script_has_history (w_sync env) t script)) (\<lambda>found.
     if found then ret True else has_history env keychain probe accounts))"

text \<open>The probe past the last output found: it ends on a full empty run or at the window's cap.\<close>

function probe_history ::
  "wallet_env \<Rightarrow> KeychainKind \<Rightarrow> u32 \<Rightarrow> u32 \<Rightarrow> u32 \<Rightarrow> u32 \<Rightarrow> world \<Rightarrow> (wallet_error + u32 \<times> u32) \<times> world" where
  "probe_history env keychain gap nxt empty_run probe w =
     (if empty_run < gap \<and> probe \<le> MAX_WATCH_WINDOW then
        (case has_history env keychain probe [P2WPKH, P2TR] w of
           (Inl e, w) \<Rightarrow> (Inl e, w)
         | (Inr True, w) \<Rightarrow> probe_history env keychain gap (probe + 1) 0 (probe + 1) w
         | (Inr False, w) \<Rightarrow> probe_history env keychain gap nxt (empty_run + 1) (probe + 1) w)
      else (Inr (nxt, empty_run), w))"
  by pat_completeness auto
termination
  by (relation "measure (\<lambda>(env, k, gap, nxt, e, probe, w). Suc MAX_WATCH_WINDOW - probe)") auto

declare probe_history.simps [simp del]

definition find_hd_next_index :: "wallet_env \<Rightarrow> KeychainKind \<Rightarrow> u32 wact" where
  "find_hd_next_index env keychain =
     bnd (gets (\<lambda>w. max_used_index w keychain)) (\<lambda>r.
     bnd (liftR r) (\<lambda>max_index.
     let nxt = nat ((max_index + 1) mod 4294967296) in
     bnd (gets (\<lambda>w. pending_restore (wstore w))) (\<lambda>restore. case restore of
       None \<Rightarrow> ret nxt
     | Some options \<Rightarrow>
         bnd (liftR (w_account_fingerprint env P2WPKH)) (\<lambda>_.
         bnd (liftR (w_account_fingerprint env P2TR)) (\<lambda>_.
         bnd (probe_history env keychain (address_gap options) nxt 0 nxt) (\<lambda>(nxt, empty_run).
         if empty_run < address_gap options
         then fail (WWatchWindowCap (saturating_add32 nxt (address_gap options) - 1))
         else ret nxt))))))"

definition max_watch_index :: "wallet_env \<Rightarrow> KeychainKind \<Rightarrow> u32 wact" where
  "max_watch_index env keychain =
     bnd (gets (\<lambda>w. case keychain of External \<Rightarrow> external_index (wstore w) | Internal \<Rightarrow> internal_index (wstore w)))
       (\<lambda>handed_out.
     bnd (find_hd_next_index env keychain) (\<lambda>found.
     bnd (gets (\<lambda>w. case pending_restore (wstore w) of Some options \<Rightarrow> address_gap options | None \<Rightarrow> ADDRESS_IMPORT_COUNT))
       (\<lambda>gap.
     let last_index = max found handed_out + (gap + u32_max) mod (u32_max + 1) in
     if last_index \<le> u32_max then ret last_index else fail (WWatchWindowCap u32_max))))"

definition check_watch_window :: "u32 \<times> u32 \<Rightarrow> wallet_error + unit" where
  "check_watch_window window =
     (case window of (external, internal) \<Rightarrow>
        if MAX_WATCH_WINDOW < max external internal then Inl (WWatchWindowCap (max external internal)) else Inr ())"

definition watch_window :: "wallet_env \<Rightarrow> (u32 \<times> u32) wact" where
  "watch_window env =
     bnd (max_watch_index env External) (\<lambda>external.
     bnd (max_watch_index env Internal) (\<lambda>internal. ret (external, internal)))"

definition get_next_external_address :: "wallet_env \<Rightarrow> AddressType \<Rightarrow> ScriptBuf wact" where
  "get_next_external_address env address_type w =
     (let i = external_index (wstore w) in
      bnd (tick env (\<lambda>t. w_derive_addresses env t address_type External i i)) (\<lambda>addresses. case addresses of
        [] \<Rightarrow> fail WPanic
      | receive_address # _ \<Rightarrow>
          bnd (modify (on_store (\<lambda>s. s\<lparr>external_index := (external_index s + 1) mod (u32_max + 1)\<rparr>))) (\<lambda>_.
          seq (save_to_disk env) (ret receive_address))) w)"

section \<open>One synchronisation\<close>

definition utxo_matches_tx :: "bitcoin_lib \<Rightarrow> Transaction \<Rightarrow> ListUnspentResultEntry \<Rightarrow> bool" where
  "utxo_matches_tx lib tx u =
     (compute_txid lib tx = u_txid u \<and> u_vout u < length (tx_output tx) \<and>
      script_pubkey (tx_output tx ! u_vout u) = u_script_pub_key u \<and>
      value_of (tx_output tx ! u_vout u) = u_amount u)"

definition corroborate_utxos :: "wallet_env \<Rightarrow> ListUnspentResultEntry list \<Rightarrow> unit wact" where
  "corroborate_utxos env us =
     for_each us (\<lambda>u.
       seq (check_shutdown env)
       (bnd (gets (\<lambda>w. map_of (utxo_cache (wstore w)) (u_outpoint u))) (\<lambda>cached.
        if cached \<noteq> None then ret ()
        else
          bnd (query env (\<lambda>c t. c_raw_transaction c t (u_txid u))) (\<lambda>tx.
          if utxo_matches_tx (w_lib env) tx u then ret ()
          else fail (WGeneral ''Backend reported UTXO that its transaction does not pay'')))))"

text \<open>The pass is a closure with a state of its own, threaded through the rounds.\<close>

fun rolling_passes :: "wallet_env \<Rightarrow> ('s \<Rightarrow> 's wact) \<Rightarrow> nat \<Rightarrow> u32 \<times> u32 \<Rightarrow> 's \<Rightarrow> unit wact" where
  "rolling_passes env pass 0 prev_window st = fail (WGeneral ''Wallet sync did not settle'')"
| "rolling_passes env pass (Suc n) prev_window st =
     seq (check_shutdown env)
     (bnd (pass st) (\<lambda>st.
      seq (check_shutdown env)
      (bnd (list_unspent env) (\<lambda>us.
       seq (corroborate_utxos env us)
       (seq (check_shutdown env)
       (seq (update_utxo_cache env us)
       (bnd (watch_window env) (\<lambda>window.
        if window = prev_window then ret ()
        else seq (liftR (check_watch_window window)) (rolling_passes env pass n window st)))))))))"

definition sync_with_rolling_gap_limit :: "wallet_env \<Rightarrow> ('s \<Rightarrow> 's wact) \<Rightarrow> 's \<Rightarrow> unit wact" where
  "sync_with_rolling_gap_limit env pass st =
     bnd (watch_window env) (\<lambda>prev_window.
     bnd (gets (\<lambda>w. pending_restore (wstore w))) (\<lambda>restore.
     seq (on_cond (restore \<noteq> None) (liftR (check_watch_window prev_window)))
       (rolling_passes env pass MAX_SYNC_PASSES prev_window st)))"

definition refresh_offer_maxsize_cache :: "unit wact" where
  "refresh_offer_maxsize_cache =
     bnd (gets (\<lambda>w. get_balances (wstore w))) (\<lambda>r.
     bnd (liftR r) (\<lambda>b. modify (on_store (\<lambda>s. s\<lparr>offer_maxsize := max (swap_balance b) (regular b)\<rparr>))))"

definition post_sync_updates :: "wallet_env \<Rightarrow> unit wact" where
  "post_sync_updates env =
     seq (check_shutdown env)
     (bnd (query env (\<lambda>c t. c_block_count c t)) (\<lambda>height.
      seq (modify (on_store (\<lambda>s. s\<lparr>last_synced_height := Some height\<rparr>)))
      (bnd (find_hd_next_index env External) (\<lambda>max_external.
       seq (modify (on_store (\<lambda>s. s\<lparr>external_index := max max_external (external_index s)\<rparr>)))
       (seq (check_shutdown env)
       (bnd (find_hd_next_index env Internal) (\<lambda>max_internal.
        seq (modify (on_store (\<lambda>s. s\<lparr>internal_index := max max_internal (internal_index s)\<rparr>)))
          refresh_offer_maxsize_cache)))))))"

section \<open>Descriptors and watched scripts\<close>

definition keychains :: "KeychainKind list" where "keychains = [External, Internal]"

definition get_unimported_wallet_desc :: "wallet_env \<Rightarrow> AddressType \<Rightarrow> Descriptor list wact" where
  "get_unimported_wallet_desc env address_type =
     bnd (liftR (w_account_fingerprint env address_type)) (\<lambda>_.
     fold_act keychains (\<lambda>keychain unimported.
       bnd (max_watch_index env keychain) (\<lambda>last_index.
       let descriptor = WalletDesc address_type keychain in
       bnd (tick env (\<lambda>t. s_imported_range_covers (w_sync env) t descriptor last_index)) (\<lambda>covered.
       ret (if covered then unimported else unimported @ [descriptor])))) [])"

definition to_wallet_error :: "protocol_error + 'a \<Rightarrow> wallet_error + 'a" where
  "to_wallet_error = map_err WProtocol"

fun swapcoin_descs ::
  "bitcoin_lib \<Rightarrow> (PublicKey option \<times> PublicKey option \<times> ScriptBuf option) list \<Rightarrow> wallet_error + Descriptor list" where
  "swapcoin_descs lib [] = Inr []"
| "swapcoin_descs lib ((my, other, redeemscript) # coins) =
     res_bind (case redeemscript of
                 None \<Rightarrow> Inr []
               | Some rs \<Rightarrow> res_bind (to_wallet_error (redeemscript_to_scriptpubkey lib rs)) (\<lambda>spk. Inr [RawScript spk]))
       (\<lambda>raw.
     res_bind (swapcoin_descs lib coins) (\<lambda>rest.
     Inr ((case (my, other) of (Some m, Some t) \<Rightarrow> [SortedMulti t m] | _ \<Rightarrow> []) @ raw @ rest)))"

fun bond_scripts :: "bitcoin_lib \<Rightarrow> FidelityBond list \<Rightarrow> wallet_error + ScriptBuf list" where
  "bond_scripts lib [] = Inr []"
| "bond_scripts lib (bond # bonds) =
     (case fb_script_pub_key lib bond of
        Inl e \<Rightarrow> Inl WPanic
      | Inr spk \<Rightarrow> res_bind (bond_scripts lib bonds) (\<lambda>rest. Inr (spk # rest)))"

definition descriptors_to_import :: "wallet_env \<Rightarrow> Descriptor list wact" where
  "descriptors_to_import env =
     bnd (get_unimported_wallet_desc env P2WPKH) (\<lambda>segwit.
     bnd (get_unimported_wallet_desc env P2TR) (\<lambda>taproot.
     bnd (gets wstore) (\<lambda>s.
     bnd (liftR (swapcoin_descs (w_lib env)
        (map (\<lambda>(_, c). (in_my_pubkey c, in_other_pubkey c, in_contract_redeemscript c)) (incoming_swapcoins s) @
         map (\<lambda>(_, c). (out_my_pubkey c, out_other_pubkey c, out_contract_redeemscript c)) (outgoing_swapcoins s))))
       (\<lambda>coins.
     bnd (liftR (bond_scripts (w_lib env) (fidelity_bonds s))) (\<lambda>bonds.
     ret (segwit @ taproot @ coins @ map RawScript bonds))))))"

text \<open>The import timestamp is set two hours later, which Core subtracts again.\<close>

definition import_descriptors :: "wallet_env \<Rightarrow> Descriptor list \<Rightarrow> u32 \<Rightarrow> unit wact" where
  "import_descriptors env ds header_time =
     bnd (watch_window env) (\<lambda>(external, internal).
     tick env (\<lambda>t. s_import_descriptors (w_sync env) t
       (map (\<lambda>d. (d, case d of WalletDesc _ _ \<Rightarrow> Some (max external internal) | _ \<Rightarrow> None)) ds)
       ((header_time + 7200) mod (u32_max + 1))))"

definition watch_keychain :: "wallet_env \<Rightarrow> AddressType \<Rightarrow> string \<Rightarrow> KeychainKind \<Rightarrow> unit wact" where
  "watch_keychain env address_type account_fingerprint keychain =
     bnd (max_watch_index env keychain) (\<lambda>last_index.
     for_each [0..<last_index + 1] (\<lambda>index.
       bnd (liftR (s_child_script (w_sync env) address_type keychain index)) (\<lambda>script.
       modify (watch_script env script (Some \<lparr>fingerprint = account_fingerprint,
         keychain_idx = index_num keychain, hd_index = index, is_taproot = (address_type = P2TR)\<rparr>)))))"

definition watch_swapcoin ::
  "wallet_env \<Rightarrow> PublicKey option \<times> PublicKey option \<times> ScriptBuf option \<times> ScriptBuf option \<Rightarrow> unit wact" where
  "watch_swapcoin env coin = (case coin of (my, other, redeemscript, contract_spk) \<Rightarrow>
     (let lib = w_lib env in
      seq (case (my, other) of
             (Some mine, Some theirs) \<Rightarrow>
               modify (watch_script env (to_p2wsh lib (create_multisig_redeemscript lib mine theirs)) None)
           | _ \<Rightarrow> ret ())
      (seq (case redeemscript of
              Some redeem \<Rightarrow>
                bnd (liftR (to_wallet_error (redeemscript_to_scriptpubkey lib redeem))) (\<lambda>spk.
                modify (watch_script env spk None))
            | None \<Rightarrow> ret ())
      (case contract_spk of
         Some spk \<Rightarrow> modify (watch_script env spk None)
       | None \<Rightarrow> ret ()))))"

definition contract_spk :: "Transaction \<Rightarrow> u32 \<Rightarrow> ScriptBuf option" where
  "contract_spk tx n = (if n < length (tx_output tx) then Some (script_pubkey (tx_output tx ! n)) else None)"

definition watch_wallet_scripts :: "wallet_env \<Rightarrow> unit wact" where
  "watch_wallet_scripts env =
     seq (for_each [P2WPKH, P2TR] (\<lambda>address_type.
            bnd (liftR (w_account_fingerprint env address_type)) (\<lambda>fp.
            for_each keychains (watch_keychain env address_type fp))))
     (bnd (gets wstore) (\<lambda>s.
      bnd (liftR (bond_scripts (w_lib env) (fidelity_bonds s))) (\<lambda>bonds.
      seq (for_each bonds (\<lambda>spk. modify (watch_script env spk None)))
      (for_each
        (map (\<lambda>(_, c). (in_my_pubkey c, in_other_pubkey c, in_contract_redeemscript c,
                contract_spk (in_contract_tx c) (in_get_contract_output_vout c))) (incoming_swapcoins s) @
         map (\<lambda>(_, c). (out_my_pubkey c, out_other_pubkey c, out_contract_redeemscript c,
                contract_spk (out_contract_tx c) (out_get_contract_output_vout c))) (outgoing_swapcoins s))
        (watch_swapcoin env)))))"

section \<open>The sync loop\<close>

fun await_scan :: "wallet_env \<Rightarrow> nat \<Rightarrow> unit wact" where
  "await_scan env 0 = fail WDiverged"
| "await_scan env (Suc fuel) =
     seq (check_shutdown env)
     (bnd (tick env (s_wallet_scanning (w_sync env))) (\<lambda>scanning.
      if scanning then seq (wait_for_shutdown env HEART_BEAT_INTERVAL) (await_scan env fuel) else ret ()))"

definition core_pass :: "wallet_env \<Rightarrow> u32 \<Rightarrow> Descriptor list \<Rightarrow> Descriptor list wact" where
  "core_pass env header_time ds =
     seq (check_shutdown env)
     (seq (on_cond (ds \<noteq> []) (import_descriptors env ds header_time))
     (seq (await_scan env (w_fuel env))
       (descriptors_to_import env)))"

text \<open>A chain shorter than the synced height restarts the scan from the first block.\<close>

definition scan_start :: "wallet_env \<Rightarrow> u64 wact" where
  "scan_start env =
     bnd (gets (\<lambda>w. max (case last_synced_height (wstore w) of Some h \<Rightarrow> h | None \<Rightarrow> 0)
                      (case wallet_birthday (wstore w) of Some h \<Rightarrow> h | None \<Rightarrow> 0))) (\<lambda>synced.
     bnd (query env (\<lambda>c t. c_block_count c t)) (\<lambda>node_synced.
     if node_synced < synced
     then seq (modify (on_store (\<lambda>s. s\<lparr>last_synced_height := Some 0\<rparr>))) (ret 0)
     else ret synced))"

definition sync_core :: "wallet_env \<Rightarrow> unit wact" where
  "sync_core env =
     seq (tick env (s_prepare_backend_wallet (w_sync env)))
     (bnd (descriptors_to_import env) (\<lambda>ds.
      bnd (gets (\<lambda>w. pending_restore (wstore w))) (\<lambda>restore.
      if ds = [] \<and> restore = None then
        seq (check_shutdown env)
        (bnd (list_unspent env) (\<lambda>us.
         seq (update_utxo_cache env us) (post_sync_updates env)))
      else
        bnd (scan_start env) (\<lambda>start.
        bnd (if restore \<noteq> None \<and> ds = [] then
               seq (check_shutdown env)
               (seq (tick env (\<lambda>t. s_rescan_wallet_from (w_sync env) t start)) (descriptors_to_import env))
             else ret ds) (\<lambda>ds.
        bnd (tick env (\<lambda>t. s_header_time (w_sync env) t start)) (\<lambda>header_time.
        seq (sync_with_rolling_gap_limit env (core_pass env header_time) ds) (post_sync_updates env)))))))"

definition sync_no_rescan :: "wallet_env \<Rightarrow> unit wact" where
  "sync_no_rescan env =
     seq (sync_with_rolling_gap_limit env (\<lambda>_. seq (check_shutdown env) (watch_wallet_scripts env)) ())
       (post_sync_updates env)"

definition sync :: "wallet_env \<Rightarrow> unit wact" where
  "sync env =
     seq (check_shutdown env) (if s_is_electrum (w_sync env) then sync_no_rescan env else sync_core env)"

fun sync_error_is_final :: "wallet_error \<Rightarrow> bool" where
  "sync_error_is_final (WInterrupted _) = True"
| "sync_error_is_final (WWatchWindowCap _) = True"
| "sync_error_is_final WCoreTooOld = True"
| "sync_error_is_final e = False"

text \<open>A panic, and a loop out of fuel, end the caller too.\<close>

definition is_fatal :: "wallet_error \<Rightarrow> bool" where
  "is_fatal e \<longleftrightarrow> e = WPanic \<or> e = WDiverged"

fun sync_no_fail :: "wallet_env \<Rightarrow> nat \<Rightarrow> unit wact" where
  "sync_no_fail env 0 = fail WDiverged"
| "sync_no_fail env (Suc fuel) =
     seq (check_shutdown env)
     (bnd (attempt (sync env)) (\<lambda>r. case r of
        Inr _ \<Rightarrow> ret ()
      | Inl e \<Rightarrow>
          if sync_error_is_final e \<or> is_fatal e then fail e
          else seq (wait_for_shutdown env HEART_BEAT_INTERVAL) (sync_no_fail env fuel)))"

definition recover_fidelity_bonds :: "wallet_env \<Rightarrow> bool wact" where
  "recover_fidelity_bonds env =
     bnd (tick env (s_list_transactions (w_sync env))) (\<lambda>entries.
     let txids = remdups (map fst (filter snd entries)) in
     bnd (fold_act txids (\<lambda>id_tx txs.
            bnd (query env (\<lambda>c t. c_raw_transaction c t id_tx)) (\<lambda>tx. ret (txs @ [tx]))) []) (\<lambda>txs.
     bnd (gets wstore) (\<lambda>s.
     bnd (liftR (find_bonds (w_lib env) (s_keys (w_sync env)) (pending_restore s) (fidelity_bonds s) txs)) (\<lambda>bonds.
     seq (for_each bonds (\<lambda>bond.
            bnd (liftR (map_err (\<lambda>_. WPanic) (fb_script_pub_key (w_lib env) bond))) (\<lambda>spk.
            bnd (tick env (\<lambda>t. s_is_confirmed_spend (w_sync env) t (fb_outpoint bond) spk)) (\<lambda>spent.
            modify (on_store (\<lambda>s. s\<lparr>fidelity_bonds := fidelity_bonds s @ [bond\<lparr>fb_is_spent := spent\<rparr>]\<rparr>))))))
       (ret (bonds \<noteq> []))))))"

definition sync_and_save :: "wallet_env \<Rightarrow> unit wact" where
  "sync_and_save env =
     seq (sync_no_fail env (w_fuel env))
     (bnd (gets (\<lambda>w. pending_restore (wstore w))) (\<lambda>restore.
      bnd (if restore \<noteq> None then recover_fidelity_bonds env else ret False) (\<lambda>found.
      seq (on_cond found
             (seq (modify (on_store (\<lambda>s. s\<lparr>last_synced_height := None\<rparr>))) (sync_no_fail env (w_fuel env))))
      (seq (modify (on_store (\<lambda>s. s\<lparr>pending_restore := None\<rparr>)))
        (save_to_disk env)))))"

end
