(* ===== verification/Recovery.thy ===== *)
theory Recovery
  imports Sync
begin

text \<open>
  Recovering swap coins (\<open>wallet/api.rs\<close>): sweeping incoming contracts, refunding outgoing ones
  after their timelock, settling funding that was never sent, and the bookkeeping once a spend
  is mined. A pass takes a snapshot of the coins, then asks the backend about each; the wallet
  lock is taken again for every change. The model runs one pass at a time: nothing else changes
  the wallet meanwhile. What the closures of the code capture (\<open>refunds\<close>, \<open>claiming\<close> and so on)
  is a second component of the state, so it survives the failure of one coin.
\<close>

section \<open>Data\<close>

record RecoveryOutcome =
  resolved :: "(Txid \<times> Txid) list"
  discarded :: "Txid list"

type_synonym SentSpend = "Txid \<times> Txid \<times> Txid"

record UnsentPass =
  waiting :: bool
  released :: bool
  finished :: bool

datatype ContractChainState =
    OnChain
  | Discarded
  | RecoveredByTimelock Txid
  | RecoveryPending Transaction
  | NotYet

section \<open>Programs with captured variables\<close>

definition on_wallet :: "'a wact \<Rightarrow> (world \<times> 'acc, wallet_error, 'a) act" where
  "on_wallet m p = (case m (fst p) of (r, w) \<Rightarrow> (r, (w, snd p)))"

definition capture :: "('acc \<Rightarrow> 'acc) \<Rightarrow> (world \<times> 'acc, wallet_error, unit) act" where
  "capture f = modify (\<lambda>p. (fst p, f (snd p)))"

text \<open>The closure around one coin: its error is logged, a panic is not caught.\<close>

definition for_coin :: "('s, wallet_error, unit) act \<Rightarrow> ('s, wallet_error, unit) act" where
  "for_coin m s =
     (case m s of
        (Inl e, s') \<Rightarrow> (if is_fatal e then Inl e else Inr (), s')
      | (Inr _, s') \<Rightarrow> (Inr (), s'))"

section \<open>What the chain says of a coin\<close>

fun inputs_spent_elsewhere_from :: "wallet_env \<Rightarrow> Transaction \<Rightarrow> TxIn list \<Rightarrow> bool wact" where
  "inputs_spent_elsewhere_from env tx [] = ret False"
| "inputs_spent_elsewhere_from env tx (inp # inputs) =
     (let p = previous_output inp; lib = w_lib env; continue = inputs_spent_elsewhere_from env tx inputs in
      bnd (ask_query env (\<lambda>c t. c_raw_transaction c t (txid p))) (\<lambda>r. case r of
        Inl e \<Rightarrow>
          bnd (query env (\<lambda>c t. c_is_tx_unknown c t (txid p))) (\<lambda>unknown.
          if unknown then continue else fail e)
      | Inr parent \<Rightarrow>
          if compute_txid lib parent \<noteq> txid p then continue
          else if length (tx_output parent) \<le> vout p then continue
          else
            bnd (query env (\<lambda>c t. c_confirmed_spending_transaction c t p
                   (script_pubkey (tx_output parent ! vout p)))) (\<lambda>spender.
            if (case spender of Some sp \<Rightarrow> compute_txid lib sp \<noteq> compute_txid lib tx | None \<Rightarrow> False)
            then ret True else continue)))"

definition inputs_spent_elsewhere :: "wallet_env \<Rightarrow> Transaction \<Rightarrow> bool wact" where
  "inputs_spent_elsewhere env tx = inputs_spent_elsewhere_from env tx (tx_input tx)"

definition funding_seen :: "wallet_env \<Rightarrow> OutgoingSwapCoin \<Rightarrow> bool wact" where
  "funding_seen env coin =
     bnd (query env (\<lambda>c t. c_is_tx_unknown c t (compute_txid (w_lib env) (out_contract_tx coin)))) (\<lambda>unknown.
     if \<not> unknown then ret True
     else if out_protocol coin = Legacy then
       (case tx_input (out_contract_tx coin) of
          inp # _ \<Rightarrow> bnd (query env (\<lambda>c t. c_is_tx_unknown c t (txid (previous_output inp)))) (\<lambda>u. ret (\<not> u))
        | [] \<Rightarrow> ret False)
     else ret False)"

definition own_funding :: "OutgoingSwapCoin \<Rightarrow> Transaction option" where
  "own_funding coin =
     (case out_protocol coin of Taproot \<Rightarrow> Some (out_contract_tx coin) | Legacy \<Rightarrow> out_funding_tx coin)"

fun all_inputs_unspent :: "wallet_env \<Rightarrow> TxIn list \<Rightarrow> bool wact" where
  "all_inputs_unspent env [] = ret True"
| "all_inputs_unspent env (inp # inputs) =
     (let p = previous_output inp in
      bnd (query env (\<lambda>c t. c_tx_out c t (txid p) (vout p) (Some True))) (\<lambda>utxo.
      if utxo = None then ret False else all_inputs_unspent env inputs))"

definition unsent_funding_state :: "wallet_env \<Rightarrow> OutgoingSwapCoin \<Rightarrow> ContractChainState wact" where
  "unsent_funding_state env coin =
     (case own_funding coin of
        None \<Rightarrow> ret Discarded
      | Some funding \<Rightarrow>
          bnd (inputs_spent_elsewhere env funding) (\<lambda>dead.
          if dead then ret Discarded
          else bnd (all_inputs_unspent env (tx_input funding)) (\<lambda>unspent.
            ret (if unspent then Discarded else NotYet))))"

definition pending_own_recovery :: "wallet_env \<Rightarrow> OutgoingSwapCoin \<Rightarrow> Transaction option wact" where
  "pending_own_recovery env coin =
     (let p = \<lparr>txid = compute_txid (w_lib env) (out_contract_tx coin), vout = out_get_contract_output_vout coin\<rparr>;
          outs = tx_output (out_contract_tx coin) in
      if length outs \<le> vout p then ret None
      else
        bnd (query env (\<lambda>c t. c_spending_transaction c t p (script_pubkey (outs ! vout p)))) (\<lambda>spend.
        ret (case spend of
               Some tx \<Rightarrow> if out_is_own_timelock_spend (w_lib env) coin tx then Some tx else None
             | None \<Rightarrow> None)))"

text \<open>The contract is mined and its output gone: who spent it.\<close>

definition mined_contract_state :: "wallet_env \<Rightarrow> OutgoingSwapCoin \<Rightarrow> OutPoint \<Rightarrow> ContractChainState wact" where
  "mined_contract_state env coin p =
     (if length (tx_output (out_contract_tx coin)) \<le> vout p then fail WPanic
      else
        bnd (query env (\<lambda>c t. c_confirmed_spending_transaction c t p
               (script_pubkey (tx_output (out_contract_tx coin) ! vout p)))) (\<lambda>spender. case spender of
          Some recovery \<Rightarrow>
            ret (if out_is_own_timelock_spend (w_lib env) coin recovery
                 then RecoveredByTimelock (compute_txid (w_lib env) recovery) else NotYet)
        | None \<Rightarrow>
            bnd (pending_own_recovery env coin) (\<lambda>pending.
            ret (case pending of Some tx \<Rightarrow> RecoveryPending tx | None \<Rightarrow> NotYet))))"

definition funding_is_dead :: "wallet_env \<Rightarrow> OutgoingSwapCoin \<Rightarrow> bool wact" where
  "funding_is_dead env coin =
     bnd (case own_funding coin of
            None \<Rightarrow> ret False
          | Some funding \<Rightarrow>
              bnd (query env (\<lambda>c t. c_tx_block_height c t (compute_txid (w_lib env) funding))) (\<lambda>h.
              if h = None then inputs_spent_elsewhere env funding else ret False)) (\<lambda>dead.
     if dead then ret True
     else if out_protocol coin = Legacy then inputs_spent_elsewhere env (out_contract_tx coin)
     else ret False)"

text \<open>The contract is in no block: sign it, send its funding again if it is lost, and send it.\<close>

definition broadcast_contract :: "wallet_env \<Rightarrow> OutgoingSwapCoin \<Rightarrow> OutPoint \<Rightarrow> ContractChainState wact" where
  "broadcast_contract env coin p =
     (case out_create_signed_contract_tx (w_lib env) coin of
        Inl e \<Rightarrow> if is_fatal e then fail e else ret NotYet
      | Inr signed_contract \<Rightarrow>
          seq (case (if out_protocol coin = Legacy then own_funding coin else None) of
                 None \<Rightarrow> ret ()
               | Some funding \<Rightarrow>
                   bnd (query env (\<lambda>c t. c_is_tx_unknown c t (compute_txid (w_lib env) funding))) (\<lambda>unknown.
                   if unknown then bnd (attempt (send_raw_transaction env funding)) (\<lambda>_. ret ()) else ret ()))
          (bnd (attempt (send_raw_transaction env signed_contract)) (\<lambda>r. case r of
             Inr _ \<Rightarrow> ret OnChain
           | Inl e \<Rightarrow>
               bnd (query env (\<lambda>c t. c_tx_out c t (txid p) (vout p) (Some True))) (\<lambda>utxo.
               ret (if utxo \<noteq> None then OnChain else NotYet)))))"

definition ensure_contract_on_chain :: "wallet_env \<Rightarrow> OutgoingSwapCoin \<Rightarrow> ContractChainState wact" where
  "ensure_contract_on_chain env coin =
     bnd (if committed coin then ret True else funding_seen env coin) (\<lambda>sent.
     if \<not> sent then unsent_funding_state env coin
     else
       let p = \<lparr>txid = compute_txid (w_lib env) (out_contract_tx coin), vout = out_get_contract_output_vout coin\<rparr> in
       bnd (query env (\<lambda>c t. c_tx_out c t (txid p) (vout p) (Some False))) (\<lambda>confirmed.
       if confirmed \<noteq> None then
         bnd (query env (\<lambda>c t. c_tx_out c t (txid p) (vout p) (Some True))) (\<lambda>unspent.
         if unspent \<noteq> None then ret OnChain
         else bnd (pending_own_recovery env coin) (\<lambda>pending.
           ret (case pending of Some tx \<Rightarrow> RecoveryPending tx | None \<Rightarrow> NotYet)))
       else
         bnd (query env (\<lambda>c t. c_tx_block_height c t (txid p))) (\<lambda>mined.
         if mined \<noteq> None then mined_contract_state env coin p
         else bnd (funding_is_dead env coin) (\<lambda>dead.
           if dead then ret Discarded else broadcast_contract env coin p))))"

section \<open>Funding that was never sent\<close>

record unsent_scan =
  sc_seen :: "Txid list"
  sc_dead :: "(Txid \<times> OutPoint list) list"
  sc_unknown :: "OutPoint list"
  sc_failure :: "wallet_error option"

definition scan_unsent :: "wallet_env \<Rightarrow> Txid \<times> OutgoingSwapCoin \<Rightarrow> unsent_scan \<Rightarrow> unsent_scan wact" where
  "scan_unsent env entry acc = (case entry of (key, coin) \<Rightarrow>
     (let inputs = (case own_funding coin of Some tx \<Rightarrow> map previous_output (tx_input tx) | None \<Rightarrow> []) in
      bnd (attempt (funding_seen env coin)) (\<lambda>r. case r of
        Inr True \<Rightarrow> ret (acc\<lparr>sc_seen := sc_seen acc @ [key]\<rparr>)
      | Inr False \<Rightarrow>
          bnd (attempt (case own_funding coin of None \<Rightarrow> ret False | Some tx \<Rightarrow> inputs_spent_elsewhere env tx)) (\<lambda>d.
          ret (case d of
                 Inr True \<Rightarrow> acc\<lparr>sc_dead := sc_dead acc @ [(key, inputs)]\<rparr>
               | Inr False \<Rightarrow> acc\<lparr>sc_unknown := sc_unknown acc @ inputs\<rparr>
               | Inl e \<Rightarrow> acc\<lparr>sc_failure := Some e\<rparr>))
      | Inl e \<Rightarrow> ret (acc\<lparr>sc_failure := Some e\<rparr>))))"

definition update_entry :: "'k \<Rightarrow> ('v \<Rightarrow> 'v) \<Rightarrow> ('k \<times> 'v) list \<Rightarrow> ('k \<times> 'v) list" where
  "update_entry k f m = (case map_of m k of Some v \<Rightarrow> AList.update k (f v) m | None \<Rightarrow> m)"

definition mark_committed :: "Txid \<Rightarrow> WalletStore \<Rightarrow> WalletStore" where
  "mark_committed key s =
     s\<lparr>outgoing_swapcoins := update_entry key (\<lambda>c. c\<lparr>committed := True\<rparr>) (outgoing_swapcoins s)\<rparr>"

definition drop_dead :: "string \<Rightarrow> Txid \<times> OutPoint list \<Rightarrow> WalletStore \<Rightarrow> WalletStore" where
  "drop_dead swap_id entry s =
     snd (release_swap_locks swap_id (Some (snd entry))
       (s\<lparr>outgoing_swapcoins := AList.delete (fst entry) (outgoing_swapcoins s)\<rparr>))"

text \<open>What one pass decides: the store it would keep, and what it reports.\<close>

definition apply_unsent :: "string \<Rightarrow> bool \<Rightarrow> unsent_scan \<Rightarrow> WalletStore \<Rightarrow> UnsentPass \<times> WalletStore" where
  "apply_unsent swap_id grace_over sc s =
     (let s = fold (drop_dead swap_id) (sc_dead sc) (fold mark_committed (sc_seen sc) s);
          holding = (case map_of (swap_locks s) swap_id of
                       Some locks \<Rightarrow> list_ex (\<lambda>p. p \<in> outpoints locks) (sc_unknown sc) | None \<Rightarrow> False)
      in if holding \<and> grace_over \<and> sc_failure sc = None then
           (case release_swap_locks swap_id (Some (sc_unknown sc)) s of
              (freed, s) \<Rightarrow> (\<lparr>waiting = False, released = freed, finished = False\<rparr>, s))
         else (\<lparr>waiting = holding, released = False, finished = False\<rparr>, s))"

definition unsent_of :: "string \<Rightarrow> WalletStore \<Rightarrow> (Txid \<times> OutgoingSwapCoin) list" where
  "unsent_of swap_id s = filter (\<lambda>(_, c). out_swap_id c = Some swap_id \<and> \<not> committed c) (outgoing_swapcoins s)"

definition settle_unsent_funding :: "wallet_env \<Rightarrow> string \<Rightarrow> bool \<Rightarrow> UnsentPass wact" where
  "settle_unsent_funding env swap_id grace_over =
     bnd (gets (\<lambda>w. unsent_of swap_id (wstore w))) (\<lambda>unsent.
     bnd (fold_act unsent (scan_unsent env) \<lparr>sc_seen = [], sc_dead = [], sc_unknown = [], sc_failure = None\<rparr>) (\<lambda>sc.
     bnd (gets wstore) (\<lambda>previous.
     if sc_dead sc \<noteq> [] \<and> length (outgoing_keys_for_swap swap_id previous) = length (sc_dead sc) then
       seq (remove_swap_coins_and_save env swap_id True True)
         (ret \<lparr>waiting = False, released = False, finished = True\<rparr>)
     else
       let (pass, s) = apply_unsent swap_id grace_over sc previous in
       seq (modify (\<lambda>w. w\<lparr>wstore := s\<rparr>))
       (seq (if sc_seen sc \<noteq> [] \<or> sc_dead sc \<noteq> [] \<or> released pass then
               bnd (attempt (save_to_disk env)) (\<lambda>r. case r of
                 Inr _ \<Rightarrow> ret ()
               | Inl e \<Rightarrow>
                   seq (modify (on_store (\<lambda>s. s\<lparr>outgoing_swapcoins := outgoing_swapcoins previous,
                          swap_locks := (case map_of (swap_locks previous) swap_id of
                              Some locks \<Rightarrow> AList.update swap_id locks (swap_locks s)
                            | None \<Rightarrow> AList.delete swap_id (swap_locks s))\<rparr>)))
                     (fail e))
             else ret ())
       (case sc_failure sc of Some e \<Rightarrow> fail e | None \<Rightarrow> ret pass)))))"

section \<open>Fees of a recovery\<close>

text \<open>\<open>f64::max\<close> gives the other operand for a NaN.\<close>

fun f64_max :: "f64 \<Rightarrow> f64 \<Rightarrow> f64" where
  "f64_max NaN b = b"
| "f64_max a NaN = a"
| "f64_max a b = (if f64_lt a b then b else a)"

definition recovery_targets :: "nat list" where
  "recovery_targets = [2, 12, 25, 144]"

fun estimate_rates :: "wallet_env \<Rightarrow> nat list \<Rightarrow> f64 list wact" where
  "estimate_rates env [] = ret [MIN_RELAY_FEE_RATE]"
| "estimate_rates env (target # targets) =
     bnd (ask_query env (\<lambda>c t. c_estimate_feerate c t target)) (\<lambda>r. case r of
       Inr rate \<Rightarrow> bnd (estimate_rates env targets) (\<lambda>rates. ret (f64_max rate MIN_RELAY_FEE_RATE # rates))
     | Inl e \<Rightarrow> if e = WUnreachable then ret [MIN_RELAY_FEE_RATE] else estimate_rates env targets)"

definition recovery_feerates :: "wallet_env \<Rightarrow> f64 list wact" where
  "recovery_feerates env = estimate_rates env recovery_targets"

definition replacement_increment_rate :: "wallet_env \<Rightarrow> f64 wact" where
  "replacement_increment_rate env =
     bnd (query env (\<lambda>c t. Inr (c_incremental_relay_feerate c t))) (\<lambda>reported.
     ret (case reported of
            Some rate \<Rightarrow> if is_finite rate then f64_max rate MIN_RELAY_FEE_RATE else MIN_RELAY_FEE_RATE
          | None \<Rightarrow> MIN_RELAY_FEE_RATE))"

section \<open>Refunds\<close>

record refund_acc =
  refunds :: "SentSpend list"
  discards :: "Txid list"
  fee_rates :: "f64 list option"

type_synonym 'a ract = "(world \<times> refund_acc, wallet_error, 'a) act"

text \<open>The rates are read once a pass, at the first coin that needs them.\<close>

definition get_fee_rates :: "wallet_env \<Rightarrow> f64 list ract" where
  "get_fee_rates env =
     bnd (gets (\<lambda>p. fee_rates (snd p))) (\<lambda>known. case known of
       Some rates \<Rightarrow> ret rates
     | None \<Rightarrow>
         bnd (on_wallet (recovery_feerates env)) (\<lambda>rates.
         seq (capture (\<lambda>acc. acc\<lparr>fee_rates := Some rates\<rparr>)) (ret rates)))"

definition push_refund :: "SentSpend \<Rightarrow> unit ract" where
  "push_refund spend = capture (\<lambda>acc. acc\<lparr>refunds := refunds acc @ [spend]\<rparr>)"

definition commit_seen :: "wallet_env \<Rightarrow> Txid \<Rightarrow> unit wact" where
  "commit_seen env key = seq (modify (on_store (mark_committed key))) (save_to_disk env)"

text \<open>The coin's state, and the coin as the pass goes on to see it.\<close>

definition classify_coin ::
  "wallet_env \<Rightarrow> bool \<Rightarrow> Txid \<Rightarrow> OutgoingSwapCoin \<Rightarrow> (ContractChainState \<times> OutgoingSwapCoin) wact" where
  "classify_coin env keep_unsent key coin =
     (if committed coin then bnd (ensure_contract_on_chain env coin) (\<lambda>st. ret (st, coin))
      else
        bnd (funding_seen env coin) (\<lambda>seen.
        if seen then
          seq (commit_seen env key)
          (let coin = coin\<lparr>committed := True\<rparr> in
           bnd (ensure_contract_on_chain env coin) (\<lambda>st. ret (st, coin)))
        else if keep_unsent then ret (NotYet, coin)
        else bnd (unsent_funding_state env coin) (\<lambda>st. ret (st, coin))))"

definition fee_of :: "Amount \<Rightarrow> Transaction \<Rightarrow> Amount option" where
  "fee_of contract_value tx =
     (case foldl (\<lambda>s out. case s of Some a \<Rightarrow> checked_add a (value_of out) | None \<Rightarrow> None) (Some 0) (tx_output tx) of
        Some paid \<Rightarrow> checked_sub contract_value paid
      | None \<Rightarrow> None)"

definition replace_pending :: "wallet_env \<Rightarrow> Txid \<Rightarrow> OutgoingSwapCoin \<Rightarrow> Transaction \<Rightarrow> unit ract" where
  "replace_pending env key coin pending =
     (let outs = tx_output (out_contract_tx coin); n = out_get_contract_output_vout coin in
      case out_recovery_address coin of
        None \<Rightarrow> ret ()
      | Some address \<Rightarrow>
          if length outs \<le> n then ret ()
          else
            bnd (get_fee_rates env) (\<lambda>rates.
            bnd (liftR (create_timelock_recovery_tx (w_lib env) coin rates address)) (\<lambda>replacement.
            case (fee_of (value_of (outs ! n)) pending, fee_of (value_of (outs ! n)) replacement) of
              (Some pending_fee, Some fee) \<Rightarrow>
                bnd (on_wallet (replacement_increment_rate env)) (\<lambda>increment.
                if outbids pending_fee fee (w_vsize env replacement) increment then
                  bnd (on_wallet (attempt (send_raw_transaction env replacement))) (\<lambda>r. case r of
                    Inr id_tx \<Rightarrow> push_refund (key, compute_txid (w_lib env) (out_contract_tx coin), id_tx)
                  | Inl e \<Rightarrow> ret ())
                else ret ())
            | _ \<Rightarrow> ret ())))"

definition hop_timelock :: "bitcoin_lib \<Rightarrow> WatchOnlySwapCoin \<Rightarrow> u32 option" where
  "hop_timelock lib hop =
     contract_timelock lib (wo_protocol hop) (Some (wo_contract_redeemscript hop)) (wo_timelock_script hop)"

fun hops_dangling :: "wallet_env \<Rightarrow> bool \<Rightarrow> WatchOnlySwapCoin list \<Rightarrow> bool wact" where
  "hops_dangling env dangling [] = ret dangling"
| "hops_dangling env dangling (hop # hops) =
     (let p = wo_contract_outpoint (w_lib env) hop; outs = tx_output (wo_contract_tx hop) in
      bnd (if vout p < length outs
           then bnd (query env (\<lambda>c t. c_confirmed_spending_transaction c t p (script_pubkey (outs ! vout p)))) (\<lambda>spend.
             ret (case spend of Some tx \<Rightarrow> wo_is_timelock_spend (w_lib env) hop tx | None \<Rightarrow> False))
           else ret False) (\<lambda>dangling.
      if dangling then hops_dangling env dangling hops else ret False))"

definition first_hops_refunded :: "wallet_env \<Rightarrow> string \<Rightarrow> bool wact" where
  "first_hops_refunded env swap_id =
     bnd (gets (\<lambda>w. case map_of (watchonly_swapcoins (wstore w)) swap_id of Some hops \<Rightarrow> hops | None \<Rightarrow> [])) (\<lambda>hops.
     let first_maker_lock = (case hops of hop # _ \<Rightarrow> hop_timelock (w_lib env) hop | [] \<Rightarrow> None) in
     hops_dangling env (first_maker_lock \<noteq> None)
       (filter (\<lambda>hop. hop_timelock (w_lib env) hop = first_maker_lock) hops))"

definition give_up_claims :: "string \<Rightarrow> WalletStore \<Rightarrow> bool \<times> WalletStore" where
  "give_up_claims swap_id s =
     (list_ex (\<lambda>(_, c). in_swap_id c = Some swap_id \<and> in_hash_preimage c \<noteq> None) (incoming_swapcoins s),
      s\<lparr>incoming_swapcoins := map (\<lambda>(k, c). (k, if in_swap_id c = Some swap_id then c\<lparr>in_hash_preimage := None\<rparr> else c))
          (incoming_swapcoins s)\<rparr>)"

definition has_built_sweep :: "string \<Rightarrow> WalletStore \<Rightarrow> bool" where
  "has_built_sweep swap_id s =
     list_ex (\<lambda>(_, c). in_swap_id c = Some swap_id \<and> in_spending_tx c \<noteq> None) (incoming_swapcoins s)"

definition recovery_address_or_else :: "ScriptBuf option \<Rightarrow> ScriptBuf wact \<Rightarrow> (ScriptBuf \<times> bool) wact" where
  "recovery_address_or_else stored create =
     (case stored of
        Some address \<Rightarrow> ret (address, False)
      | None \<Rightarrow> bnd create (\<lambda>address. ret (address, True)))"

definition next_internal_address :: "wallet_env \<Rightarrow> ScriptBuf wact" where
  "next_internal_address env =
     bnd (get_next_internal_addresses env 1 P2TR) (\<lambda>addresses. case addresses of
       address # _ \<Rightarrow> ret address
     | [] \<Rightarrow> fail WPanic)"

text \<open>
  The destination, stored before the refund goes out, and the claim it gives up: a hashlock
  sweep of the incoming coin after this refund would take both sides.
\<close>

definition settle_claims :: "bool \<Rightarrow> OutgoingSwapCoin \<Rightarrow> WalletStore \<Rightarrow> bool \<times> WalletStore" where
  "settle_claims proven coin s =
     (case out_swap_id coin of
        Some i \<Rightarrow> if proven \<or> has_built_sweep i s then (False, s) else give_up_claims i s
      | None \<Rightarrow> (False, s))"

definition write_refund :: "wallet_env \<Rightarrow> bool \<Rightarrow> Txid \<Rightarrow> OutgoingSwapCoin \<Rightarrow> ScriptBuf \<Rightarrow> bool \<Rightarrow> unit wact" where
  "write_refund env proven key coin address created =
     seq (on_cond created (modify (on_store (\<lambda>s. s\<lparr>outgoing_swapcoins :=
            update_entry key (\<lambda>c. c\<lparr>out_recovery_address := Some address\<rparr>) (outgoing_swapcoins s)\<rparr>))))
     (bnd (gets wstore) (\<lambda>s.
      seq (modify (\<lambda>w. w\<lparr>wstore := snd (settle_claims proven coin s)\<rparr>))
        (on_cond (created \<or> fst (settle_claims proven coin s)) (save_to_disk env))))"

definition prepare_refund :: "wallet_env \<Rightarrow> bool \<Rightarrow> Txid \<Rightarrow> OutgoingSwapCoin \<Rightarrow> ScriptBuf wact" where
  "prepare_refund env proven key coin =
     bnd (gets (\<lambda>w. case map_of (outgoing_swapcoins (wstore w)) key of Some c \<Rightarrow> out_recovery_address c | None \<Rightarrow> None))
       (\<lambda>stored.
     bnd (recovery_address_or_else stored (next_internal_address env)) (\<lambda>(address, created).
     if \<not> w_on_network env address then fail (WGeneral ''invalid recovery address network'')
     else
       bnd (gets (\<lambda>w. map_of (outgoing_swapcoins (wstore w)) key)) (\<lambda>present.
       if created \<and> present = None then fail (WGeneral ''outgoing swapcoin disappeared during recovery'')
       else seq (write_refund env proven key coin address created) (ret address))))"

definition send_refund :: "wallet_env \<Rightarrow> Txid \<Rightarrow> OutgoingSwapCoin \<Rightarrow> ScriptBuf \<Rightarrow> unit ract" where
  "send_refund env key coin address =
     bnd (get_fee_rates env) (\<lambda>rates.
     case create_timelock_recovery_tx (w_lib env) coin rates address of
       Inl e \<Rightarrow> if is_fatal e then fail e else ret ()
     | Inr recovery_tx \<Rightarrow>
         bnd (on_wallet (attempt (send_raw_transaction env recovery_tx))) (\<lambda>r. case r of
           Inr id_tx \<Rightarrow> push_refund (key, compute_txid (w_lib env) (out_contract_tx coin), id_tx)
         | Inl e \<Rightarrow> ret ()))"

text \<open>The contract is confirmed deep enough, and no claim holds the refund back.\<close>

definition refund_on_chain ::
  "wallet_env \<Rightarrow> (string \<Rightarrow> bool) \<Rightarrow> (string \<Rightarrow> bool) \<Rightarrow> Txid \<Rightarrow> OutgoingSwapCoin \<Rightarrow> u32 \<Rightarrow> unit ract" where
  "refund_on_chain env claimed_by_hashlock claim_proven key coin timelock =
     (let contract_txid = compute_txid (w_lib env) (out_contract_tx coin);
          required = (if out_protocol coin = Taproot then 1 else timelock);
          holds = (\<lambda>f. case out_swap_id coin of Some i \<Rightarrow> f i | None \<Rightarrow> False) in
      bnd (on_wallet (query env (\<lambda>c t. c_tx_out c t contract_txid (out_get_contract_output_vout coin) (Some False))))
        (\<lambda>utxo. case utxo of
          None \<Rightarrow> ret ()
        | Some info \<Rightarrow>
            if to_confirmations info < required then ret ()
            else
              bnd (if holds claimed_by_hashlock
                   then on_wallet (first_hops_refunded env (case out_swap_id coin of Some i \<Rightarrow> i | None \<Rightarrow> []))
                   else ret True) (\<lambda>free.
              if \<not> free then ret ()
              else
                bnd (on_wallet (prepare_refund env (holds claim_proven) key coin)) (\<lambda>address.
                send_refund env key coin address))))"

definition recover_coin ::
  "wallet_env \<Rightarrow> (string \<Rightarrow> bool) \<Rightarrow> (string \<Rightarrow> bool) \<Rightarrow> bool \<Rightarrow> u32 \<Rightarrow> Txid \<times> OutgoingSwapCoin \<times> u32 \<Rightarrow> unit ract" where
  "recover_coin env claimed_by_hashlock claim_proven keep_unsent current_height entry =
     (case entry of (key, coin, timelock) \<Rightarrow>
      bnd (on_wallet (classify_coin env keep_unsent key coin)) (\<lambda>(st, coin). case st of
        OnChain \<Rightarrow>
          if out_protocol coin = Taproot \<and> current_height < timelock then ret ()
          else refund_on_chain env claimed_by_hashlock claim_proven key coin timelock
      | Discarded \<Rightarrow> capture (\<lambda>acc. acc\<lparr>discards := discards acc @ [key]\<rparr>)
      | RecoveredByTimelock recovery_txid \<Rightarrow>
          push_refund (key, compute_txid (w_lib env) (out_contract_tx coin), recovery_txid)
      | RecoveryPending pending \<Rightarrow> replace_pending env key coin pending
      | NotYet \<Rightarrow> ret ()))"

definition refund_candidates :: "bitcoin_lib \<Rightarrow> string set option \<Rightarrow> WalletStore \<Rightarrow> (Txid \<times> OutgoingSwapCoin \<times> u32) list" where
  "refund_candidates lib scope s =
     List.map_filter (\<lambda>(key, c).
         if out_my_privkey c \<noteq> None \<and> in_scope scope (out_swap_id c)
         then map_option (\<lambda>timelock. (key, c, timelock)) (out_get_timelock lib c) else None)
       (outgoing_swapcoins s)"

definition ready_to_recover :: "u32 \<Rightarrow> Txid \<times> OutgoingSwapCoin \<times> u32 \<Rightarrow> bool" where
  "ready_to_recover current_height entry =
     (case entry of (_, coin, timelock) \<Rightarrow>
        \<not> committed coin \<or> out_protocol coin = Legacy \<or> timelock \<le> current_height)"

text \<open>The flag \<open>synced\<close> of the caller is passed in and returned.\<close>

definition broadcast_timelock_recoveries ::
  "wallet_env \<Rightarrow> string set option \<Rightarrow> (string \<Rightarrow> bool) \<Rightarrow> (string \<Rightarrow> bool) \<Rightarrow> bool \<Rightarrow> bool \<Rightarrow>
   (SentSpend list \<times> Txid list) wact" where
  "broadcast_timelock_recoveries env scope claimed_by_hashlock claim_proven synced keep_unsent =
     bnd (gets (\<lambda>w. refund_candidates (w_lib env) scope (wstore w))) (\<lambda>candidates.
     if candidates = [] then ret ([], [])
     else
       seq (on_cond (\<not> synced) (sync_and_save env))
       (bnd (query env (\<lambda>c t. c_block_count c t)) (\<lambda>count.
        let current_height = count mod (u32_max + 1);
            run = for_each (filter (ready_to_recover current_height) candidates)
                    (\<lambda>entry. for_coin (recover_coin env claimed_by_hashlock claim_proven keep_unsent current_height entry))
        in (\<lambda>w. case run (w, \<lparr>refunds = [], discards = [], fee_rates = None\<rparr>) of
              (r, (w, acc)) \<Rightarrow> bnd (liftR r) (\<lambda>_. ret (refunds acc, discards acc)) w))))"

section \<open>Sweeps\<close>

record sweep_acc =
  sweeps :: "SentSpend list"
  claiming :: "string set"

type_synonym 'a sact = "(world \<times> sweep_acc, wallet_error, 'a) act"

definition claim_swap :: "IncomingSwapCoin \<Rightarrow> unit sact" where
  "claim_swap coin = capture (\<lambda>acc. acc\<lparr>claiming := claiming acc \<union> set_option (in_swap_id coin)\<rparr>)"

definition push_sweep :: "SentSpend \<Rightarrow> unit sact" where
  "push_sweep spend = capture (\<lambda>acc. acc\<lparr>sweeps := sweeps acc @ [spend]\<rparr>)"

text \<open>A lookup that failed says nothing, so the coin holds its swap's refund.\<close>

definition lookup_or_claim :: "wallet_env \<Rightarrow> IncomingSwapCoin \<Rightarrow> (chain_view \<Rightarrow> nat \<Rightarrow> wallet_error + 'a) \<Rightarrow> 'a sact" where
  "lookup_or_claim env coin f =
     bnd (on_wallet (ask_query env f)) (\<lambda>r. case r of
       Inr x \<Rightarrow> ret x
     | Inl e \<Rightarrow> seq (claim_swap coin) (fail e))"

text \<open>A sweep built before: \<open>True\<close> when the backend knows it and nothing is left to do.\<close>

definition resume_sweep :: "wallet_env \<Rightarrow> Txid \<Rightarrow> IncomingSwapCoin \<Rightarrow> bool sact" where
  "resume_sweep env key coin =
     (case in_spending_tx coin of
        None \<Rightarrow> ret False
      | Some spend_tx \<Rightarrow>
          let lib = w_lib env; contract_txid = compute_txid lib (in_contract_tx coin);
              p = \<lparr>txid = contract_txid, vout = in_get_contract_output_vout coin\<rparr>;
              outs = tx_output (in_contract_tx coin) in
          bnd (lookup_or_claim env coin (\<lambda>c t. c_is_tx_unknown c t (compute_txid lib spend_tx))) (\<lambda>unknown.
          if \<not> unknown then
            seq (claim_swap coin)
              (seq (push_sweep (key, contract_txid, compute_txid lib spend_tx)) (ret True))
          else if in_other_privkey coin \<noteq> None then ret False
          else
            bnd (if vout p < length outs
                 then bnd (lookup_or_claim env coin (\<lambda>c t. c_confirmed_spending_transaction c t p
                          (script_pubkey (outs ! vout p)))) (\<lambda>spend.
                      ret (case spend of Some tx \<Rightarrow> in_is_timelock_spend lib coin tx | None \<Rightarrow> False))
                 else ret False) (\<lambda>refunded.
            seq (if refunded then ret () else claim_swap coin) (ret False))))"

text \<open>Which output the sweep spends, and its value.\<close>

definition sweep_target :: "bitcoin_lib \<Rightarrow> IncomingSwapCoin \<Rightarrow> (OutPoint \<times> Amount) option" where
  "sweep_target lib coin =
     (let contract_txid = compute_txid lib (in_contract_tx coin); outs = tx_output (in_contract_tx coin) in
      case in_protocol coin of
        Legacy \<Rightarrow>
          if in_other_privkey coin \<noteq> None then
            (case tx_input (in_contract_tx coin) of
               inp # _ \<Rightarrow> Some (previous_output inp, in_funding_amount coin)
             | [] \<Rightarrow> None)
          else
            (case outs of
               out # _ \<Rightarrow> Some (\<lparr>txid = contract_txid, vout = 0\<rparr>, value_of out)
             | [] \<Rightarrow> None)
      | Taproot \<Rightarrow>
          Some (\<lparr>txid = contract_txid,
                 vout = (case position (\<lambda>out. value_of out = in_funding_amount coin) outs of Some i \<Rightarrow> i | None \<Rightarrow> 0)\<rparr>,
                in_funding_amount coin))"

text \<open>Whether the output is there to be spent; a signed legacy contract is sent to make it so.\<close>

definition sweep_ready :: "wallet_env \<Rightarrow> IncomingSwapCoin \<Rightarrow> OutPoint \<Rightarrow> bool sact" where
  "sweep_ready env coin p =
     bnd (lookup_or_claim env coin (\<lambda>c t. c_tx_out c t (txid p) (vout p) (Some False))) (\<lambda>confirmed.
     if confirmed \<noteq> None then ret True
     else
       bnd (lookup_or_claim env coin (\<lambda>c t. c_tx_out c t (txid p) (vout p) None)) (\<lambda>in_mempool.
       if in_mempool \<noteq> None then seq (claim_swap coin) (ret False)
       else if in_other_privkey coin = None \<and> in_others_contract_sig coin \<noteq> None then
         (case in_create_signed_contract_tx (w_lib env) coin of
            Inl e \<Rightarrow> if is_fatal e then fail e else ret False
          | Inr signed_contract \<Rightarrow>
              bnd (on_wallet (attempt (send_raw_transaction env signed_contract))) (\<lambda>r.
              seq (case r of Inr _ \<Rightarrow> claim_swap coin | Inl e \<Rightarrow> ret ())
              (bnd (lookup_or_claim env coin (\<lambda>c t. c_tx_out c t (txid p) (vout p) (Some True))) (\<lambda>available.
               ret (available \<noteq> None)))))
       else ret False))"

definition draw_nonce :: "wallet_env \<Rightarrow> bytes wact" where
  "draw_nonce env = tick env (\<lambda>t. Inr (w_nonce env t))"

text \<open>The address to track for this sweep, if any, and the sweep.\<close>

definition build_sweep ::
  "wallet_env \<Rightarrow> IncomingSwapCoin \<Rightarrow> Amount \<Rightarrow> (ScriptBuf option \<times> (wallet_error + Transaction)) wact" where
  "build_sweep env coin input_value =
     bnd (draw_nonce env) (\<lambda>r1.
     bnd (draw_nonce env) (\<lambda>r2.
     case (in_spending_tx coin, in_payment_target coin) of
       (Some tx, _) \<Rightarrow> ret (None, Inr tx)
     | (None, Some target) \<Rightarrow>
         ret (None, sign_spend_transaction_with_output_value (w_lib env) r1 r2 coin input_value
           (pt_amount target) (pt_script_pubkey target))
     | (None, None) \<Rightarrow>
         bnd (next_internal_address env) (\<lambda>address.
         seq (modify (on_store (\<lambda>s. s\<lparr>swept_incoming_swapcoins := insert address (swept_incoming_swapcoins s)\<rparr>)))
           (ret (Some address, sign_spend_transaction (w_lib env) r1 r2 coin input_value address
             (f64_max (f64_of_nat (in_negotiated_feerate coin)) MIN_RELAY_FEE_RATE))))))"

definition record_sweep :: "wallet_env \<Rightarrow> Txid \<Rightarrow> Transaction \<Rightarrow> unit wact" where
  "record_sweep env key spend_tx =
     bnd (gets (\<lambda>w. find_incoming_swapcoin key (wstore w))) (\<lambda>stored. case stored of
       None \<Rightarrow> fail (WGeneral ''incoming swapcoin disappeared during sweep'')
     | Some c \<Rightarrow>
         seq (modify (on_store (\<lambda>s. s\<lparr>incoming_swapcoins :=
                AList.update key (c\<lparr>in_spending_tx := Some spend_tx\<rparr>) (incoming_swapcoins s)\<rparr>)))
           (save_to_disk env))"

definition send_sweep :: "wallet_env \<Rightarrow> Txid \<Rightarrow> IncomingSwapCoin \<Rightarrow> Transaction \<Rightarrow> unit sact" where
  "send_sweep env key coin spend_tx =
     seq (on_wallet (record_sweep env key spend_tx))
     (bnd (on_wallet (attempt (send_raw_transaction env spend_tx))) (\<lambda>r. case r of
        Inr id_tx \<Rightarrow> push_sweep (key, compute_txid (w_lib env) (in_contract_tx coin), id_tx)
      | Inl e \<Rightarrow> ret ()))"

definition unmark_on_failure :: "ScriptBuf option \<Rightarrow> unit wact" where
  "unmark_on_failure address =
     (case address of
        None \<Rightarrow> ret ()
      | Some a \<Rightarrow> modify (on_store (\<lambda>s. s\<lparr>swept_incoming_swapcoins := swept_incoming_swapcoins s - {a}\<rparr>)))"

definition sweep_coin :: "wallet_env \<Rightarrow> Txid \<times> IncomingSwapCoin \<Rightarrow> unit sact" where
  "sweep_coin env entry = (case entry of (key, coin) \<Rightarrow>
     bnd (resume_sweep env key coin) (\<lambda>finished.
     if finished then ret ()
     else (case sweep_target (w_lib env) coin of
       None \<Rightarrow> ret ()
     | Some (p, input_value) \<Rightarrow>
         bnd (sweep_ready env coin p) (\<lambda>ready.
         if \<not> ready then ret ()
         else
           seq (claim_swap coin)
           (bnd (on_wallet (build_sweep env coin input_value)) (\<lambda>(address, spend). case spend of
              Inr spend_tx \<Rightarrow> send_sweep env key coin spend_tx
            | Inl e \<Rightarrow> if is_fatal e then fail e else on_wallet (unmark_on_failure address)))))))"

definition completed_swapcoins :: "bitcoin_lib \<Rightarrow> Txid set option \<Rightarrow> WalletStore \<Rightarrow> (Txid \<times> IncomingSwapCoin) list" where
  "completed_swapcoins lib contract_txids s =
     filter (\<lambda>(_, c). (in_other_privkey c \<noteq> None \<or> in_hash_preimage c \<noteq> None) \<and>
       (case contract_txids of None \<Rightarrow> True | Some ids \<Rightarrow> compute_txid lib (in_contract_tx c) \<in> ids))
       (incoming_swapcoins s)"

text \<open>Also returned: whether the wallet is synced now, which the caller's flag records.\<close>

definition broadcast_incoming_sweeps ::
  "wallet_env \<Rightarrow> Txid set option \<Rightarrow> bool \<Rightarrow> (SentSpend list \<times> string set \<times> bool) wact" where
  "broadcast_incoming_sweeps env contract_txids synced =
     bnd (gets (\<lambda>w. completed_swapcoins (w_lib env) contract_txids (wstore w))) (\<lambda>completed.
     if completed = [] then ret ([], {}, synced)
     else
       seq (on_cond (\<not> synced) (sync_and_save env))
       (\<lambda>w. case for_each completed (\<lambda>entry. for_coin (sweep_coin env entry)) (w, \<lparr>sweeps = [], claiming = {}\<rparr>) of
          (r, (w, acc)) \<Rightarrow>
            bnd (liftR r) (\<lambda>_. bnd (attempt (save_to_disk env)) (\<lambda>_. ret (sweeps acc, claiming acc, True))) w))"

section \<open>Recording what was mined\<close>

type_synonym report_map = "(((string + Txid) \<times> bool) \<times> Txid list) list"

definition add_report :: "string + Txid \<Rightarrow> bool \<Rightarrow> Txid \<Rightarrow> report_map \<Rightarrow> report_map" where
  "add_report swap_id hashlock id_tx m =
     AList.update (swap_id, hashlock)
       ((case map_of m (swap_id, hashlock) of Some ids \<Rightarrow> ids | None \<Rightarrow> []) @ [id_tx]) m"

definition mark_claimed :: "string \<Rightarrow> WalletStore \<Rightarrow> WalletStore" where
  "mark_claimed swap_id s =
     s\<lparr>outgoing_swapcoins := map (\<lambda>(k, c). (k, if out_swap_id c = Some swap_id then c\<lparr>incoming_claimed := True\<rparr> else c))
         (outgoing_swapcoins s)\<rparr>"

text \<open>The bookkeeping of one sweep, one refund and one discarded coin.\<close>

type_synonym books = "WalletStore \<times> report_map \<times> RecoveryOutcome"

definition book_sweep :: "SentSpend \<Rightarrow> books \<Rightarrow> books" where
  "book_sweep spend b = (case (spend, b) of ((key, contract_txid, id_tx), (s, reports_of, outcome)) \<Rightarrow>
     (case remove_incoming_swapcoin key s of
        (None, s) \<Rightarrow> (s, reports_of, outcome)
      | (Some coin, s) \<Rightarrow>
          (case in_swap_id coin of Some i \<Rightarrow> mark_claimed i s | None \<Rightarrow> s,
           case in_swap_id coin of
             Some i \<Rightarrow> if in_other_privkey coin = None then add_report (Inl i) True id_tx reports_of else reports_of
           | None \<Rightarrow> reports_of,
           outcome\<lparr>resolved := resolved outcome @ [(contract_txid, id_tx)]\<rparr>)))"

definition book_refund :: "SentSpend \<Rightarrow> books \<Rightarrow> books" where
  "book_refund spend b = (case (spend, b) of ((key, contract_txid, id_tx), (s, reports_of, outcome)) \<Rightarrow>
     (case remove_outgoing_swapcoin key s of
        (None, s) \<Rightarrow> (s, reports_of, outcome)
      | (Some coin, s) \<Rightarrow>
          (s, add_report (case out_swap_id coin of Some i \<Rightarrow> Inl i | None \<Rightarrow> Inr key) False id_tx reports_of,
           outcome\<lparr>resolved := resolved outcome @ [(contract_txid, id_tx)]\<rparr>)))"

definition book_discard :: "bitcoin_lib \<Rightarrow> Txid \<Rightarrow> books \<Rightarrow> books" where
  "book_discard lib key b = (case b of (s, reports_of, outcome) \<Rightarrow>
     (case remove_outgoing_swapcoin key s of
        (None, s) \<Rightarrow> (s, reports_of, outcome)
      | (Some coin, s) \<Rightarrow>
          (s, reports_of, outcome\<lparr>discarded := discarded outcome @ [compute_txid lib (out_contract_tx coin)]\<rparr>)))"

fun keep_mined :: "wallet_env \<Rightarrow> bool \<Rightarrow> SentSpend list \<Rightarrow> SentSpend list wact" where
  "keep_mined env confirmed [] = ret []"
| "keep_mined env confirmed (spend # spends) =
     bnd (if confirmed then ret True
          else bnd (ask_query env (\<lambda>c t. c_tx_block_height c t (snd (snd spend)))) (\<lambda>r.
            ret (case r of Inr (Some _) \<Rightarrow> True | _ \<Rightarrow> False))) (\<lambda>mined.
     bnd (keep_mined env confirmed spends) (\<lambda>rest. ret (if mined then spend # rest else rest)))"

definition no_outcome :: RecoveryOutcome where
  "no_outcome = \<lparr>resolved = [], discarded = []\<rparr>"

definition recovery_report :: "wallet_env \<Rightarrow> SwapRole \<Rightarrow> nat \<Rightarrow> ((string + Txid) \<times> bool) \<times> Txid list \<Rightarrow> RecoveryReport" where
  "recovery_report env role t entry = (case entry of ((swap_id, hashlock), ids) \<Rightarrow>
     \<lparr>rr_swap_id = swap_id, rr_role = role, rr_node = (if role = MakerRole then w_node env else None),
      rr_hashlock = hashlock, rr_txids = ids, rr_network = w_network env, rr_timestamp = w_now env t\<rparr>)"

text \<open>The books are saved together with the reports; on a failed write the coins and the reports go back.\<close>

definition save_books :: "wallet_env \<Rightarrow> SwapRole option \<Rightarrow> WalletStore \<Rightarrow> report_map \<Rightarrow> unit wact" where
  "save_books env role s reports_of w =
     (let entries = (case role of Some r \<Rightarrow> map (recovery_report env r (wclock w)) reports_of | None \<Rightarrow> []);
          previous = wstore w
      in case save_to_disk env (w\<lparr>wstore := s\<lparr>reports := reports s @ entries\<rparr>\<rparr>) of
           (Inr _, w) \<Rightarrow> (Inr (), w)
         | (Inl e, w) \<Rightarrow>
             (Inl e, on_store (\<lambda>s. s\<lparr>incoming_swapcoins := incoming_swapcoins previous,
               outgoing_swapcoins := outgoing_swapcoins previous, reports := reports previous\<rparr>) w))"

text \<open>The books after the sweeps, the refunds and the discarded coins.\<close>

definition booked ::
  "bitcoin_lib \<Rightarrow> SentSpend list \<Rightarrow> SentSpend list \<Rightarrow> Txid list \<Rightarrow> WalletStore \<Rightarrow>
   WalletStore \<times> report_map \<times> RecoveryOutcome \<times> RecoveryOutcome" where
  "booked lib swept refunded dropped s =
     (let (s, m, incoming) = fold book_sweep swept (s, [], no_outcome);
          (s, m, outgoing) = fold book_refund refunded (s, m, no_outcome);
          (s, m, outgoing) = fold (book_discard lib) dropped (s, m, outgoing)
      in (s, m, incoming, outgoing))"

definition is_empty_outcome :: "RecoveryOutcome \<Rightarrow> bool" where
  "is_empty_outcome o1 = (resolved o1 = [] \<and> discarded o1 = [])"

definition close_books ::
  "wallet_env \<Rightarrow> SwapRole option \<Rightarrow> wallet_error + u32 \<Rightarrow> SentSpend list \<Rightarrow> SentSpend list \<Rightarrow> Txid list \<Rightarrow>
   (RecoveryOutcome \<times> RecoveryOutcome) wact" where
  "close_books env report_role confirmed swept refunded discarded_keys w =
     (case booked (w_lib env) swept refunded discarded_keys (wstore w) of (s, reports_of, incoming, outgoing) \<Rightarrow>
        let nothing = (is_empty_outcome incoming \<and> is_empty_outcome outgoing) in
        seq (if nothing then modify (\<lambda>w. w\<lparr>wstore := s\<rparr>) else save_books env report_role s reports_of)
        (case confirmed of
           Inl e \<Rightarrow> if nothing then fail e else ret (incoming, outgoing)
         | Inr _ \<Rightarrow> ret (incoming, outgoing)) w)"

definition finish_recoveries ::
  "wallet_env \<Rightarrow> SentSpend list \<Rightarrow> SentSpend list \<Rightarrow> Txid list \<Rightarrow> SwapRole option \<Rightarrow>
   (RecoveryOutcome \<times> RecoveryOutcome) wact" where
  "finish_recoveries env sweeps_sent refunds_sent discarded_keys report_role =
     (let txids = map (\<lambda>(_, _, id_tx). id_tx) (sweeps_sent @ refunds_sent) in
      bnd (attempt (wait_for_tx_confirmation env txids 1 TX_BROADCAST_TIMEOUT True None)) (\<lambda>confirmed.
      bnd (keep_mined env (is_ok confirmed) sweeps_sent) (\<lambda>swept.
      bnd (keep_mined env (is_ok confirmed) refunds_sent) (\<lambda>refunded.
      close_books env report_role confirmed swept refunded discarded_keys))))"

section \<open>The passes\<close>

definition recover_timelocked_swapcoins :: "wallet_env \<Rightarrow> string set option \<Rightarrow> RecoveryOutcome wact" where
  "recover_timelocked_swapcoins env scope =
     bnd (broadcast_timelock_recoveries env scope (\<lambda>_. False) (\<lambda>_. False) False True) (\<lambda>(sent, dropped).
     bnd (finish_recoveries env [] sent dropped (Some MakerRole)) (\<lambda>(_, outgoing). ret outgoing))"

definition sweep_incoming_swapcoins :: "wallet_env \<Rightarrow> Txid set option \<Rightarrow> SwapRole option \<Rightarrow> RecoveryOutcome wact" where
  "sweep_incoming_swapcoins env contract_txids role =
     bnd (broadcast_incoming_sweeps env contract_txids False) (\<lambda>(sent, _, _).
     bnd (finish_recoveries env sent [] [] role) (\<lambda>(incoming, _). ret incoming))"

text \<open>
  A sweep step that fails leaves the flag \<open>synced\<close> as it was: it fails only in the sync, before the
  flag is set.
\<close>

definition recover_swapcoins :: "wallet_env \<Rightarrow> Txid set \<Rightarrow> string set \<Rightarrow> (RecoveryOutcome \<times> RecoveryOutcome) wact" where
  "recover_swapcoins env contract_txids ids =
     bnd (attempt (broadcast_incoming_sweeps env (Some contract_txids) False)) (\<lambda>r.
     bnd (case r of
            Inr (swept, claims, synced) \<Rightarrow> ret (swept, claims, synced, False)
          | Inl e \<Rightarrow> if is_fatal e then fail e else ret ([], {}, False, True)) (\<lambda>(swept, claims, synced, sweep_failed).
     bnd (gets (\<lambda>w. set (List.map_filter (\<lambda>(_, c). if incoming_claimed c then out_swap_id c else None)
            (outgoing_swapcoins (wstore w))))) (\<lambda>claimed.
     bnd (broadcast_timelock_recoveries env (Some ids) (\<lambda>i. sweep_failed \<or> i \<in> claims \<or> i \<in> claimed)
            (\<lambda>i. i \<in> claims \<or> i \<in> claimed) synced False) (\<lambda>(sent, dropped).
     finish_recoveries env swept sent dropped (Some TakerRole)))))"

end
