(* ===== verification/Frames.thy ===== *)
theory Frames
  imports Recovery
begin

text \<open>
  What the wallet's programs leave alone. A relation between the world before and after that
  is reflexive, transitive and allows the passing of time, a save, and a change of what only a
  sync writes, holds for every program that asks the chain, waits or synchronises. The locale
  \<open>sync_frame\<close> proves this once; its interpretations give what recovery keeps of the wallet and
  which transactions it sends.
\<close>

section \<open>Programs over captured variables\<close>

definition lift_rel :: "(world \<Rightarrow> world \<Rightarrow> bool) \<Rightarrow> world \<times> 'acc \<Rightarrow> world \<times> 'acc \<Rightarrow> bool" where
  "lift_rel R p q \<longleftrightarrow> R (fst p) (fst q)"

lemma lift_rel_rules:
  shows lift_rel_refl: "reflp R \<Longrightarrow> reflp (lift_rel R)"
    and lift_rel_trans: "transp R \<Longrightarrow> transp (lift_rel R)"
  by (auto simp: lift_rel_def reflp_def transp_def)

lemma steps_on_wallet: "steps R m \<Longrightarrow> steps (lift_rel R) (on_wallet m)"
  by (auto simp: steps_def on_wallet_def lift_rel_def case_prod_beta)

lemma steps_capture: "reflp R \<Longrightarrow> steps (lift_rel R) (capture f)"
  by (simp add: steps_def capture_def modify_def lift_rel_def reflp_def)

lemma steps_for_coin: "steps R m \<Longrightarrow> steps R (for_coin m)"
  by (auto simp: steps_def for_coin_def case_prod_beta split: sum.split)

section \<open>Synchronising\<close>

text \<open>What a sync never touches: the coins, the reservations, the contract bindings and the reports.\<close>

definition same_books :: "WalletStore \<Rightarrow> WalletStore \<Rightarrow> bool" where
  "same_books s s' \<longleftrightarrow>
     incoming_swapcoins s' = incoming_swapcoins s \<and> outgoing_swapcoins s' = outgoing_swapcoins s \<and>
     watchonly_swapcoins s' = watchonly_swapcoins s \<and> prevout_to_contract_map s' = prevout_to_contract_map s \<and>
     swept_incoming_swapcoins s' = swept_incoming_swapcoins s \<and> swap_locks s' = swap_locks s \<and>
     ln_pending_swaps s' = ln_pending_swaps s \<and> ln_maker_swaps s' = ln_maker_swaps s \<and> reports s' = reports s"

locale sync_frame =
  fixes R :: "world \<Rightarrow> world \<Rightarrow> bool"
  assumes R_refl: "reflp R"
    and R_trans: "transp R"
    and R_time: "R w (w\<lparr>wclock := t, wtime := n\<rparr>)"
    and R_watch: "R w (w\<lparr>watched := a, hd_paths := p\<rparr>)"
    and R_sync: "same_books (wstore w) s \<Longrightarrow> R w (w\<lparr>wstore := s\<rparr>)"
    and R_disk: "R w (w\<lparr>disk := wstore w\<rparr>)"
begin

lemmas R_rules = R_refl R_trans

lemma elapse_R: "R w (elapse env w)"
  unfolding elapse_def by (rule R_time)

lemma R_step: "R a b \<Longrightarrow> R b c \<Longrightarrow> R a c"
  using R_trans by (rule transpD)

lemma R_same: "R w w"
  using R_refl by (rule reflpD)

lemma tick_R [steps_intros]: "steps R (tick env f)"
  by (simp add: steps_def tick_def elapse_R)

lemma save_to_disk_R [steps_intros]: "steps R (save_to_disk env)"
  unfolding steps_def save_to_disk_def
  using R_step[OF R_disk elapse_R] elapse_R by (auto split: save_outcome.split)

lemma sleep_second_R [steps_intros]: "steps R (sleep_second env)"
proof -
  have "R w ((elapse env w)\<lparr>wtime := n\<rparr>)" for w n
    using R_time[where t = "Suc (wclock w)" and n = n] by (simp add: elapse_def)
  then show ?thesis by (simp add: steps_def sleep_second_def)
qed

lemma now_instant_R [steps_intros]: "steps R (now_instant env)"
  by (simp add: steps_def now_instant_def elapse_R)

lemma query_R [steps_intros]: "steps R (query env f)"
  unfolding query_def by (rule tick_R)

lemma ask_query_R [steps_intros]: "steps R (ask_query env f)"
  unfolding ask_query_def by (intro steps_intros)

lemma store_R: "(\<And>s. same_books s (f s)) \<Longrightarrow> steps R (modify (on_store f))"
  by (rule steps_modify) (simp add: on_store_def R_sync)

lemma sync_fields_R [steps_intros]:
  "steps R (modify (on_store (\<lambda>s. s\<lparr>external_index := a s\<rparr>)))"
  "steps R (modify (on_store (\<lambda>s. s\<lparr>internal_index := a s\<rparr>)))"
  "steps R (modify (on_store (\<lambda>s. s\<lparr>offer_maxsize := a s\<rparr>)))"
  "steps R (modify (on_store (\<lambda>s. s\<lparr>fidelity_bonds := b s\<rparr>)))"
  "steps R (modify (on_store (\<lambda>s. s\<lparr>last_synced_height := h s\<rparr>)))"
  "steps R (modify (on_store (\<lambda>s. s\<lparr>pending_restore := pr s\<rparr>)))"
  by (rule store_R, simp add: same_books_def)+

lemma watch_script_R [steps_intros]: "steps R (modify (watch_script env script origin))"
  by (rule steps_modify) (auto simp: watch_script_def R_watch R_same)

lemma check_shutdown_R [steps_intros]: "steps R (check_shutdown env)"
  unfolding check_shutdown_def by (rule tick_R)

lemma wait_for_shutdown_R [steps_intros]: "steps R (wait_for_shutdown env n)"
  by (induction n) (auto intro!: steps_intros R_rules)

lemma check_interrupts_R [steps_intros]: "steps R (check_interrupts env sd ab)"
  by (auto simp: check_interrupts_def split: option.split intro!: steps_intros R_rules)

lemma pause_between_polls_R [steps_intros]: "steps R (pause_between_polls env sd ab n)"
  by (induction n) (auto intro!: steps_intros R_rules)

lemma poll_tx_R [steps_intros]: "steps R (poll_tx env n tmo x acc)"
  by (auto simp: poll_tx_def Let_def split: prod.split sum.split option.split intro!: steps_intros R_rules)

lemma absent_everywhere_R [steps_intros]: "steps R (absent_everywhere env xs)"
  by (induction xs) (auto split: sum.split bool.split intro!: steps_intros R_rules)

lemma report_missing_R [steps_intros]: "steps R (report_missing env xs)"
  by (auto simp: report_missing_def Let_def intro!: steps_intros R_rules)

lemma poll_round_R: "steps R (poll_round env txids n tmo sd ab started st)"
  by (auto simp: poll_round_def Let_def split: prod.split sum.split intro!: steps_intros R_rules)

lemma wait_rounds_R: "R w (snd (wait_rounds env txids n tmo sd ab started st w))"
proof (induction env txids n tmo sd ab started st w rule: wait_rounds.induct)
  case (1 env txids n tmo sd ab started st w)
  obtain r w1 where eq: "poll_round env txids n tmo sd ab started st w = (r, w1)" by (rule prod.exhaust)
  have first: "R w w1" using poll_round_R eq by (rule stepsD)
  show ?case
  proof (cases "\<exists>st'. r = Inr (Inl st')")
    case True
    then obtain st' where r: "r = Inr (Inl st')" by blast
    have "R w1 (snd (wait_rounds env txids n tmo sd ab started st' w1))"
      using 1[OF eq[symmetric] r refl] .
    from R_step[OF first this] show ?thesis by (simp add: wait_rounds.simps[of _ _ _ _ _ _ _ _ w] eq r)
  next
    case False
    then show ?thesis using first
      by (auto simp: wait_rounds.simps[of _ _ _ _ _ _ _ _ w] eq split: sum.split)
  qed
qed

lemma wait_for_tx_confirmation_R [steps_intros]: "steps R (wait_for_tx_confirmation env txids n tmo sd ab)"
proof -
  have "steps R (wait_rounds env txids n tmo sd ab started st)" for started st
    by (simp add: steps_def wait_rounds_R)
  then show ?thesis by (auto simp: wait_for_tx_confirmation_def intro!: steps_intros R_rules)
qed

lemma list_unspent_R [steps_intros]: "steps R (list_unspent env)"
  by (simp add: steps_def list_unspent_def tick_def elapse_R)

lemma refresh_utxos_books: "refresh_utxos env origins us new s = (r, s') \<Longrightarrow> same_books s s'"
proof (induction env origins us new s rule: refresh_utxos.induct)
  case (1 env origins new s)
  then show ?case by (simp add: same_books_def)
next
  case (2 env origins u us new s)
  then show ?case
    by (auto simp: same_books_def split: option.splits prod.splits sum.splits)
qed

lemma update_utxo_cache_R [steps_intros]: "steps R (update_utxo_cache env us)"
  unfolding steps_def
proof
  fix w :: world
  let ?s = "(wstore w)\<lparr>utxo_cache := fold AList.delete (filter (\<lambda>p. p \<notin> set (map u_outpoint us)) (map fst (utxo_cache (wstore w)))) (utxo_cache (wstore w))\<rparr>"
  obtain r s' where eq: "refresh_utxos env (hd_origin_for_script w) us [] ?s = (r, s')" by (rule prod.exhaust)
  have books: "same_books (wstore w) s'" using refresh_utxos_books[OF eq] by (simp add: same_books_def)
  then have "same_books (wstore w) (s'\<lparr>utxo_cache := c\<rparr>)" for c by (simp add: same_books_def)
  with books show "R w (snd (update_utxo_cache env us w))"
    unfolding update_utxo_cache_def Let_def eq by (auto intro!: R_sync split: sum.split)
qed

lemma has_history_R [steps_intros]: "steps R (has_history env kc probe tys)"
  by (induction tys) (auto intro!: steps_intros R_rules)

lemma probe_history_R: "R w (snd (probe_history env kc gap nxt e probe w))"
proof (induction env kc gap nxt e probe w rule: probe_history.induct)
  case (1 env kc gap nxt e probe w)
  obtain r w1 where eq: "has_history env kc probe [P2WPKH, P2TR] w = (r, w1)" by (rule prod.exhaust)
  have first: "R w w1" using has_history_R eq by (rule stepsD)
  show ?case
    using 1[OF _ eq[symmetric]] R_step[OF first] first R_same[of w]
    by (auto simp: probe_history.simps[of env kc gap nxt e probe w] eq simp del: has_history.simps split: sum.split bool.split)
qed

lemma find_hd_next_index_R [steps_intros]: "steps R (find_hd_next_index env kc)"
proof -
  have "steps R (probe_history env kc gap nxt e probe)" for gap nxt e probe
    by (simp add: steps_def probe_history_R)
  then show ?thesis
    by (auto simp: find_hd_next_index_def Let_def split: option.split intro!: steps_intros R_rules)
qed

lemma max_watch_index_R [steps_intros]: "steps R (max_watch_index env kc)"
  by (auto simp: max_watch_index_def Let_def intro!: steps_intros R_rules)

lemma watch_window_R [steps_intros]: "steps R (watch_window env)"
  by (auto simp: watch_window_def intro!: steps_intros R_rules)

lemma steps_at: "(\<And>w. steps R (f w)) \<Longrightarrow> steps R (\<lambda>w. f w w)"
  by (simp add: steps_def)

lemma get_next_external_address_R [steps_intros]: "steps R (get_next_external_address env a)"
  unfolding get_next_external_address_def Let_def
  by (rule steps_at) (auto split: list.split intro!: steps_intros R_rules)

lemma get_next_internal_addresses_R [steps_intros]: "steps R (get_next_internal_addresses env n a)"
proof -
  have "steps R (bnd (tick env (\<lambda>t. w_derive_addresses env t a Internal start stop)) (\<lambda>addresses.
      bnd (modify (on_store (\<lambda>s. s\<lparr>internal_index := nxt\<rparr>))) (\<lambda>_. seq (save_to_disk env) (ret addresses))))"
    for start stop nxt by (intro steps_intros R_rules)
  then show ?thesis
    using R_same by (simp add: steps_def get_next_internal_addresses_def Let_def)
qed

lemma corroborate_utxos_R [steps_intros]: "steps R (corroborate_utxos env us)"
  unfolding corroborate_utxos_def by (auto intro!: steps_intros R_rules)

lemma rolling_passes_R [steps_intros]:
  assumes "\<And>st. steps R (pass st)"
  shows "steps R (rolling_passes env pass n prev st)"
  by (induction n arbitrary: prev st) (auto intro!: steps_intros R_rules assms)

lemma sync_with_rolling_gap_limit_R [steps_intros]:
  "(\<And>st. steps R (pass st)) \<Longrightarrow> steps R (sync_with_rolling_gap_limit env pass st)"
  unfolding sync_with_rolling_gap_limit_def by (auto intro!: steps_intros R_rules)

lemma post_sync_updates_R [steps_intros]: "steps R (post_sync_updates env)"
  unfolding post_sync_updates_def refresh_offer_maxsize_cache_def by (intro steps_intros R_rules)

lemma descriptors_to_import_R [steps_intros]: "steps R (descriptors_to_import env)"
  unfolding descriptors_to_import_def get_unimported_wallet_desc_def Let_def by (intro steps_intros R_rules)

lemma import_descriptors_R [steps_intros]: "steps R (import_descriptors env ds t)"
  unfolding import_descriptors_def by (auto split: prod.split intro!: steps_intros R_rules)

lemma watch_keychain_R [steps_intros]: "steps R (watch_keychain env ty fp kc)"
  unfolding watch_keychain_def by (intro steps_intros R_rules)

lemma watch_swapcoin_R [steps_intros]: "steps R (watch_swapcoin env coin)"
  unfolding watch_swapcoin_def Let_def
  by (auto split: prod.split option.split intro!: steps_intros R_rules)

lemma watch_wallet_scripts_R [steps_intros]: "steps R (watch_wallet_scripts env)"
  unfolding watch_wallet_scripts_def by (intro steps_intros R_rules)

lemma await_scan_R [steps_intros]: "steps R (await_scan env n)"
  by (induction n) (auto intro!: steps_intros R_rules)

lemma core_pass_R [steps_intros]: "steps R (core_pass env t ds)"
  unfolding core_pass_def by (intro steps_intros R_rules)

lemma scan_start_R [steps_intros]: "steps R (scan_start env)"
  unfolding scan_start_def by (auto intro!: steps_intros R_rules)

lemma sync_core_R [steps_intros]: "steps R (sync_core env)"
  unfolding sync_core_def by (auto intro!: steps_intros R_rules)

lemma sync_no_rescan_R [steps_intros]: "steps R (sync_no_rescan env)"
  unfolding sync_no_rescan_def by (intro steps_intros R_rules)

lemma sync_no_fail_R [steps_intros]: "steps R (sync_no_fail env n)"
  by (induction n) (auto simp: sync_def split: sum.split intro!: steps_intros R_rules)

lemma recover_fidelity_bonds_R [steps_intros]: "steps R (recover_fidelity_bonds env)"
  unfolding recover_fidelity_bonds_def Let_def by (intro steps_intros R_rules)

lemma sync_and_save_R [steps_intros]: "steps R (sync_and_save env)"
  unfolding sync_and_save_def by (auto intro!: steps_intros R_rules)

text \<open>What only asks the chain.\<close>

lemma inputs_spent_elsewhere_R [steps_intros]: "steps R (inputs_spent_elsewhere env tx)"
proof -
  have "steps R (inputs_spent_elsewhere_from env tx ins)" for ins
    by (induction ins) (auto simp: Let_def split: sum.split option.split intro!: steps_intros R_rules)
  then show ?thesis by (simp add: inputs_spent_elsewhere_def)
qed

lemma funding_seen_R [steps_intros]: "steps R (funding_seen env coin)"
  unfolding funding_seen_def by (auto split: list.split intro!: steps_intros R_rules)

lemma all_inputs_unspent_R [steps_intros]: "steps R (all_inputs_unspent env ins)"
  by (induction ins) (auto simp: Let_def intro!: steps_intros R_rules)

lemma unsent_funding_state_R [steps_intros]: "steps R (unsent_funding_state env coin)"
  unfolding unsent_funding_state_def by (auto split: option.split intro!: steps_intros R_rules)

lemma pending_own_recovery_R [steps_intros]: "steps R (pending_own_recovery env coin)"
  unfolding pending_own_recovery_def Let_def by (auto intro!: steps_intros R_rules)

lemma mined_contract_state_R [steps_intros]: "steps R (mined_contract_state env coin p)"
  unfolding mined_contract_state_def by (auto split: option.split intro!: steps_intros R_rules)

lemma funding_is_dead_R [steps_intros]: "steps R (funding_is_dead env coin)"
  unfolding funding_is_dead_def by (auto split: option.split intro!: steps_intros R_rules)

lemma scan_unsent_R [steps_intros]: "steps R (scan_unsent env entry acc)"
  unfolding scan_unsent_def Let_def
  by (auto split: prod.split sum.split bool.split option.split intro!: steps_intros R_rules)

lemma recovery_feerates_R [steps_intros]: "steps R (recovery_feerates env)"
proof -
  have "steps R (estimate_rates env ts)" for ts
    by (induction ts) (auto split: sum.split intro!: steps_intros R_rules)
  then show ?thesis by (simp add: recovery_feerates_def)
qed

lemma replacement_increment_rate_R [steps_intros]: "steps R (replacement_increment_rate env)"
  unfolding replacement_increment_rate_def by (intro steps_intros R_rules)

lemma first_hops_refunded_R [steps_intros]: "steps R (first_hops_refunded env i)"
proof -
  have "steps R (hops_dangling env d hops)" for d hops
    by (induction hops arbitrary: d) (auto simp: Let_def intro!: steps_intros R_rules)
  then show ?thesis by (auto simp: first_hops_refunded_def Let_def intro!: steps_intros R_rules)
qed

lemma next_internal_address_R [steps_intros]: "steps R (next_internal_address env)"
  unfolding next_internal_address_def by (auto split: list.split intro!: steps_intros R_rules)

lemma keep_mined_R [steps_intros]: "steps R (keep_mined env ok spends)"
  by (induction spends) (auto intro!: steps_intros R_rules)

lemma draw_nonce_R [steps_intros]: "steps R (draw_nonce env)"
  unfolding draw_nonce_def by (rule tick_R)

end

end
