(* ===== verification/Books.thy ===== *)
theory Books
  imports Frames
begin

text \<open>
  The wallet's books: coins, reservations and contract bindings. Recovery never reserves an
  input, never touches a coin's keys or scripts, and never takes back \<open>committed\<close>,
  \<open>incoming_claimed\<close> or a stored recovery address. Over any sequence of the wallet's operations
  no input is reserved for two swaps, and a failed write leaves the coins in memory as they
  were.
\<close>

section \<open>How the books evolve\<close>

text \<open>An outgoing coin gains flags and its recovery address; nothing else of it changes.\<close>

definition out_core :: "OutgoingSwapCoin \<Rightarrow> OutgoingSwapCoin" where
  "out_core c = c\<lparr>out_recovery_address := None, committed := False, incoming_claimed := False\<rparr>"

definition out_later :: "OutgoingSwapCoin \<Rightarrow> OutgoingSwapCoin \<Rightarrow> bool" where
  "out_later c c' \<longleftrightarrow>
     out_core c' = out_core c \<and> (committed c \<longrightarrow> committed c') \<and> (incoming_claimed c \<longrightarrow> incoming_claimed c') \<and>
     (out_recovery_address c = None \<or> out_recovery_address c' = out_recovery_address c)"

text \<open>An incoming coin may lose its preimage, and gains the sweep built for it.\<close>

definition in_core :: "IncomingSwapCoin \<Rightarrow> IncomingSwapCoin" where
  "in_core c = c\<lparr>in_hash_preimage := None, in_spending_tx := None\<rparr>"

definition in_later :: "IncomingSwapCoin \<Rightarrow> IncomingSwapCoin \<Rightarrow> bool" where
  "in_later c c' \<longleftrightarrow>
     in_core c' = in_core c \<and> (in_hash_preimage c' = None \<or> in_hash_preimage c' = in_hash_preimage c) \<and>
     (in_spending_tx c \<noteq> None \<longrightarrow> in_spending_tx c' \<noteq> None)"

definition locks_later :: "SwapReservation \<Rightarrow> SwapReservation \<Rightarrow> bool" where
  "locks_later l l' \<longleftrightarrow> outpoints l' \<subseteq> outpoints l"

definition map_later :: "('v \<Rightarrow> 'v \<Rightarrow> bool) \<Rightarrow> ('k \<times> 'v) list \<Rightarrow> ('k \<times> 'v) list \<Rightarrow> bool" where
  "map_later L m m' \<longleftrightarrow>
     (distinct (map fst m) \<longrightarrow> distinct (map fst m')) \<and>
     (\<forall>k c'. map_of m' k = Some c' \<longrightarrow> (\<exists>c. map_of m k = Some c \<and> L c c'))"

definition books_later :: "WalletStore \<Rightarrow> WalletStore \<Rightarrow> bool" where
  "books_later s s' \<longleftrightarrow>
     map_later out_later (outgoing_swapcoins s) (outgoing_swapcoins s') \<and>
     map_later in_later (incoming_swapcoins s) (incoming_swapcoins s') \<and>
     map_later locks_later (swap_locks s) (swap_locks s') \<and>
     prevout_to_contract_map s' = prevout_to_contract_map s"

definition evolves :: "world \<Rightarrow> world \<Rightarrow> bool" where
  "evolves w w' \<longleftrightarrow> books_later (wstore w) (wstore w')"

lemma out_later_refl: "out_later c c"
  by (simp add: out_later_def)

lemma out_later_trans: "transp out_later"
  by (auto simp: transp_def out_later_def)

lemma in_later_refl: "in_later c c"
  by (simp add: in_later_def)

lemma in_later_trans: "transp in_later"
  by (auto simp: transp_def in_later_def)

lemma locks_later_refl: "locks_later l l"
  by (simp add: locks_later_def)

lemma locks_later_trans: "transp locks_later"
  by (auto simp: transp_def locks_later_def)

lemmas later_refl_rules = out_later_refl in_later_refl locks_later_refl

lemma map_later_refl: "(\<And>c. L c c) \<Longrightarrow> map_later L m m"
  by (auto simp: map_later_def)

lemma map_later_trans:
  assumes "transp L" "map_later L m m'" "map_later L m' m''"
  shows "map_later L m m''"
  using assms(2,3) unfolding map_later_def by (meson transpD[OF assms(1)])

lemma map_later_update: "L v v' \<Longrightarrow> (\<And>c. L c c) \<Longrightarrow> map_of m k = Some v \<Longrightarrow> map_later L m (AList.update k v' m)"
  by (auto simp: map_later_def distinct_update update_conv')

lemma map_later_delete: "(\<And>c. L c c) \<Longrightarrow> map_later L m (AList.delete k m)"
  by (auto simp: map_later_def distinct_delete delete_conv' split: if_splits)

lemma map_of_map_values: "map_of (map (\<lambda>(k, c). (k, f c)) m) k = map_option f (map_of m k)"
  by (induction m) auto

lemma map_later_map:
  assumes "\<And>c. L c (f c)"
  shows "map_later L m (map (\<lambda>(k, c). (k, f c)) m)"
proof -
  have keys: "map fst (map (\<lambda>(k, c). (k, f c)) m) = map fst m" by (induction m) auto
  show ?thesis unfolding map_later_def keys using assms by (auto simp: map_of_map_values)
qed

lemma map_later_entry:
  assumes "\<And>c. map_of m k = Some c \<Longrightarrow> L c (f c)" "\<And>c. L c c"
  shows "map_later L m (update_entry k f m)"
  by (cases "map_of m k") (auto simp: update_entry_def intro: map_later_update map_later_refl assms)

lemma books_later_refl: "books_later s s"
  by (simp add: books_later_def map_later_refl later_refl_rules)

lemmas map_later_transs = map_later_trans[OF out_later_trans]
  map_later_trans[OF in_later_trans] map_later_trans[OF locks_later_trans]

lemma books_later_trans:
  assumes "books_later a b" "books_later b c"
  shows "books_later a c"
proof -
  from assms have ab: "map_later out_later (outgoing_swapcoins a) (outgoing_swapcoins b)"
      "map_later in_later (incoming_swapcoins a) (incoming_swapcoins b)" "map_later locks_later (swap_locks a) (swap_locks b)"
    and bc: "map_later out_later (outgoing_swapcoins b) (outgoing_swapcoins c)"
      "map_later in_later (incoming_swapcoins b) (incoming_swapcoins c)" "map_later locks_later (swap_locks b) (swap_locks c)"
    and "prevout_to_contract_map c = prevout_to_contract_map a"
    by (simp_all only: books_later_def)
  then show ?thesis unfolding books_later_def
    using map_later_transs(1)[OF ab(1) bc(1)] map_later_transs(2)[OF ab(2) bc(2)] map_later_transs(3)[OF ab(3) bc(3)]
    by simp
qed

lemma books_later_same: "same_books s s' \<Longrightarrow> books_later s s'"
  using books_later_refl[of s] by (simp add: books_later_def same_books_def)

interpretation ev: sync_frame evolves
proof (unfold_locales, goal_cases)
  case 2
  show ?case unfolding evolves_def transp_def using books_later_trans by blast
qed (simp_all add: evolves_def reflp_def books_later_refl books_later_same)

text \<open>A program that only looks and synchronises leaves the books as they are.\<close>

definition books_same :: "world \<Rightarrow> world \<Rightarrow> bool" where
  "books_same w w' \<longleftrightarrow> same_books (wstore w) (wstore w')"

interpretation same: sync_frame books_same
  by unfold_locales (auto simp: books_same_def same_books_def reflp_def transp_def)

section \<open>Taking entries out and putting them back\<close>

lemma map_of_extend: "distinct (map fst ps) \<Longrightarrow>
  map_of (extend_entries ps m) k = (case map_of ps k of Some v \<Rightarrow> Some v | None \<Rightarrow> map_of m k)"
proof (induction ps arbitrary: m)
  case Nil
  then show ?case by (simp add: extend_entries_def)
next
  case (Cons p ps)
  obtain a b where p: "p = (a, b)" by (rule prod.exhaust)
  have "map_of ps a = None" using Cons.prems p by (simp add: map_of_eq_None_iff)
  then show ?case using Cons.IH[of "AList.update a b m"] Cons.prems
    by (simp add: extend_entries_def p update_conv' split: option.split)
qed

lemma distinct_extend: "distinct (map fst m) \<Longrightarrow> distinct (map fst (extend_entries ps m))"
  by (induction ps arbitrary: m) (auto simp: extend_entries_def distinct_update)

lemma take_entries_all:
  "take_entries ks m = (taken, m') \<Longrightarrow>
   distinct (map fst taken) \<and> (\<forall>k. map_of taken k = (if k \<in> set ks then map_of m k else None)) \<and>
   (\<forall>k. map_of m' k = (if k \<in> set ks then None else map_of m k)) \<and>
   (distinct (map fst m) \<longrightarrow> distinct (map fst m'))"
proof (induction ks arbitrary: m taken m')
  case (Cons x ks)
  obtain t m1 where eq: "take_entries ks (AList.delete x m) = (t, m1)" by (rule prod.exhaust)
  have taken: "taken = (case map_of m x of None \<Rightarrow> t | Some v \<Rightarrow> (x, v) # t)" and m': "m' = m1"
    using Cons.prems eq by (auto split: option.splits)
  note IH = Cons.IH[OF eq]
  have "map_of t x = None" using IH by (simp add: delete_conv')
  then have "x \<notin> fst ` set t" by (simp add: map_of_eq_None_iff)
  with conjunct1[OF IH] have "distinct (map fst taken)" using taken by (simp split: option.split)
  moreover have "map_of taken k = (if k \<in> set (x # ks) then map_of m k else None)" for k
    using IH taken by (auto simp: delete_conv' split: option.splits)
  ultimately show ?case using IH m' by (auto simp: delete_conv' distinct_delete)
qed auto

lemma take_entries_spec:
  assumes "take_entries ks m = (taken, m')"
  shows "distinct (map fst taken)"
    and "map_of taken k = (if k \<in> set ks then map_of m k else None)"
    and "map_of m' k = (if k \<in> set ks then None else map_of m k)"
    and "distinct (map fst m) \<Longrightarrow> distinct (map fst m')"
  using take_entries_all[OF assms] by simp_all

lemma take_extend:
  assumes "take_entries ks m = (taken, m')"
  shows "map_of (extend_entries taken m') = map_of m"
proof
  fix k
  show "map_of (extend_entries taken m') k = map_of m k"
    using take_entries_spec[OF assms] by (auto simp: map_of_extend split: option.split)
qed

lemma map_later_take: "(\<And>c. L c c) \<Longrightarrow> take_entries ks m = (taken, m') \<Longrightarrow> map_later L m m'"
  using take_entries_spec(3,4)[of ks m taken m'] by (auto simp: map_later_def)

lemma map_later_put_back:
  assumes "\<And>c. L c c" "take_entries ks m = (taken, m')"
  shows "map_later L m (extend_entries taken m')"
  using assms(1) take_extend[OF assms(2)] take_entries_spec(4)[OF assms(2)] distinct_extend
  by (auto simp: map_later_def)

lemma map_later_restore:
  assumes "\<And>c. L c c" "map_later L m m'"
  shows "map_of m k = Some v \<Longrightarrow> map_later L m (AList.update k v m')"
    and "map_later L m (AList.delete k m')"
  using assms by (auto simp: map_later_def distinct_update distinct_delete update_conv' delete_conv' split: if_splits)

section \<open>What recovery does to the books\<close>

lemma store_evolves: "(\<And>s. books_later s (f s)) \<Longrightarrow> steps evolves (modify (on_store f))"
  by (rule steps_modify) (simp add: evolves_def on_store_def)

lemma send_evolves [steps_intros]: "steps evolves (send_raw_transaction env tx)"
  by (simp add: steps_def send_raw_transaction_def evolves_def elapse_def books_later_refl)

lemma books_out: "map_later out_later (outgoing_swapcoins s) m \<Longrightarrow> books_later s (s\<lparr>outgoing_swapcoins := m\<rparr>)"
  by (simp add: books_later_def map_later_refl later_refl_rules)

lemma books_in: "map_later in_later (incoming_swapcoins s) m \<Longrightarrow> books_later s (s\<lparr>incoming_swapcoins := m\<rparr>)"
  by (simp add: books_later_def map_later_refl later_refl_rules)

lemma mark_committed_later: "books_later s (mark_committed key s)"
  unfolding mark_committed_def
  by (rule books_out, rule map_later_entry) (simp_all add: out_later_def out_core_def)

lemma give_up_later: "books_later s (snd (give_up_claims i s))"
  unfolding give_up_claims_def snd_conv
  by (rule books_in, rule map_later_map) (simp add: in_later_def in_core_def)

lemma mark_claimed_later: "books_later s (mark_claimed i s)"
  unfolding mark_claimed_def
  by (rule books_out, rule map_later_map) (simp add: out_later_def out_core_def)

lemma release_later: "books_later s (snd (release_swap_locks i ins s))"
proof -
  have "map_later locks_later (swap_locks s) (swap_locks (snd (release_swap_locks i ins s)))"
    by (auto simp: release_swap_locks_def Let_def locks_later_def
        intro!: map_later_refl map_later_delete map_later_update split: option.split)
  then show ?thesis
    by (simp add: books_later_def map_later_refl later_refl_rules release_swap_locks_def Let_def split: option.split)
qed

lemma commit_seen_evolves [steps_intros]: "steps evolves (commit_seen env key)"
  unfolding commit_seen_def by (intro steps_intros ev.R_rules store_evolves mark_committed_later)

lemma broadcast_contract_evolves [steps_intros]: "steps evolves (broadcast_contract env coin p)"
  unfolding broadcast_contract_def
  by (auto split: sum.split option.split intro!: steps_intros ev.R_rules)

lemma ensure_contract_evolves [steps_intros]: "steps evolves (ensure_contract_on_chain env coin)"
  unfolding ensure_contract_on_chain_def Let_def by (auto intro!: steps_intros ev.R_rules)

lemma classify_evolves [steps_intros]: "steps evolves (classify_coin env ku key coin)"
  unfolding classify_coin_def Let_def by (auto intro!: steps_intros ev.R_rules)

lemma set_address_later:
  assumes "(case map_of (outgoing_swapcoins s) key of Some c \<Rightarrow> out_recovery_address c | None \<Rightarrow> None) = None"
  shows "books_later s (s\<lparr>outgoing_swapcoins :=
    update_entry key (\<lambda>c. c\<lparr>out_recovery_address := Some a\<rparr>) (outgoing_swapcoins s)\<rparr>)"
  using assms by (intro books_out map_later_entry) (auto simp: out_later_def out_core_def)

lemma stored_address_same:
  "books_same w w' \<Longrightarrow>
   (case map_of (outgoing_swapcoins (wstore w')) key of Some c \<Rightarrow> out_recovery_address c | None \<Rightarrow> None) =
   (case map_of (outgoing_swapcoins (wstore w)) key of Some c \<Rightarrow> out_recovery_address c | None \<Rightarrow> None)"
  by (simp add: books_same_def same_books_def)

lemma settle_claims_later: "books_later s (snd (settle_claims proven coin s))"
  by (auto simp: settle_claims_def books_later_refl give_up_later split: option.split)

definition with_address :: "bool \<Rightarrow> Txid \<Rightarrow> ScriptBuf \<Rightarrow> WalletStore \<Rightarrow> WalletStore" where
  "with_address created key address s =
     (if created then s\<lparr>outgoing_swapcoins :=
        update_entry key (\<lambda>c. c\<lparr>out_recovery_address := Some address\<rparr>) (outgoing_swapcoins s)\<rparr> else s)"

lemma write_refund_run:
  "write_refund env proven key coin address created w =
     (let (gave_up, s) = settle_claims proven coin (with_address created key address (wstore w)) in
      on_cond (created \<or> gave_up) (save_to_disk env) (w\<lparr>wstore := s\<rparr>))"
  by (cases created) (simp_all add: write_refund_def seq_def bnd_def gets_def on_cond_def modify_def ret_def
      with_address_def on_store_def case_prod_beta)

lemma write_refund_evolves:
  assumes "created \<longrightarrow> (case map_of (outgoing_swapcoins (wstore w)) key of Some c \<Rightarrow> out_recovery_address c | None \<Rightarrow> None) = None"
  shows "evolves w (snd (write_refund env proven key coin address created w))"
proof -
  let ?s = "with_address created key address (wstore w)"
  let ?w = "w\<lparr>wstore := snd (settle_claims proven coin ?s)\<rparr>"
  have "books_later (wstore w) ?s" using assms set_address_later by (simp add: with_address_def books_later_refl)
  then have "evolves w ?w" using settle_claims_later by (simp add: evolves_def) (rule books_later_trans)
  moreover have "evolves ?w (snd (on_cond b (save_to_disk env) ?w))" for b
    using steps_on_cond[OF ev.R_refl ev.save_to_disk_R] by (simp add: steps_def)
  ultimately show ?thesis using ev.R_step by (simp add: write_refund_run case_prod_beta)
qed

lemma prepare_refund_evolves [steps_intros]: "steps evolves (prepare_refund env proven key coin)"
  unfolding steps_def
proof
  fix w :: world
  let ?stored = "\<lambda>w. case map_of (outgoing_swapcoins (wstore w)) key of Some c \<Rightarrow> out_recovery_address c | None \<Rightarrow> None"
  obtain r w1 where eq: "recovery_address_or_else (?stored w) (next_internal_address env) w = (r, w1)" by (rule prod.exhaust)
  have same: "books_same w w1"
  proof (cases "?stored w")
    case None
    then have "steps books_same (recovery_address_or_else (?stored w) (next_internal_address env))"
      by (auto simp: recovery_address_or_else_def intro!: steps_intros same.R_rules)
    from stepsD[OF this eq] show ?thesis .
  qed (use eq same.R_same in \<open>auto simp: recovery_address_or_else_def ret_def\<close>)
  have first: "evolves w w1" using same by (simp add: evolves_def books_same_def books_later_same)
  have created: "created \<longrightarrow> ?stored w1 = None" if "r = Inr (address, created)" for address created
    using eq that stored_address_same[OF same, of key]
    by (cases "?stored w") (auto simp: recovery_address_or_else_def ret_def bnd_eq_Inr)
  show "evolves w (snd (prepare_refund env proven key coin w))"
  proof (cases r)
    case (Inl e)
    then show ?thesis using first eq by (simp add: prepare_refund_def bnd_def gets_def)
  next
    case (Inr x)
    obtain address created' where x: "x = (address, created')" by (rule prod.exhaust)
    have "evolves w (snd (write_refund env proven key coin address created' w1))"
      using ev.R_step[OF first write_refund_evolves] created Inr x by simp
    moreover have "snd (seq m (ret address) w1) = snd (m w1)" for m :: "unit wact"
      by (simp add: seq_def bnd_def ret_def case_prod_beta split: sum.split)
    ultimately show ?thesis using first eq
      by (auto simp: prepare_refund_def bnd_def gets_def Inr x fail_def)
  qed
qed

lemmas lift_rules = ev.R_rules lift_rel_refl lift_rel_trans steps_on_wallet steps_capture

lemma get_fee_rates_evolves [steps_intros]: "steps (lift_rel evolves) (get_fee_rates env)"
  unfolding get_fee_rates_def by (auto split: option.split intro!: steps_intros lift_rules)

lemma push_refund_evolves [steps_intros]: "steps (lift_rel evolves) (push_refund x)"
  unfolding push_refund_def by (intro lift_rules)

lemma replace_pending_evolves [steps_intros]: "steps (lift_rel evolves) (replace_pending env key coin pending)"
  unfolding replace_pending_def Let_def
  by (auto split: option.split sum.split intro!: steps_intros lift_rules)

lemma send_refund_evolves [steps_intros]: "steps (lift_rel evolves) (send_refund env key coin address)"
  unfolding send_refund_def by (auto split: sum.split intro!: steps_intros lift_rules)

lemma refund_on_chain_evolves [steps_intros]: "steps (lift_rel evolves) (refund_on_chain env cl pr key coin lock)"
  unfolding refund_on_chain_def Let_def
  by (auto split: option.split intro!: steps_intros lift_rules)

lemma recover_coin_evolves [steps_intros]: "steps (lift_rel evolves) (recover_coin env cl pr ku h entry)"
  unfolding recover_coin_def
  by (auto split: prod.split ContractChainState.split intro!: steps_intros lift_rules)

lemma run_captured:
  assumes "steps (lift_rel R) m" "m (w, acc) = (r, (w', acc'))"
  shows "R w w'"
  using stepsD[OF assms] by (simp add: lift_rel_def)

lemma steps_run:
  assumes "transp R" "steps (lift_rel R) m" "\<And>r acc. steps R (k r acc)"
  shows "steps R (\<lambda>w. case m (w, acc) of (r, (w, acc)) \<Rightarrow> k r acc w)"
  unfolding steps_def
proof
  fix w
  obtain r w' acc' where eq: "m (w, acc) = (r, (w', acc'))" by (metis prod.exhaust)
  have "R w w'" using run_captured[OF assms(2) eq] .
  moreover have "R w' (snd (k r acc' w'))" using assms(3) by (simp add: steps_def)
  ultimately show "R w (snd (case m (w, acc) of (r, (w, acc)) \<Rightarrow> k r acc w))"
    using transpD[OF assms(1)] by (simp add: eq)
qed

lemma coins_evolves:
  assumes "\<And>x. steps (lift_rel evolves) (f x)"
  shows "steps (lift_rel evolves) (for_each xs (\<lambda>x. for_coin (f x)))"
  by (intro steps_intros lift_rules steps_for_coin assms)

lemma refunds_evolve [steps_intros]:
  "steps evolves (broadcast_timelock_recoveries env scope cl pr synced ku)"
  unfolding broadcast_timelock_recoveries_def Let_def
  by (auto intro!: steps_intros ev.R_rules steps_run coins_evolves)

section \<open>Sweeps\<close>

lemma claim_swap_evolves [steps_intros]: "steps (lift_rel evolves) (claim_swap coin)"
  unfolding claim_swap_def by (intro lift_rules)

lemma push_sweep_evolves [steps_intros]: "steps (lift_rel evolves) (push_sweep x)"
  unfolding push_sweep_def by (intro lift_rules)

lemma lookup_or_claim_evolves [steps_intros]: "steps (lift_rel evolves) (lookup_or_claim env coin f)"
  unfolding lookup_or_claim_def by (auto split: sum.split intro!: steps_intros lift_rules)

lemma resume_sweep_evolves [steps_intros]: "steps (lift_rel evolves) (resume_sweep env key coin)"
  unfolding resume_sweep_def Let_def by (auto split: option.split intro!: steps_intros lift_rules)

lemma sweep_ready_evolves [steps_intros]: "steps (lift_rel evolves) (sweep_ready env coin p)"
  unfolding sweep_ready_def by (auto split: sum.split intro!: steps_intros lift_rules)

lemma swept_later: "books_later s (s\<lparr>swept_incoming_swapcoins := x\<rparr>)"
  by (simp add: books_later_def map_later_refl later_refl_rules)

lemma build_sweep_evolves [steps_intros]: "steps evolves (build_sweep env coin v)"
  unfolding build_sweep_def
  by (auto split: option.split intro!: steps_intros ev.R_rules store_evolves swept_later)

lemma record_sweep_evolves [steps_intros]: "steps evolves (record_sweep env key tx)"
proof -
  have "steps evolves (\<lambda>w. record_sweep env key tx w)"
    unfolding steps_def
  proof
    fix w :: world
    show "evolves w (snd (record_sweep env key tx w))"
    proof (cases "map_of (incoming_swapcoins (wstore w)) key")
      case None
      then show ?thesis
        by (simp add: record_sweep_def bnd_def gets_def find_incoming_swapcoin_def fail_def ev.R_same)
    next
      case (Some c)
      let ?w = "on_store (\<lambda>s. s\<lparr>incoming_swapcoins := AList.update key (c\<lparr>in_spending_tx := Some tx\<rparr>) (incoming_swapcoins s)\<rparr>) w"
      have "evolves w ?w" unfolding evolves_def on_store_def
        using Some by (auto intro!: books_in map_later_update simp: in_later_def in_core_def)
      moreover have "evolves ?w (snd (save_to_disk env ?w))" using ev.save_to_disk_R by (simp add: steps_def)
      ultimately show ?thesis using Some ev.R_step
        by (auto simp: record_sweep_def bnd_def seq_def gets_def modify_def find_incoming_swapcoin_def)
    qed
  qed
  then show ?thesis by simp
qed

lemma send_sweep_evolves [steps_intros]: "steps (lift_rel evolves) (send_sweep env key coin tx)"
  unfolding send_sweep_def by (auto split: sum.split intro!: steps_intros lift_rules)

lemma unmark_evolves [steps_intros]: "steps evolves (unmark_on_failure a)"
  unfolding unmark_on_failure_def
  by (auto split: option.split intro!: steps_intros ev.R_rules store_evolves swept_later)

lemma sweep_coin_evolves [steps_intros]: "steps (lift_rel evolves) (sweep_coin env entry)"
  unfolding sweep_coin_def
  by (auto split: prod.split option.split sum.split intro!: steps_intros lift_rules)

lemma sweeps_evolve [steps_intros]: "steps evolves (broadcast_incoming_sweeps env ids synced)"
  unfolding broadcast_incoming_sweeps_def
  by (auto intro!: steps_intros ev.R_rules steps_run coins_evolves)

section \<open>Bookkeeping\<close>

lemma book_sweep_later: "books_later s (fst (book_sweep x (s, m, oc)))"
proof -
  have "books_later s (snd (remove_incoming_swapcoin k s))" for k
    unfolding remove_incoming_swapcoin_def snd_conv by (rule books_in, rule map_later_delete) (rule in_later_refl)
  moreover from this have "books_later s (mark_claimed i (snd (remove_incoming_swapcoin k s)))" for i k
    using mark_claimed_later by (rule books_later_trans)
  ultimately show ?thesis
    by (auto simp: book_sweep_def remove_incoming_swapcoin_def split: prod.split option.split)
qed

lemma remove_outgoing_later: "books_later s (snd (remove_outgoing_swapcoin k s))"
  unfolding remove_outgoing_swapcoin_def snd_conv by (rule books_out, rule map_later_delete) (rule out_later_refl)

lemma book_refund_later: "books_later s (fst (book_refund x (s, m, oc)))"
  using remove_outgoing_later[of s "fst x"]
  by (auto simp: book_refund_def remove_outgoing_swapcoin_def split: prod.split option.split)

lemma book_discard_later: "books_later s (fst (book_discard lib k (s, m, oc)))"
  using remove_outgoing_later[of s k]
  by (auto simp: book_discard_def remove_outgoing_swapcoin_def split: prod.split option.split)

lemma fold_books_later:
  assumes "\<And>x s m oc. books_later s (fst (f x (s, m, oc)))"
  shows "books_later (fst b) (fst (fold f xs b))"
proof (induction xs arbitrary: b)
  case (Cons x xs)
  have "books_later (fst b) (fst (f x b))" using assms[of "fst b" x "fst (snd b)" "snd (snd b)"] by simp
  from books_later_trans[OF this Cons.IH] show ?case by simp
qed (simp add: books_later_refl)

lemma books_later_reports: "books_later s s' \<Longrightarrow> books_later s (s'\<lparr>reports := r\<rparr>)"
  by (simp add: books_later_def)

lemma save_books_evolves:
  assumes "books_later (wstore w) s"
  shows "evolves w (snd (save_books env role s m w))"
proof (cases "w_save env (wclock w)")
  case SaveOk
  then show ?thesis using assms
    by (simp add: save_books_def Let_def save_to_disk_def evolves_def elapse_def books_later_reports)
next
  case (SaveFailed e landed)
  have "books_later (wstore w) (s\<lparr>reports := r, incoming_swapcoins := incoming_swapcoins (wstore w),
      outgoing_swapcoins := outgoing_swapcoins (wstore w), reports := reports (wstore w)\<rparr>)" for r
    using assms by (simp add: books_later_def map_later_refl later_refl_rules)
  then show ?thesis using SaveFailed
    by (simp add: save_books_def Let_def save_to_disk_def evolves_def elapse_def on_store_def)
qed

lemma booked_later: "books_later s (fst (booked lib swept refunded dropped s))"
proof -
  define a where "a = fold book_sweep swept (s, [], no_outcome)"
  define b where "b = fold book_refund refunded (fst a, fst (snd a), no_outcome)"
  have "books_later s (fst a)" unfolding a_def using fold_books_later[OF book_sweep_later, where b = "(s, [], no_outcome)"] by simp
  moreover have "books_later (fst a) (fst b)" unfolding b_def
    using fold_books_later[OF book_refund_later, where b = "(fst a, fst (snd a), no_outcome)"] by simp
  moreover have "books_later (fst b) (fst (fold (book_discard lib) dropped b))"
    by (rule fold_books_later[OF book_discard_later])
  ultimately have "books_later s (fst (fold (book_discard lib) dropped b))"
    using books_later_trans by blast
  then show ?thesis by (simp add: booked_def a_def b_def case_prod_beta Let_def)
qed

lemma steps_at_store:
  assumes "\<And>w. R w (snd (f (wstore w) w))"
  shows "steps R (bnd (gets wstore) f)"
  using assms by (simp add: steps_def bnd_def gets_def)

lemma close_books_evolves [steps_intros]: "steps evolves (close_books env role c sw rf dk)"
  unfolding steps_def
proof
  fix w :: world
  obtain s m i j where b: "booked (w_lib env) sw rf dk (wstore w) = (s, m, i, j)" by (metis prod.exhaust)
  have "books_later (wstore w) s" using booked_later[of "wstore w" "w_lib env" sw rf dk] b by simp
  then have "evolves w (snd (save_books env role s m w))" "evolves w (w\<lparr>wstore := s\<rparr>)"
    by (simp_all add: save_books_evolves) (simp add: evolves_def)
  then show "evolves w (snd (close_books env role c sw rf dk w))"
    by (auto simp: close_books_def b Let_def seq_def bnd_def modify_def fail_def ret_def split: sum.split prod.split)
qed

lemma finish_evolves [steps_intros]: "steps evolves (finish_recoveries env sw rf dk role)"
  unfolding finish_recoveries_def Let_def by (intro steps_intros ev.R_rules)

section \<open>Dropping a swap\<close>

lemma remove_swap_evolves [steps_intros]: "steps evolves (remove_swap_coins_and_save env i ri ro)"
  unfolding steps_def
proof
  fix w :: world
  let ?s = "wstore w"
  obtain ti mi where inc: "(if ri then take_entries (incoming_keys_for_swap i ?s) (incoming_swapcoins ?s)
      else ([], incoming_swapcoins ?s)) = (ti, mi)" by (rule prod.exhaust)
  obtain tout mo where out: "(if ro then take_entries (outgoing_keys_for_swap i ?s) (outgoing_swapcoins ?s)
      else ([], outgoing_swapcoins ?s)) = (tout, mo)" by (rule prod.exhaust)
  have i1: "map_later in_later (incoming_swapcoins ?s) mi" "map_later in_later (incoming_swapcoins ?s) (extend_entries ti mi)"
    using inc by (auto split: if_splits intro: map_later_take map_later_put_back map_later_refl later_refl_rules
        simp: extend_entries_def[of "[]"])
  have o1: "map_later out_later (outgoing_swapcoins ?s) mo" "map_later out_later (outgoing_swapcoins ?s) (extend_entries tout mo)"
    using out by (auto split: if_splits intro: map_later_take map_later_put_back map_later_refl later_refl_rules
        simp: extend_entries_def[of "[]"])
  have l1: "map_later locks_later (swap_locks ?s) (AList.delete i (swap_locks ?s))"
    by (rule map_later_delete) (rule locks_later_refl)
  then have l2: "map_later locks_later (swap_locks ?s) (case map_of (swap_locks ?s) i of
      Some r \<Rightarrow> AList.update i r (AList.delete i (swap_locks ?s)) | None \<Rightarrow> AList.delete i (swap_locks ?s))"
    by (auto split: option.split intro: map_later_restore locks_later_refl)
  show "evolves w (snd (remove_swap_coins_and_save env i ri ro w))"
    unfolding remove_swap_coins_and_save_def Let_def inc out evolves_def save_to_disk_def
    using i1 o1 l1 l2 by (auto simp: books_later_def on_store_def elapse_def split: save_outcome.split cong: option.case_cong)
qed

section \<open>Funding that was never sent\<close>

lemma drop_dead_later: "books_later s (drop_dead i entry s)"
  unfolding drop_dead_def using books_out[OF map_later_delete[OF out_later_refl]] release_later
  by (rule books_later_trans)

lemma fold_later: "(\<And>x s. books_later s (f x s)) \<Longrightarrow> books_later s (fold f xs s)"
proof (induction xs arbitrary: s)
  case (Cons x xs)
  from books_later_trans[OF Cons.prems Cons.IH[OF Cons.prems]] show ?case by simp
qed (simp add: books_later_refl)

lemma apply_unsent_later: "books_later s (snd (apply_unsent i g sc s))"
proof -
  let ?s = "fold (drop_dead i) (sc_dead sc) (fold mark_committed (sc_seen sc) s)"
  have "books_later s ?s"
    by (rule books_later_trans[OF fold_later[OF mark_committed_later] fold_later[OF drop_dead_later]])
  moreover from this have "books_later s (snd (release_swap_locks i ins ?s))" for ins
    using release_later by (rule books_later_trans)
  ultimately show ?thesis by (auto simp: apply_unsent_def Let_def split: prod.split)
      (metis snd_conv)+
qed

text \<open>After a failed write the coins and this swap's reservation are those of before.\<close>

lemma undo_unsent_later:
  assumes "books_later p s"
  shows "books_later p (s\<lparr>outgoing_swapcoins := outgoing_swapcoins p,
    swap_locks := (case map_of (swap_locks p) i of
        Some locks \<Rightarrow> AList.update i locks (swap_locks s) | None \<Rightarrow> AList.delete i (swap_locks s))\<rparr>)"
  using assms by (auto simp: books_later_def map_later_refl later_refl_rules map_later_restore split: option.split)

lemma settle_unsent_evolves [steps_intros]: "steps evolves (settle_unsent_funding env i g)"
proof -
  have "evolves w (snd ((let (pass, s) = apply_unsent i g sc (wstore w) in
       seq (modify (\<lambda>w. w\<lparr>wstore := s\<rparr>))
       (seq (if sc_seen sc \<noteq> [] \<or> sc_dead sc \<noteq> [] \<or> released pass then
               bnd (attempt (save_to_disk env)) (\<lambda>r. case r of
                 Inr _ \<Rightarrow> ret ()
               | Inl e \<Rightarrow>
                   seq (modify (on_store (\<lambda>s. s\<lparr>outgoing_swapcoins := outgoing_swapcoins (wstore w),
                          swap_locks := (case map_of (swap_locks (wstore w)) i of
                              Some locks \<Rightarrow> AList.update i locks (swap_locks s)
                            | None \<Rightarrow> AList.delete i (swap_locks s))\<rparr>)))
                     (fail e))
             else ret ())
       (case sc_failure sc of Some e \<Rightarrow> fail e | None \<Rightarrow> ret pass))) w))" for sc w
    using apply_unsent_later[of "wstore w" i g sc] undo_unsent_later[OF apply_unsent_later[of "wstore w" i g sc], of i]
    by (auto simp: evolves_def case_prod_beta Let_def seq_def bnd_def modify_def attempt_def save_to_disk_def elapse_def
        ret_def fail_def on_store_def split: save_outcome.split option.split)
  moreover have "steps evolves (seq (remove_swap_coins_and_save env i True True) (ret x))" for x :: UnsentPass
    by (intro steps_intros ev.R_rules)
  then have "evolves w (snd (seq (remove_swap_coins_and_save env i True True) (ret x) w))" for w and x :: UnsentPass
    by (simp add: steps_def)
  ultimately show ?thesis
    unfolding settle_unsent_funding_def
    by (auto intro!: steps_intros ev.R_rules steps_at_store)
qed

section \<open>Reservations\<close>

definition held :: "WalletStore \<Rightarrow> string \<Rightarrow> OutPoint set" where
  "held s k = (case map_of (swap_locks s) k of Some locks \<Rightarrow> outpoints locks | None \<Rightarrow> {})"

definition exclusive :: "WalletStore \<Rightarrow> bool" where
  "exclusive s \<longleftrightarrow> distinct (map fst (swap_locks s)) \<and> (\<forall>p k k'. p \<in> held s k \<longrightarrow> p \<in> held s k' \<longrightarrow> k = k')"

lemma reserved_iff:
  assumes "exclusive s"
  shows "is_swap_reserved s p \<longleftrightarrow> (\<exists>k. p \<in> held s k)"
proof
  assume "is_swap_reserved s p"
  then obtain k l where "(k, l) \<in> set (swap_locks s)" "p \<in> outpoints l"
    by (auto simp: is_swap_reserved_def list_ex_iff)
  then have "p \<in> held s k" using assms by (simp add: held_def exclusive_def)
  then show "\<exists>k. p \<in> held s k" ..
next
  assume "\<exists>k. p \<in> held s k"
  then obtain k l where "map_of (swap_locks s) k = Some l" "p \<in> outpoints l"
    by (auto simp: held_def split: option.splits)
  then show "is_swap_reserved s p" using map_of_SomeD by (fastforce simp: is_swap_reserved_def list_ex_iff)
qed

lemma exclusive_later:
  assumes "map_later locks_later (swap_locks s) (swap_locks s')" "exclusive s"
  shows "exclusive s'" and "held s' k \<subseteq> held s k"
proof -
  show sub: "held s' k \<subseteq> held s k" for k
  proof (cases "map_of (swap_locks s') k")
    case (Some l')
    then obtain l where "map_of (swap_locks s) k = Some l" "outpoints l' \<subseteq> outpoints l"
      using assms(1) unfolding map_later_def locks_later_def by blast
    then show ?thesis using Some by (simp add: held_def)
  qed (simp add: held_def)
  show "exclusive s'" using assms sub unfolding exclusive_def map_later_def by blast
qed

lemma held_reserve: "held (reserve_swap_locks t key ps s) k = (if k = key then held s key \<union> set ps else held s k)"
  by (auto simp: held_def reserve_swap_locks_def Let_def update_conv' split: option.split)

lemma exclusive_reserve:
  assumes "exclusive s" "\<And>p. p \<in> set ps \<Longrightarrow> \<not> is_swap_reserved s p"
  shows "exclusive (reserve_swap_locks t key ps s)"
proof -
  have "distinct (map fst (swap_locks (reserve_swap_locks t key ps s)))"
    using assms(1) by (simp add: reserve_swap_locks_def Let_def exclusive_def distinct_update)
  moreover have "k = k'" if "p \<in> held (reserve_swap_locks t key ps s) k" "p \<in> held (reserve_swap_locks t key ps s) k'" for p k k'
    using that assms reserved_iff[OF assms(1)] unfolding held_reserve exclusive_def by (metis UnE)
  ultimately show ?thesis by (auto simp: exclusive_def)
qed

lemma plannable_free:
  assumes "plannable_pools w = (r, s)" "p \<in> set (map fst (r @ s))"
  shows "\<not> is_swap_reserved (wstore w) p" and "p \<notin> locked_utxos w"
  using assms by (auto simp: plannable_pools_def to_pool_def)

lemma claim_exclusive:
  assumes "exclusive (wstore w)" "claim_swap_inputs env key ins w = (ok, w')"
  shows "exclusive (wstore w')" and "ok \<Longrightarrow> set ins \<subseteq> held (wstore w') key"
proof -
  obtain r s where pools: "plannable_pools w = (r, s)" by (rule prod.exhaust)
  have free: "\<not> is_swap_reserved (wstore w) p" if "list_all (\<lambda>p. p \<in> set (map fst (r @ s))) ins" "p \<in> set ins" for p
    using plannable_free[OF pools, of p] that by (auto simp: list_all_iff)
  show "exclusive (wstore w')"
    using assms free by (auto simp: claim_swap_inputs_def pools on_store_def Let_def
        intro!: exclusive_reserve split: if_splits)
  show "ok \<Longrightarrow> set ins \<subseteq> held (wstore w') key"
    using assms by (auto simp: claim_swap_inputs_def pools on_store_def held_reserve Let_def split: if_splits)
qed

lemma claim_or_hold_exclusive:
  assumes "exclusive (wstore w)" "claim_or_hold_swap_inputs env key ins w = (ok, w')"
  shows "exclusive (wstore w')" and "ok \<Longrightarrow> set ins \<subseteq> held (wstore w') key"
  using assms claim_exclusive
  by (auto simp: claim_or_hold_swap_inputs_def held_def list_all_iff split: if_splits option.splits)

lemma evolves_exclusive: "steps evolves m \<Longrightarrow> exclusive (wstore w) \<Longrightarrow> exclusive (wstore (snd (m w)))"
  by (auto simp: steps_def evolves_def books_later_def intro: exclusive_later)

lemma grace_locks:
  "map_later locks_later (swap_locks (wstore w)) (swap_locks (wstore (snd (restart_funding_grace env key w))))"
  by (auto simp: restart_funding_grace_def on_store_def save_to_disk_def elapse_def map_later_refl locks_later_def
      intro!: map_later_update split: option.split save_outcome.split)

lemma batch_locks: "swap_locks (wstore (snd (save_funding_batch env inc out w))) = swap_locks (wstore w)"
proof -
  have "swap_locks (fold (add_outgoing_swapcoin lib) out s) = swap_locks s" for lib s
    by (induction out arbitrary: s) (simp_all add: add_outgoing_swapcoin_def Let_def)
  moreover have "swap_locks (fold (add_incoming_swapcoin lib) inc s) = swap_locks s" for lib s
    by (induction inc arbitrary: s) (simp_all add: add_incoming_swapcoin_def)
  ultimately show ?thesis
    by (simp add: save_funding_batch_def Let_def on_store_def save_to_disk_def elapse_def split: save_outcome.split)
qed

lemma bind_locks: "swap_locks (wstore (snd (cache_prevout_to_contract env bs w))) = swap_locks (wstore w)"
  by (simp add: cache_prevout_to_contract_def on_store_def save_to_disk_def elapse_def split: save_outcome.split)

section \<open>The wallet as a transition system\<close>

text \<open>Every operation on the store that this library models, in any order.\<close>

inductive wallet_step :: "wallet_env \<Rightarrow> world \<Rightarrow> world \<Rightarrow> bool" for env where
  Claim: "wallet_step env w (snd (claim_swap_inputs env key ins w))"
| Hold: "wallet_step env w (snd (claim_or_hold_swap_inputs env key ins w))"
| Release: "wallet_step env w (on_store (\<lambda>s. snd (release_swap_locks key freed s)) w)"
| Grace: "wallet_step env w (snd (restart_funding_grace env key w))"
| Batch: "wallet_step env w (snd (save_funding_batch env inc out w))"
| Bind: "wallet_step env w (snd (cache_prevout_to_contract env bs w))"
| Drop: "wallet_step env w (snd (remove_swap_coins_and_save env key ri ro w))"
| Settle: "wallet_step env w (snd (settle_unsent_funding env key grace_over w))"
| Recover: "wallet_step env w (snd (recover_swapcoins env contracts ids w))"
| Refund: "wallet_step env w (snd (recover_timelocked_swapcoins env scope w))"
| Sweep: "wallet_step env w (snd (sweep_incoming_swapcoins env scoped role w))"
| Synced: "wallet_step env w (snd (sync_and_save env w))"
| Locked: "wallet_step env w (snd (lock_unspendable_utxos env w))"
| Address: "wallet_step env w (snd (get_next_internal_addresses env n a w))"

lemma passes_evolve [steps_intros]:
  "steps evolves (recover_swapcoins env contracts ids)"
  "steps evolves (recover_timelocked_swapcoins env scope)"
  "steps evolves (sweep_incoming_swapcoins env scoped role)"
  unfolding recover_swapcoins_def recover_timelocked_swapcoins_def sweep_incoming_swapcoins_def
  by (auto split: sum.split prod.split intro!: steps_intros ev.R_rules)

lemma lock_unspendable_evolves [steps_intros]: "steps evolves (lock_unspendable_utxos env)"
proof -
  have "steps evolves (modify (lock_utxos ps))" "steps evolves (modify (locked_utxos_update f))" for ps f
    by (rule steps_modify; simp add: lock_utxos_def evolves_def books_later_refl)+
  then show ?thesis unfolding lock_unspendable_utxos_def by (intro steps_intros ev.R_rules)
qed

lemma step_exclusive:
  assumes "wallet_step env w w'" "exclusive (wstore w)"
  shows "exclusive (wstore w')"
  using assms(1)
proof cases
  case (Claim key ins)
  then show ?thesis using claim_exclusive(1)[OF assms(2)] by (metis prod.collapse)
next
  case (Hold key ins)
  then show ?thesis using claim_or_hold_exclusive(1)[OF assms(2)] by (metis prod.collapse)
next
  case (Release key freed)
  then show ?thesis using release_later[of "wstore w" key freed] assms(2)
    by (auto simp: on_store_def books_later_def intro: exclusive_later)
next
  case (Grace key)
  then show ?thesis using exclusive_later(1)[OF grace_locks assms(2)] by simp
next
  case (Batch inc out)
  then show ?thesis using batch_locks assms(2) by (simp add: exclusive_def held_def)
next
  case (Bind bs)
  then show ?thesis using bind_locks assms(2) by (simp add: exclusive_def held_def)
qed (use assms(2) in \<open>simp_all add: evolves_exclusive remove_swap_evolves settle_unsent_evolves passes_evolve
    ev.sync_and_save_R lock_unspendable_evolves ev.get_next_internal_addresses_R\<close>)

section \<open>Failed writes and bound prevouts\<close>

lemma restore_lookup:
  assumes "\<And>k v. (k, v) \<in> set ps \<Longrightarrow> v = f k"
  shows "map_of (restore_entries ps m) k = (if k \<in> fst ` set ps then f k else map_of m k)"
  using assms
proof (induction ps m rule: restore_entries.induct)
  case (2 k' v ps m)
  then have "f k' = Some v" by (metis list.set_intros(1))
  with 2 show ?case by (auto simp: update_conv')
next
  case (3 k' ps m)
  then have "f k' = None" by (metis list.set_intros(1))
  with 3 show ?case by (auto simp: delete_conv')
qed simp

lemma add_incoming_other:
  "k \<notin> (\<lambda>c. compute_txid lib (in_contract_tx c)) ` set inc \<Longrightarrow>
   map_of (incoming_swapcoins (fold (add_incoming_swapcoin lib) inc s)) k = map_of (incoming_swapcoins s) k"
  by (induction inc arbitrary: s) (auto simp: add_incoming_swapcoin_def update_conv')

lemma add_outgoing_other:
  "k \<notin> (\<lambda>c. compute_txid lib (out_contract_tx c)) ` set out \<Longrightarrow>
   map_of (outgoing_swapcoins (fold (add_outgoing_swapcoin lib) out s)) k = map_of (outgoing_swapcoins s) k"
  by (induction out arbitrary: s) (auto simp: add_outgoing_swapcoin_def Let_def update_conv')

lemma add_incoming_frame:
  "outgoing_swapcoins (fold (add_incoming_swapcoin lib) inc s) = outgoing_swapcoins s \<and>
   prevout_to_contract_map (fold (add_incoming_swapcoin lib) inc s) = prevout_to_contract_map s"
  by (induction inc arbitrary: s) (simp_all add: add_incoming_swapcoin_def)

lemma add_outgoing_frame:
  "incoming_swapcoins (fold (add_outgoing_swapcoin lib) out s) = incoming_swapcoins s \<and>
   prevout_to_contract_map (fold (add_outgoing_swapcoin lib) out s) = prevout_to_contract_map s"
  by (induction out arbitrary: s) (simp_all add: add_outgoing_swapcoin_def Let_def)

lemmas add_frames = add_incoming_frame add_outgoing_frame

lemma batch_rollback:
  assumes "save_funding_batch env inc out w = (Inl e, w')"
  shows "map_of (incoming_swapcoins (wstore w')) k = map_of (incoming_swapcoins (wstore w)) k"
    and "map_of (outgoing_swapcoins (wstore w')) k = map_of (outgoing_swapcoins (wstore w)) k"
proof -
  let ?s = "fold (add_outgoing_swapcoin (w_lib env)) out (fold (add_incoming_swapcoin (w_lib env)) inc (wstore w))"
  have eq: "incoming_swapcoins (wstore w') = restore_entries (map (\<lambda>c. let k = compute_txid (w_lib env) (in_contract_tx c) in
      (k, map_of (incoming_swapcoins (wstore w)) k)) inc) (incoming_swapcoins ?s)"
    "outgoing_swapcoins (wstore w') = restore_entries (map (\<lambda>c. let k = compute_txid (w_lib env) (out_contract_tx c) in
      (k, map_of (outgoing_swapcoins (wstore w)) k)) out) (outgoing_swapcoins ?s)"
    using assms by (auto simp: save_funding_batch_def Let_def save_to_disk_def elapse_def on_store_def
        split: save_outcome.splits)
  show "map_of (incoming_swapcoins (wstore w')) k = map_of (incoming_swapcoins (wstore w)) k"
    unfolding eq by (subst restore_lookup[where f = "map_of (incoming_swapcoins (wstore w))"])
      (auto simp: add_frames Let_def image_image intro: add_incoming_other)
  show "map_of (outgoing_swapcoins (wstore w')) k = map_of (outgoing_swapcoins (wstore w)) k"
    unfolding eq by (subst restore_lookup[where f = "map_of (outgoing_swapcoins (wstore w))"])
      (auto simp: add_frames Let_def image_image add_outgoing_other)
qed

lemma remove_rollback:
  assumes "remove_swap_coins_and_save env i ri ro w = (Inl e, w')"
  shows "map_of (incoming_swapcoins (wstore w')) = map_of (incoming_swapcoins (wstore w))"
    and "map_of (outgoing_swapcoins (wstore w')) = map_of (outgoing_swapcoins (wstore w))"
    and "map_of (watchonly_swapcoins (wstore w')) = map_of (watchonly_swapcoins (wstore w))"
    and "map_of (swap_locks (wstore w')) = map_of (swap_locks (wstore w))"
proof -
  let ?s = "wstore w"
  obtain inc inc' where ti: "(if ri then take_entries (incoming_keys_for_swap i ?s) (incoming_swapcoins ?s)
      else ([], incoming_swapcoins ?s)) = (inc, inc')" by (rule prod.exhaust)
  obtain out out' where to: "(if ro then take_entries (outgoing_keys_for_swap i ?s) (outgoing_swapcoins ?s)
      else ([], outgoing_swapcoins ?s)) = (out, out')" by (rule prod.exhaust)
  have eq: "incoming_swapcoins (wstore w') = extend_entries inc inc'" "outgoing_swapcoins (wstore w') = extend_entries out out'"
    "watchonly_swapcoins (wstore w') = (case if ro then map_of (watchonly_swapcoins ?s) i else None of
        Some coins \<Rightarrow> AList.update i coins (if ro then AList.delete i (watchonly_swapcoins ?s) else watchonly_swapcoins ?s)
      | None \<Rightarrow> (if ro then AList.delete i (watchonly_swapcoins ?s) else watchonly_swapcoins ?s))"
    "swap_locks (wstore w') = (case map_of (swap_locks ?s) i of
        Some r \<Rightarrow> AList.update i r (AList.delete i (swap_locks ?s)) | None \<Rightarrow> AList.delete i (swap_locks ?s))"
    using assms by (auto simp: remove_swap_coins_and_save_def Let_def ti to save_to_disk_def elapse_def on_store_def
        split: save_outcome.splits option.splits)
  show "map_of (incoming_swapcoins (wstore w')) = map_of (incoming_swapcoins ?s)"
    using ti take_extend unfolding eq by (cases ri) (auto simp: extend_entries_def)
  show "map_of (outgoing_swapcoins (wstore w')) = map_of (outgoing_swapcoins ?s)"
    using to take_extend unfolding eq by (cases ro) (auto simp: extend_entries_def)
  show "map_of (watchonly_swapcoins (wstore w')) = map_of (watchonly_swapcoins ?s)"
    unfolding eq by (auto simp: update_conv' delete_conv' fun_eq_iff split: option.split)
  show "map_of (swap_locks (wstore w')) = map_of (swap_locks ?s)"
    unfolding eq by (auto simp: update_conv' delete_conv' fun_eq_iff split: option.split)
qed

definition bindings_kept :: "world \<Rightarrow> world \<Rightarrow> bool" where
  "bindings_kept w w' \<longleftrightarrow>
     (\<forall>p c. map_of (prevout_to_contract_map (wstore w)) p = Some c \<longrightarrow> map_of (prevout_to_contract_map (wstore w')) p = Some c)"

lemma extend_lookup: "map_of (extend_entries ps m) k = (case map_of (rev ps) k of Some v \<Rightarrow> Some v | None \<Rightarrow> map_of m k)"
proof (induction ps arbitrary: m)
  case (Cons p ps)
  then show ?case by (cases p) (auto simp: extend_entries_def update_conv' map_add_def split: option.splits)
qed (simp add: extend_entries_def)

lemma bind_kept: "bindings_kept w (snd (cache_prevout_to_contract env bs w))"
proof -
  let ?m = "prevout_to_contract_map (wstore w)"
  have "map_of (extend_entries bs ?m) p = Some c"
    if "\<not> list_ex (\<lambda>(p, c). case map_of ?m p of Some cached \<Rightarrow> cached \<noteq> c | None \<Rightarrow> False) bs" "map_of ?m p = Some c" for p c
    using that map_of_SomeD[of "rev bs" p] by (fastforce simp: extend_lookup list_ex_iff split: option.splits)
  then show ?thesis
    by (auto simp: cache_prevout_to_contract_def bindings_kept_def save_to_disk_def elapse_def on_store_def
        split: save_outcome.split)
qed

lemma evolves_bindings: "steps evolves m \<Longrightarrow> bindings_kept w (snd (m w))"
  by (auto simp: steps_def evolves_def books_later_def bindings_kept_def)

lemma step_bindings:
  assumes "wallet_step env w w'"
  shows "bindings_kept w w'"
  using assms
proof cases
  case (Claim key ins)
  then show ?thesis by (auto simp: claim_swap_inputs_def on_store_def reserve_swap_locks_def Let_def bindings_kept_def split: prod.split)
next
  case (Hold key ins)
  then show ?thesis by (auto simp: claim_or_hold_swap_inputs_def claim_swap_inputs_def on_store_def reserve_swap_locks_def
        Let_def bindings_kept_def split: prod.split)
next
  case (Release key freed)
  then show ?thesis using release_later[of "wstore w" key freed] by (simp add: on_store_def books_later_def bindings_kept_def)
next
  case (Grace key)
  then show ?thesis by (auto simp: restart_funding_grace_def on_store_def save_to_disk_def elapse_def bindings_kept_def
        split: option.split save_outcome.split)
next
  case (Batch inc out)
  then show ?thesis by (simp add: save_funding_batch_def Let_def on_store_def save_to_disk_def elapse_def bindings_kept_def
        add_frames split: save_outcome.split)
next
  case (Bind bs)
  then show ?thesis using bind_kept by simp
qed (simp_all add: evolves_bindings remove_swap_evolves settle_unsent_evolves passes_evolve
    ev.sync_and_save_R lock_unspendable_evolves ev.get_next_internal_addresses_R)

lemma reachable_invariants:
  assumes "(wallet_step env)\<^sup>*\<^sup>* w w'"
  shows "exclusive (wstore w) \<Longrightarrow> exclusive (wstore w')" and "bindings_kept w w'"
  using assms
proof (induction rule: rtranclp_induct)
  case (step y z)
  {
    case 1
    then show ?case using step step_exclusive by blast
  next
    case 2
    then show ?case using step step_bindings by (fastforce simp: bindings_kept_def)
  }
qed (simp_all add: bindings_kept_def)

section \<open>Properties\<close>

text \<open>A backend that knows nothing, and a wallet with two coins of its own, for the examples.\<close>

definition demo_chain :: chain_view where
  "demo_chain = \<lparr>c_block_count = (\<lambda>_. Inr 100), c_tx_block_height = (\<lambda>_ _. Inr None), c_tx_out = (\<lambda>_ _ _ _. Inr None),
     c_is_tx_unknown = (\<lambda>_ _. Inr True), c_raw_transaction = (\<lambda>_ _. Inl WUnreachable),
     c_raw_transaction_info = (\<lambda>_ _. Inl WUnreachable), c_spending_transaction = (\<lambda>_ _ _. Inr None),
     c_confirmed_spending_transaction = (\<lambda>_ _ _. Inr None), c_send_raw_transaction = (\<lambda>_ _. Inl WUnreachable),
     c_estimate_feerate = (\<lambda>_ _. Inl WUnreachable), c_incremental_relay_feerate = (\<lambda>_. None)\<rparr>"

definition demo_sync :: sync_view where
  "demo_sync = \<lparr>s_is_electrum = True, s_prepare_backend_wallet = (\<lambda>_. Inr ()), s_imported_range_covers = (\<lambda>_ _ _. Inr True),
     s_import_descriptors = (\<lambda>_ _ _. Inr ()), s_wallet_scanning = (\<lambda>_. Inr False), s_rescan_wallet_from = (\<lambda>_ _. Inr ()),
     s_header_time = (\<lambda>_ _. Inr 0), s_list_unspent = (\<lambda>_ _. Inr []), s_script_has_history = (\<lambda>_ _. Inr False),
     s_list_transactions = (\<lambda>_. Inr []), s_is_confirmed_spend = (\<lambda>_ _ _. Inr False),
     s_child_script = (\<lambda>_ _ _. Inr []), s_keys = \<lparr>tweak_key = Inr ([], []), fidelity_key = (\<lambda>_. Inr [])\<rparr>\<rparr>"

definition demo_wallet_env :: wallet_env where
  "demo_wallet_env = \<lparr>w_lib = ref_lib, w_chain = demo_chain, w_save = (\<lambda>_. SaveOk), w_sync = demo_sync,
     w_shutdown = (\<lambda>_. False), w_fuel = 10, w_delay = (\<lambda>_. 0), w_now = (\<lambda>t. t), w_node = None, w_network = ''regtest'',
     w_derive_addresses = (\<lambda>_ _ _ _ _. Inr []), w_on_network = (\<lambda>_. True), w_nonce = (\<lambda>_. []), w_vsize = (\<lambda>_. 100),
     w_account_fingerprint = (\<lambda>_. Inr [])\<rparr>"

definition demo_utxo :: "nat \<Rightarrow> OutPoint \<times> (ListUnspentResultEntry \<times> UTXOSpendInfo)" where
  "demo_utxo n = (\<lparr>txid = n, vout = 0\<rparr>,
     \<lparr>u_txid = n, u_vout = 0, u_amount = 50000, u_script_pub_key = [], u_descriptor = None, u_witness_script = None,
      u_confirmations = 3\<rparr>, SeedCoin [] 50000 P2WPKH)"

definition demo_store :: WalletStore where
  "demo_store = \<lparr>external_index = 0, internal_index = 0, offer_maxsize = 0, incoming_swapcoins = [], outgoing_swapcoins = [],
     watchonly_swapcoins = [], prevout_to_contract_map = [], swept_incoming_swapcoins = {}, fidelity_bonds = [],
     last_synced_height = None, wallet_birthday = None, pending_restore = None, utxo_cache = [demo_utxo 1, demo_utxo 2],
     swap_locks = [], ln_pending_swaps = [], ln_maker_swaps = [], reports = []\<rparr>"

definition demo_world :: world where
  "demo_world = \<lparr>wstore = demo_store, locked_utxos = {}, disk = demo_store, sends = [], wclock = 0, wtime = 0,
     watched = {}, hd_paths = []\<rparr>"

text \<open>
  C3 (an input funds one swap). Starting with no reservation, whatever operations of the wallet
  ran before, a swap that claims its inputs and is told yes holds every one of them, and no input
  is held by two swaps.
\<close>

theorem reservations_exclusive:
  assumes "swap_locks (wstore w0) = []" "(wallet_step env)\<^sup>*\<^sup>* w0 w"
    and "claim_or_hold_swap_inputs env key ins w = (ok, w')"
  shows "(ok \<longrightarrow> set ins \<subseteq> held (wstore w') key) \<and>
    (\<forall>k k'. k \<noteq> k' \<longrightarrow> held (wstore w') k \<inter> held (wstore w') k' = {})"
proof -
  have "exclusive (wstore w0)" using assms(1) by (simp add: exclusive_def held_def)
  then have "exclusive (wstore w)" using reachable_invariants(1)[OF assms(2)] by blast
  from claim_or_hold_exclusive[OF this assms(3)] show ?thesis by (auto simp: exclusive_def)
qed

theorem reservations_exclusive_witness:
  "held (wstore (snd (claim_or_hold_swap_inputs demo_wallet_env ''b'' [\<lparr>txid = 2, vout = 0\<rparr>]
      (snd (claim_swap_inputs demo_wallet_env ''a'' [\<lparr>txid = 1, vout = 0\<rparr>] demo_world))))) ''a'' \<inter>
   held (wstore (snd (claim_or_hold_swap_inputs demo_wallet_env ''b'' [\<lparr>txid = 2, vout = 0\<rparr>]
      (snd (claim_swap_inputs demo_wallet_env ''a'' [\<lparr>txid = 1, vout = 0\<rparr>] demo_world))))) ''b'' = {} \<and>
   fst (claim_or_hold_swap_inputs demo_wallet_env ''b'' [\<lparr>txid = 2, vout = 0\<rparr>]
      (snd (claim_swap_inputs demo_wallet_env ''a'' [\<lparr>txid = 1, vout = 0\<rparr>] demo_world)))"
proof -
  let ?w = "snd (claim_swap_inputs demo_wallet_env ''a'' [\<lparr>txid = 1, vout = 0\<rparr>] demo_world)"
  have "(wallet_step demo_wallet_env)\<^sup>*\<^sup>* demo_world ?w" by (intro r_into_rtranclp wallet_step.Claim)
  note r = reservations_exclusive[OF _ this, of "''b''" "[\<lparr>txid = 2, vout = 0\<rparr>]"]
  have "fst (claim_or_hold_swap_inputs demo_wallet_env ''b'' [\<lparr>txid = 2, vout = 0\<rparr>] ?w)"
    by (simp add: claim_or_hold_swap_inputs_def claim_swap_inputs_def plannable_pools_def to_pool_def list_utxos_def
        list_descriptor_utxo_spend_info_def list_swept_incoming_swap_utxos_def is_seed_coin_def is_swept_coin_def
        is_swap_reserved_def reserve_swap_locks_def on_store_def Let_def u_outpoint_def demo_world_def demo_store_def demo_utxo_def)
  with r[OF _ prod.collapse[symmetric]] show ?thesis by (simp add: demo_world_def demo_store_def)
qed

text \<open>
  C5 (a signed contract stays bound). Once a funding prevout is bound to a contract script, after
  any sequence of the wallet's operations the check accepts that script for it and no other.
\<close>

theorem bound_prevout_kept:
  assumes "map_of (prevout_to_contract_map (wstore w)) p = Some c" "(wallet_step env)\<^sup>*\<^sup>* w w'"
  shows "is_ok (ensure_prevout_matches_cached_contract p c' (wstore w')) = (c' = c)"
  using reachable_invariants(2)[OF assms(2)] assms(1)
  by (auto simp: bindings_kept_def ensure_prevout_matches_cached_contract_def)

theorem bound_prevout_kept_witness:
  "is_ok (ensure_prevout_matches_cached_contract \<lparr>txid = 7, vout = 0\<rparr> [82] (wstore (snd (cache_prevout_to_contract
     demo_wallet_env [(\<lparr>txid = 7, vout = 0\<rparr>, [82])] (snd (cache_prevout_to_contract demo_wallet_env
       [(\<lparr>txid = 7, vout = 0\<rparr>, [81])] demo_world)))))) = False"
proof -
  let ?w = "snd (cache_prevout_to_contract demo_wallet_env [(\<lparr>txid = 7, vout = 0\<rparr>, [81])] demo_world)"
  have "map_of (prevout_to_contract_map (wstore ?w)) \<lparr>txid = 7, vout = 0\<rparr> = Some [81]"
    by (simp add: cache_prevout_to_contract_def save_to_disk_def elapse_def on_store_def extend_entries_def
        demo_wallet_env_def demo_world_def demo_store_def)
  moreover have "(wallet_step demo_wallet_env)\<^sup>*\<^sup>* ?w (snd (cache_prevout_to_contract demo_wallet_env
      [(\<lparr>txid = 7, vout = 0\<rparr>, [82])] ?w))" by (intro r_into_rtranclp wallet_step.Bind)
  ultimately show ?thesis using bound_prevout_kept by simp
qed

text \<open>
  C6 (a failed write takes nothing with it). When saving a funding batch fails, every coin in
  memory is as it was before; when dropping a swap fails, its coins, its watched hops and its
  reservation are all there for the next attempt.
\<close>

theorem failed_write_rolls_back:
  "(is_ok (fst (save_funding_batch env inc out w)) \<or>
      map_of (incoming_swapcoins (wstore (snd (save_funding_batch env inc out w)))) = map_of (incoming_swapcoins (wstore w)) \<and>
      map_of (outgoing_swapcoins (wstore (snd (save_funding_batch env inc out w)))) = map_of (outgoing_swapcoins (wstore w))) \<and>
   (is_ok (fst (remove_swap_coins_and_save env i ri ro w)) \<or>
      map_of (incoming_swapcoins (wstore (snd (remove_swap_coins_and_save env i ri ro w)))) = map_of (incoming_swapcoins (wstore w)) \<and>
      map_of (outgoing_swapcoins (wstore (snd (remove_swap_coins_and_save env i ri ro w)))) = map_of (outgoing_swapcoins (wstore w)) \<and>
      map_of (watchonly_swapcoins (wstore (snd (remove_swap_coins_and_save env i ri ro w)))) = map_of (watchonly_swapcoins (wstore w)) \<and>
      map_of (swap_locks (wstore (snd (remove_swap_coins_and_save env i ri ro w)))) = map_of (swap_locks (wstore w)))"
proof -
  obtain r w1 where b: "save_funding_batch env inc out w = (r, w1)" by (rule prod.exhaust)
  obtain r' w2 where d: "remove_swap_coins_and_save env i ri ro w = (r', w2)" by (rule prod.exhaust)
  have "is_ok r \<or> map_of (incoming_swapcoins (wstore w1)) = map_of (incoming_swapcoins (wstore w)) \<and>
      map_of (outgoing_swapcoins (wstore w1)) = map_of (outgoing_swapcoins (wstore w))"
    using batch_rollback b by (cases r) (auto simp: fun_eq_iff)
  moreover have "is_ok r' \<or> map_of (incoming_swapcoins (wstore w2)) = map_of (incoming_swapcoins (wstore w)) \<and>
      map_of (outgoing_swapcoins (wstore w2)) = map_of (outgoing_swapcoins (wstore w)) \<and>
      map_of (watchonly_swapcoins (wstore w2)) = map_of (watchonly_swapcoins (wstore w)) \<and>
      map_of (swap_locks (wstore w2)) = map_of (swap_locks (wstore w))"
    using remove_rollback d by (cases r') auto
  ultimately show ?thesis unfolding b d by simp
qed

end
