(* ===== verification/RecoverySends.thy ===== *)
theory RecoverySends
  imports Books
begin

text \<open>
  What the recovery passes broadcast. Every broadcast is logged with the books in memory and on
  disk at that moment, so a claim about a pass is a claim about the entries it adds to the log
  (\<open>logs Q\<close>): a sweep is recorded in the wallet file before it is sent, and a refund goes out
  only for a contract whose funding was sent and whose timelock has passed, to an address the
  wallet holds, and never beside a claim that could still be made.
\<close>

section \<open>What recovery sends\<close>

definition logs :: "(Transaction \<Rightarrow> WalletStore \<Rightarrow> WalletStore \<Rightarrow> bool) \<Rightarrow> world \<Rightarrow> world \<Rightarrow> bool" where
  "logs Q w w' \<longleftrightarrow> (\<exists>new. sends w' = sends w @ new \<and> list_all (\<lambda>(tx, mem, dsk). Q tx mem dsk) new)"

lemma logs_same: "sends w' = sends w \<Longrightarrow> logs Q w w'"
  by (simp add: logs_def)

lemma logs_trans: "logs Q a b \<Longrightarrow> logs Q b c \<Longrightarrow> logs Q a c"
  by (auto simp: logs_def)

interpretation lg: sync_frame "logs Q" for Q
proof (unfold_locales, goal_cases)
  case 1
  show ?case by (simp add: reflp_def logs_same)
next
  case 2
  show ?case unfolding transp_def using logs_trans by blast
qed (simp_all add: logs_same)

lemmas log_rules = lg.R_rules lift_rel_refl lift_rel_trans steps_on_wallet steps_capture

lemma send_logs:
  assumes "Q tx (wstore w) (disk w)"
  shows "logs Q w (snd (send_raw_transaction env tx w))"
  using assms by (simp add: logs_def send_raw_transaction_def elapse_def)

lemma send_logs_always [steps_intros]: "(\<And>mem dsk. Q tx mem dsk) \<Longrightarrow> steps (logs Q) (send_raw_transaction env tx)"
  by (simp add: steps_def send_logs)

lemma store_logs [steps_intros]: "steps (logs Q) (modify (on_store f))"
  by (rule steps_modify) (simp add: on_store_def logs_same)

lemma step_logs: "logs Q w w' \<Longrightarrow> steps (logs Q) m \<Longrightarrow> logs Q w (snd (m w'))"
  by (auto simp: steps_def intro: logs_trans)

section \<open>Sweeps are recorded before they go out\<close>

definition on_disk :: "Transaction \<Rightarrow> WalletStore \<Rightarrow> bool" where
  "on_disk tx dsk \<longleftrightarrow> (\<exists>key c. map_of (incoming_swapcoins dsk) key = Some c \<and> in_spending_tx c = Some tx)"

definition sweep_allowed :: "wallet_env \<Rightarrow> WalletStore \<Rightarrow> Transaction \<Rightarrow> WalletStore \<Rightarrow> WalletStore \<Rightarrow> bool" where
  "sweep_allowed env s tx mem dsk \<longleftrightarrow>
     on_disk tx dsk \<or>
     (\<exists>key c. (key, c) \<in> set (incoming_swapcoins s) \<and> in_other_privkey c = None \<and> in_hash_preimage c \<noteq> None \<and>
        in_create_signed_contract_tx (w_lib env) c = Inr tx)"

lemma record_sweep_ok:
  assumes "record_sweep env key tx w = (Inr (), w')"
  shows "on_disk tx (disk w')"
proof -
  obtain c where c: "map_of (incoming_swapcoins (wstore w)) key = Some c"
    using assms by (auto simp: record_sweep_def bnd_eq_Inr gets_def find_incoming_swapcoin_def fail_def split: option.splits)
  then have "map_of (incoming_swapcoins (disk w')) key = Some (c\<lparr>in_spending_tx := Some tx\<rparr>)"
    using assms by (auto simp: record_sweep_def bnd_eq_Inr seq_def gets_def find_incoming_swapcoin_def modify_def
        on_store_def save_to_disk_def elapse_def update_conv' split: save_outcome.splits)
  then show ?thesis unfolding on_disk_def by force
qed

lemma send_sweep_logs [steps_intros]:
  "steps (lift_rel (logs (sweep_allowed env s))) (send_sweep env key coin tx)"
  unfolding steps_def
proof
  fix p :: "world \<times> sweep_acc"
  let ?Q = "sweep_allowed env s"
  have rec: "steps (lift_rel (logs ?Q)) (on_wallet (record_sweep env key tx))"
    unfolding record_sweep_def by (auto split: option.split intro!: steps_intros log_rules)
  let ?k = "bnd (on_wallet (attempt (send_raw_transaction env tx))) (\<lambda>r. case r of
        Inr id_tx \<Rightarrow> push_sweep (key, compute_txid (w_lib env) (in_contract_tx coin), id_tx) | Inl e \<Rightarrow> ret ())"
  show "lift_rel (logs ?Q) p (snd (send_sweep env key coin tx p))"
  proof (cases rule: bnd_cases[of "on_wallet (record_sweep env key tx)" p "\<lambda>_. ?k"])
    case (err e p')
    then show ?thesis using stepsD[OF rec err(1)] unfolding send_sweep_def seq_def by simp
  next
    case (ok u p')
    have first: "logs ?Q (fst p) (fst p')" using stepsD[OF rec ok(1)] by (simp add: lift_rel_def)
    have "on_disk tx (disk (fst p'))" using ok(1) record_sweep_ok[of env key tx "fst p" "fst p'"]
      by (auto simp: on_wallet_def split: prod.splits)
    then have "logs ?Q (fst p') (snd (send_raw_transaction env tx (fst p')))"
      by (intro send_logs) (simp add: sweep_allowed_def)
    with first have sent: "logs ?Q (fst p) (snd (send_raw_transaction env tx (fst p')))" by (rule logs_trans)
    obtain r w2 where eq: "send_raw_transaction env tx (fst p') = (r, w2)" by (rule prod.exhaust)
    have "fst (snd (?k p')) = w2"
      by (cases r) (simp_all add: bnd_def on_wallet_def attempt_def eq push_sweep_def capture_def modify_def ret_def)
    then show ?thesis using sent eq ok(2) unfolding send_sweep_def seq_def lift_rel_def by simp
  qed
qed

lemma bnd_gets: "bnd (gets f) g w = g (f w) w"
  by (simp add: bnd_def gets_def)

lemma sweep_coin_logs:
  assumes "(key, c) \<in> set (completed_swapcoins (w_lib env) ids s)"
  shows "steps (lift_rel (logs (sweep_allowed env s))) (sweep_coin env (key, c))"
proof -
  let ?Q = "sweep_allowed env s"
  have claim [steps_intros]: "steps (lift_rel (logs ?Q)) (claim_swap c)" "steps (lift_rel (logs ?Q)) (push_sweep x)" for x
    unfolding claim_swap_def push_sweep_def by (intro log_rules)+
  have resume: "steps (lift_rel (logs ?Q)) (resume_sweep env key c)"
    unfolding resume_sweep_def Let_def lookup_or_claim_def
    by (auto split: option.split sum.split intro!: steps_intros log_rules claim)
  have "sweep_allowed env s tx mem dsk"
    if "in_other_privkey c = None" "in_create_signed_contract_tx (w_lib env) c = Inr tx" for tx mem dsk
    using assms that by (auto simp: sweep_allowed_def completed_swapcoins_def)
  then have ready: "steps (lift_rel (logs ?Q)) (sweep_ready env c p)" for p
    unfolding sweep_ready_def lookup_or_claim_def
    by (auto split: sum.split intro!: steps_intros log_rules claim)
  have build: "steps (logs ?Q) (build_sweep env c v)" for v
    unfolding build_sweep_def by (auto split: option.split intro!: steps_intros log_rules)
  have unmark: "steps (logs ?Q) (unmark_on_failure a)" for a
    unfolding unmark_on_failure_def by (auto split: option.split intro!: steps_intros log_rules)
  show ?thesis
    unfolding sweep_coin_def
    by (auto split: prod.split option.split sum.split
        intro!: steps_intros log_rules claim resume ready build unmark send_sweep_logs)
qed

lemma coins_log:
  assumes "\<And>x. x \<in> set xs \<Longrightarrow> steps (lift_rel (logs Q)) (f x)"
  shows "steps (lift_rel (logs Q)) (for_each xs (\<lambda>x. for_coin (f x)))"
  using assms by (auto intro!: steps_intros log_rules steps_for_coin)

lemma sweeps_log: "logs (sweep_allowed env (wstore w)) w (snd (broadcast_incoming_sweeps env ids synced w))"
proof -
  let ?Q = "sweep_allowed env (wstore w)"
  let ?cs = "completed_swapcoins (w_lib env) ids (wstore w)"
  have "steps (lift_rel (logs ?Q)) (for_each ?cs (\<lambda>entry. for_coin (sweep_coin env entry)))"
    by (rule coins_log) (auto intro: sweep_coin_logs)
  then have "steps (logs ?Q) (if ?cs = [] then ret ([], {}, synced)
     else
       seq (on_cond (\<not> synced) (sync_and_save env))
       (\<lambda>w. case for_each ?cs (\<lambda>entry. for_coin (sweep_coin env entry)) (w, \<lparr>sweeps = [], claiming = {}\<rparr>) of
          (r, (w, acc)) \<Rightarrow>
            bnd (liftR r) (\<lambda>_. bnd (attempt (save_to_disk env)) (\<lambda>_. ret (sweeps acc, claiming acc, True))) w))"
    by (auto intro!: steps_intros log_rules steps_run)
  then show ?thesis by (simp add: broadcast_incoming_sweeps_def bnd_gets steps_def)
qed

lemma finish_logs [steps_intros]: "steps (logs Q) (finish_recoveries env sw rf dk role)"
proof -
  have "logs Q w (snd (close_books env role c sw rf dk w))" for c sw rf w
    by (rule logs_same) (auto simp: close_books_def seq_def bnd_def modify_def fail_def ret_def save_books_def Let_def
        save_to_disk_def elapse_def on_store_def split: prod.split sum.split save_outcome.split)
  then have "steps (logs Q) (close_books env role c sw rf dk)" for c sw rf by (simp add: steps_def)
  then show ?thesis unfolding finish_recoveries_def Let_def by (intro steps_intros log_rules)
qed

section \<open>Refunds\<close>

text \<open>The funding was sent: the coin says so, or the backend knew its contract or its funding.\<close>

definition funding_evidence :: "wallet_env \<Rightarrow> OutgoingSwapCoin \<Rightarrow> bool" where
  "funding_evidence env coin \<longleftrightarrow>
     committed coin \<or>
     (\<exists>t. c_is_tx_unknown (w_chain env) t (compute_txid (w_lib env) (out_contract_tx coin)) = Inr False) \<or>
     (\<exists>t inp ins. out_protocol coin = Legacy \<and> tx_input (out_contract_tx coin) = inp # ins \<and>
        c_is_tx_unknown (w_chain env) t (txid (previous_output inp)) = Inr False)"

text \<open>Every first hop went back to its sender by timelock, in a block.\<close>

definition hops_refunded :: "wallet_env \<Rightarrow> WatchOnlySwapCoin list \<Rightarrow> bool" where
  "hops_refunded env hops \<longleftrightarrow> hops \<noteq> [] \<and>
     (\<forall>hop \<in> set hops. hop_timelock (w_lib env) hop = hop_timelock (w_lib env) (hd hops) \<longrightarrow>
        (\<exists>t tx. c_confirmed_spending_transaction (w_chain env) t (wo_contract_outpoint (w_lib env) hop)
             (script_pubkey (tx_output (wo_contract_tx hop) ! vout (wo_contract_outpoint (w_lib env) hop))) = Inr (Some tx) \<and>
           wo_is_timelock_spend (w_lib env) hop tx))"

definition can_claim :: "string \<Rightarrow> WalletStore \<Rightarrow> bool" where
  "can_claim i s \<longleftrightarrow> (\<exists>(k, c) \<in> set (incoming_swapcoins s). in_swap_id c = Some i \<and> in_hash_preimage c \<noteq> None)"

definition hops_of :: "string \<Rightarrow> WalletStore \<Rightarrow> WatchOnlySwapCoin list" where
  "hops_of i s = (case map_of (watchonly_swapcoins s) i of Some hops \<Rightarrow> hops | None \<Rightarrow> [])"

text \<open>What memory holds when a refund goes out: the address it pays, and no claim left beside it.\<close>

definition refund_ready ::
  "wallet_env \<Rightarrow> (string \<Rightarrow> bool) \<Rightarrow> (string \<Rightarrow> bool) \<Rightarrow> Txid \<Rightarrow> OutgoingSwapCoin \<Rightarrow> ScriptBuf \<Rightarrow> WalletStore \<Rightarrow> bool" where
  "refund_ready env cl pr key coin address mem \<longleftrightarrow>
     (\<exists>c. map_of (outgoing_swapcoins mem) key = Some c \<and> out_recovery_address c = Some address) \<and>
     (\<forall>i. out_swap_id coin = Some i \<longrightarrow>
        (pr i \<or> has_built_sweep i mem \<or> \<not> can_claim i mem) \<and> (cl i \<longrightarrow> hops_refunded env (hops_of i mem)))"

definition contract_point :: "wallet_env \<Rightarrow> OutgoingSwapCoin \<Rightarrow> OutPoint" where
  "contract_point env coin =
     \<lparr>txid = compute_txid (w_lib env) (out_contract_tx coin), vout = out_get_contract_output_vout coin\<rparr>"

definition matured :: "wallet_env \<Rightarrow> OutgoingSwapCoin \<Rightarrow> u32 \<Rightarrow> bool" where
  "matured env coin timelock \<longleftrightarrow>
     (\<exists>t info. c_tx_out (w_chain env) t (txid (contract_point env coin)) (vout (contract_point env coin)) (Some False) = Inr (Some info) \<and>
        (if out_protocol coin = Taproot then 1 else timelock) \<le> to_confirmations info)"

text \<open>The chain has reached the height a taproot contract locks to.\<close>

definition reached :: "wallet_env \<Rightarrow> OutgoingSwapCoin \<Rightarrow> u32 \<Rightarrow> bool" where
  "reached env coin timelock \<longleftrightarrow>
     (out_protocol coin = Taproot \<longrightarrow>
        (\<exists>t n. c_block_count (w_chain env) t = Inr n \<and> timelock \<le> n mod (u32_max + 1)))"

definition refund_pending :: "wallet_env \<Rightarrow> OutgoingSwapCoin \<Rightarrow> bool" where
  "refund_pending env coin \<longleftrightarrow>
     (\<exists>t tx script. c_spending_transaction (w_chain env) t (contract_point env coin) script = Inr (Some tx) \<and>
        out_is_own_timelock_spend (w_lib env) coin tx)"

text \<open>What a refund pass over the coins \<open>cs\<close> may send.\<close>

definition refund_allowed ::
  "wallet_env \<Rightarrow> (string \<Rightarrow> bool) \<Rightarrow> (string \<Rightarrow> bool) \<Rightarrow> (Txid \<times> OutgoingSwapCoin \<times> u32) list \<Rightarrow>
   Transaction \<Rightarrow> WalletStore \<Rightarrow> WalletStore \<Rightarrow> bool" where
  "refund_allowed env cl pr cs tx mem dsk \<longleftrightarrow>
     (\<exists>(key, coin, timelock) \<in> set cs.
        (funding_evidence env coin \<and>
           (own_funding coin = Some tx \<and> out_protocol coin = Legacy \<or> out_create_signed_contract_tx (w_lib env) coin = Inr tx)) \<or>
        (\<exists>rates address. create_timelock_recovery_tx (w_lib env) coin rates address = Inr tx \<and>
           (out_recovery_address coin = Some address \<and> refund_pending env coin \<or>
            matured env coin timelock \<and> reached env coin timelock \<and> refund_ready env cl pr key coin address mem)))"

lemma sign_committed: "sign_timelock_recovery lib (c\<lparr>committed := b\<rparr>) = sign_timelock_recovery lib c"
  by (cases c, hypsubst, rule ext, unfold sign_timelock_recovery_def out_get_contract_output_vout_def
      OutgoingSwapCoin.select_convs OutgoingSwapCoin.update_convs, rule refl)

lemma committed_irrelevant:
  "out_create_signed_contract_tx lib (c\<lparr>committed := b\<rparr>) = out_create_signed_contract_tx lib c"
  "own_funding (c\<lparr>committed := b\<rparr>) = own_funding c"
  "create_timelock_recovery_tx lib (c\<lparr>committed := b\<rparr>) rates a = create_timelock_recovery_tx lib c rates a"
  "out_get_contract_output_vout (c\<lparr>committed := b\<rparr>) = out_get_contract_output_vout c"
  "out_is_own_timelock_spend lib (c\<lparr>committed := b\<rparr>) tx = out_is_own_timelock_spend lib c tx"
  unfolding create_timelock_recovery_tx_def sign_committed
  by (simp_all add: out_create_signed_contract_tx_def own_funding_def
      out_get_contract_output_vout_def out_is_own_timelock_spend_def out_get_timelock_def split: ProtocolVersion.split)

lemma committed_irrelevant':
  "contract_point env (c\<lparr>committed := b\<rparr>) = contract_point env c"
  "refund_pending env (c\<lparr>committed := b\<rparr>) = refund_pending env c"
  "matured env (c\<lparr>committed := b\<rparr>) lock = matured env c lock"
  "refund_ready env cl pr key (c\<lparr>committed := b\<rparr>) a mem = refund_ready env cl pr key c a mem"
  by (simp_all add: contract_point_def refund_pending_def matured_def refund_ready_def committed_irrelevant)

lemma query_Inr: "query env f w = (Inr x, w') \<Longrightarrow> f (w_chain env) (wclock w) = Inr x"
  by (simp add: query_def tick_def)

lemma funding_seen_evidence:
  assumes "funding_seen env coin w = (Inr True, w')"
  shows "funding_evidence env coin"
  using assms
  by (auto simp: funding_seen_def bnd_eq_Inr ret_def funding_evidence_def dest!: query_Inr
      split: if_splits list.splits)

lemma pending_evidence:
  assumes "pending_own_recovery env coin w = (Inr (Some tx), w')"
  shows "refund_pending env coin"
proof -
  let ?p = "contract_point env coin"
  have "\<exists>script. bnd (query env (\<lambda>c t. c_spending_transaction c t ?p script)) (\<lambda>spend.
        ret (case spend of Some tx \<Rightarrow> if out_is_own_timelock_spend (w_lib env) coin tx then Some tx else None
             | None \<Rightarrow> None)) w = (Inr (Some tx), w')"
    using assms by (auto simp: pending_own_recovery_def contract_point_def Let_def ret_def split: if_splits)
  then show ?thesis
    by (auto simp: bnd_eq_Inr ret_def refund_pending_def dest!: query_Inr split: option.splits if_splits)
qed

lemma ensure_logs:
  assumes "committed coin"
    and "\<And>tx mem dsk. own_funding coin = Some tx \<and> out_protocol coin = Legacy \<or>
        out_create_signed_contract_tx (w_lib env) coin = Inr tx \<Longrightarrow> Q tx mem dsk"
  shows "steps (logs Q) (ensure_contract_on_chain env coin)"
proof -
  have "steps (logs Q) (broadcast_contract env coin p)" for p
    unfolding broadcast_contract_def
    by (auto split: sum.split option.split intro!: steps_intros log_rules assms(2))
  then show ?thesis unfolding ensure_contract_on_chain_def Let_def
    using assms(1) by (auto intro!: steps_intros log_rules)
qed

lemma classify_logs:
  assumes "\<And>tx mem dsk. funding_evidence env coin \<Longrightarrow> own_funding coin = Some tx \<and> out_protocol coin = Legacy \<or>
        out_create_signed_contract_tx (w_lib env) coin = Inr tx \<Longrightarrow> Q tx mem dsk"
  shows "steps (logs Q) (classify_coin env ku key coin)"
proof (cases "committed coin")
  case True
  then have "steps (logs Q) (ensure_contract_on_chain env coin)"
    using assms by (intro ensure_logs) (auto simp: funding_evidence_def)
  then show ?thesis using True by (auto simp: classify_coin_def intro!: steps_intros log_rules)
next
  case False
  show ?thesis unfolding steps_def
  proof
    fix w :: world
    let ?c = "coin\<lparr>committed := True\<rparr>"
    obtain r w1 where eq: "funding_seen env coin w = (r, w1)" by (rule prod.exhaust)
    have first: "logs Q w w1" using lg.funding_seen_R eq by (rule stepsD)
    have seen: "steps (logs Q) (seq (commit_seen env key) (bnd (ensure_contract_on_chain env ?c) (\<lambda>st. ret (st, ?c))))"
      if "r = Inr True"
    proof -
      have "funding_evidence env coin" using eq that by (auto intro: funding_seen_evidence)
      then have "steps (logs Q) (ensure_contract_on_chain env ?c)"
        using assms by (intro ensure_logs) (auto simp: committed_irrelevant)
      moreover have "steps (logs Q) (commit_seen env key)"
        unfolding commit_seen_def by (intro steps_intros log_rules)
      ultimately show ?thesis by (intro steps_intros log_rules)
    qed
    have other: "steps (logs Q) (if ku then ret (NotYet, coin) else bnd (unsent_funding_state env coin) (\<lambda>st. ret (st, coin)))"
      by (auto intro!: steps_intros log_rules)
    show "logs Q w (snd (classify_coin env ku key coin w))"
      using False first step_logs[OF first seen] step_logs[OF first other]
      by (cases r) (auto simp: classify_coin_def bnd_def[of "funding_seen env coin"] eq Let_def split: bool.split)
  qed
qed

text \<open>\<open>yields P m\<close>: what \<open>m\<close> returns satisfies \<open>P\<close>.\<close>

definition yields :: "('a \<Rightarrow> bool) \<Rightarrow> ('s, 'e, 'a) act \<Rightarrow> bool" where
  "yields P m \<longleftrightarrow> (\<forall>s x s'. m s = (Inr x, s') \<longrightarrow> P x)"

lemma yields_bnd: "yields Q m \<Longrightarrow> (\<And>x. Q x \<Longrightarrow> yields P (f x)) \<Longrightarrow> yields P (bnd m f)"
  unfolding yields_def bnd_eq_Inr by blast

lemma yields_any: "(\<And>x. yields P (f x)) \<Longrightarrow> yields P (bnd m f)" "yields P k \<Longrightarrow> yields P (seq n k)"
  unfolding yields_def bnd_eq_Inr seq_def by blast+

lemma yields_end: "P x \<Longrightarrow> yields P (ret x)" "yields P (fail e)"
  by (auto simp: yields_def ret_def fail_def)

lemma yields_if: "(b \<Longrightarrow> yields P m) \<Longrightarrow> (\<not> b \<Longrightarrow> yields P n) \<Longrightarrow> yields P (if b then m else n)"
  by simp

lemmas yields_rules = yields_any yields_end

lemma yieldsD: "yields P m \<Longrightarrow> m s = (Inr x, s') \<Longrightarrow> P x"
  by (auto simp: yields_def)

lemma steps_bnd_yields:
  assumes "transp R" "steps R m" "yields Q m" "\<And>x. Q x \<Longrightarrow> steps R (f x)"
  shows "steps R (bnd m f)"
  unfolding steps_def
proof
  fix s
  obtain r s1 where eq: "m s = (r, s1)" by (rule prod.exhaust)
  have first: "R s s1" using assms(2) eq by (rule stepsD)
  show "R s (snd (bnd m f s))"
  proof (cases r)
    case (Inr x)
    then have "R s1 (snd (f x s1))" using assms(3,4) eq by (auto simp: yields_def steps_def)
    then show ?thesis using transpD[OF assms(1) first] by (simp add: bnd_def eq Inr)
  qed (use first in \<open>simp add: bnd_def eq\<close>)
qed

lemma yields_query: "yields (\<lambda>x. \<exists>t. f (w_chain env) t = Inr x) (query env f)"
  by (auto simp: yields_def query_def tick_def)

definition pending_ok :: "wallet_env \<Rightarrow> OutgoingSwapCoin \<Rightarrow> ContractChainState \<Rightarrow> bool" where
  "pending_ok env coin st \<longleftrightarrow> (case st of RecoveryPending _ \<Rightarrow> refund_pending env coin | _ \<Rightarrow> True)"

lemma pending_yields: "yields (pending_ok env coin)
    (bnd (pending_own_recovery env coin) (\<lambda>pending. ret (case pending of Some tx \<Rightarrow> RecoveryPending tx | None \<Rightarrow> NotYet)))"
  by (rule yields_bnd[where Q = "\<lambda>p. p \<noteq> None \<longrightarrow> refund_pending env coin"])
    (auto simp: yields_def ret_def pending_ok_def dest: pending_evidence split: option.splits)

lemma unsent_yields: "yields (pending_ok env coin) (unsent_funding_state env coin)"
  unfolding unsent_funding_state_def
  by (auto simp: pending_ok_def split: option.split intro!: yields_rules)

lemma mined_yields: "yields (pending_ok env coin) (mined_contract_state env coin p)"
  unfolding mined_contract_state_def
  by (auto simp: pending_ok_def split: option.split intro!: yields_rules pending_yields)

lemma broadcast_yields: "yields (pending_ok env coin) (broadcast_contract env coin p)"
  unfolding broadcast_contract_def
  by (auto simp: pending_ok_def split: option.split sum.split intro!: yields_rules)

lemma ensure_yields: "yields (pending_ok env coin) (ensure_contract_on_chain env coin)"
proof -
  have plain: "pending_ok env coin OnChain" "pending_ok env coin Discarded" by (simp_all add: pending_ok_def)
  show ?thesis unfolding ensure_contract_on_chain_def Let_def
    by (rule yields_any(1), rule yields_if, rule unsent_yields, rule yields_any(1), rule yields_if,
        rule yields_any(1), rule yields_if, rule yields_end(1), rule plain, rule pending_yields,
        rule yields_any(1), rule yields_if, rule mined_yields, rule yields_any(1), rule yields_if,
        rule yields_end(1), rule plain, rule broadcast_yields)
qed

definition classified :: "wallet_env \<Rightarrow> OutgoingSwapCoin \<Rightarrow> ContractChainState \<times> OutgoingSwapCoin \<Rightarrow> bool" where
  "classified env coin r \<longleftrightarrow> pending_ok env coin (fst r) \<and> (snd r = coin \<or> snd r = coin\<lparr>committed := True\<rparr>)"

lemma classify_yields: "yields (classified env coin) (classify_coin env ku key coin)"
proof -
  have "pending_ok env (coin\<lparr>committed := True\<rparr>) = pending_ok env coin"
    by (simp add: fun_eq_iff pending_ok_def committed_irrelevant' split: ContractChainState.split)
  then have ens: "yields (pending_ok env coin) (ensure_contract_on_chain env (coin\<lparr>committed := True\<rparr>))"
    using ensure_yields[of env "coin\<lparr>committed := True\<rparr>"] by simp
  have pair: "yields (classified env coin) (bnd m (\<lambda>st. ret (st, c)))"
    if "yields (pending_ok env coin) m" "c = coin \<or> c = coin\<lparr>committed := True\<rparr>" for m c
    by (rule yields_bnd[OF that(1)], rule yields_end(1)) (use that(2) in \<open>auto simp: classified_def\<close>)
  have plain: "classified env coin (NotYet, coin)" by (simp add: classified_def pending_ok_def)
  show ?thesis unfolding classify_coin_def Let_def
    by (rule yields_if, rule pair[OF ensure_yields], simp, rule yields_any(1), rule yields_if, rule yields_any(2),
        rule pair[OF ens], simp, rule yields_if, rule yields_end(1), rule plain, rule pair[OF unsent_yields], simp)
qed

lemma hops_dangling_evidence:
  assumes "hops_dangling env d hops w = (Inr True, w')" "hop \<in> set hops"
  shows "\<exists>t tx. c_confirmed_spending_transaction (w_chain env) t (wo_contract_outpoint (w_lib env) hop)
             (script_pubkey (tx_output (wo_contract_tx hop) ! vout (wo_contract_outpoint (w_lib env) hop))) = Inr (Some tx) \<and>
           wo_is_timelock_spend (w_lib env) hop tx"
  using assms
proof (induction hops arbitrary: d w)
  case (Cons h hops)
  from Cons.prems(1) obtain w1 where rest: "hops_dangling env True hops w1 = (Inr True, w')"
    and head: "\<exists>spend. c_confirmed_spending_transaction (w_chain env) (wclock w) (wo_contract_outpoint (w_lib env) h)
        (script_pubkey (tx_output (wo_contract_tx h) ! vout (wo_contract_outpoint (w_lib env) h))) = Inr spend \<and>
        (case spend of Some tx \<Rightarrow> wo_is_timelock_spend (w_lib env) h tx | None \<Rightarrow> False)"
    by (auto simp: Let_def bnd_eq_Inr ret_def query_def tick_def split: if_splits)
  show ?case
  proof (cases "hop = h")
    case True
    then show ?thesis using head by (auto split: option.splits)
  next
    case False
    then show ?thesis using Cons.IH[OF rest] Cons.prems(2) by simp
  qed
qed simp

lemma first_hops_evidence:
  assumes "first_hops_refunded env i w = (Inr True, w')"
  shows "hops_refunded env (hops_of i (wstore w))"
proof -
  let ?hops = "hops_of i (wstore w)" and ?lock = "hop_timelock (w_lib env)"
  let ?first = "case ?hops of hop # _ \<Rightarrow> ?lock hop | [] \<Rightarrow> None"
  have run: "hops_dangling env (?first \<noteq> None) (filter (\<lambda>hop. ?lock hop = ?first) ?hops) w = (Inr True, w')"
    using assms by (simp add: first_hops_refunded_def bnd_gets hops_of_def Let_def)
  then have ne: "?hops \<noteq> []" by (auto simp: ret_def)
  then have "?first = ?lock (hd ?hops)" by (cases ?hops) auto
  then show ?thesis using hops_dangling_evidence[OF run] ne by (auto simp: hops_refunded_def)
qed

lemma save_keeps_store: "wstore (snd (save_to_disk env w)) = wstore w"
  by (simp add: save_to_disk_def elapse_def split: save_outcome.split)

lemma settle_claims_done:
  assumes "settle_claims proven coin s = (b, s')" "out_swap_id coin = Some i"
  shows "proven \<or> has_built_sweep i s' \<or> \<not> can_claim i s'"
  using assms by (auto simp: settle_claims_def give_up_claims_def can_claim_def split: if_splits)

lemma settle_claims_kept:
  assumes "settle_claims proven coin s = (b, s')"
  shows "outgoing_swapcoins s' = outgoing_swapcoins s" "watchonly_swapcoins s' = watchonly_swapcoins s"
  using assms by (auto simp: settle_claims_def give_up_claims_def split: if_splits option.splits)

lemma prepare_refund_post:
  assumes "prepare_refund env proven key coin w = (Inr address, w')"
  shows "\<exists>c. map_of (outgoing_swapcoins (wstore w')) key = Some c \<and> out_recovery_address c = Some address"
    and "out_swap_id coin = Some i \<Longrightarrow> proven \<or> has_built_sweep i (wstore w') \<or> \<not> can_claim i (wstore w')"
    and "watchonly_swapcoins (wstore w') = watchonly_swapcoins (wstore w)"
proof -
  let ?stored = "\<lambda>w. case map_of (outgoing_swapcoins (wstore w)) key of Some c \<Rightarrow> out_recovery_address c | None \<Rightarrow> None"
  from assms obtain created w1 where addr: "recovery_address_or_else (?stored w) (next_internal_address env) w = (Inr (address, created), w1)"
    and present: "\<not> (created \<and> map_of (outgoing_swapcoins (wstore w1)) key = None)"
    and wr: "write_refund env proven key coin address created w1 = (Inr (), w')"
    by (auto simp: prepare_refund_def bnd_gets bnd_eq_Inr seq_def ret_def fail_def split: if_splits)
  obtain g s' where sc: "settle_claims proven coin (with_address created key address (wstore w1)) = (g, s')" by (rule prod.exhaust)
  have mem: "wstore w' = s'"
    using arg_cong[OF wr, of "\<lambda>x. wstore (snd x)"] save_keeps_store
    by (simp add: write_refund_run sc on_cond_def ret_def split: if_splits)
  have same: "books_same w w1"
  proof (cases "?stored w")
    case None
    then have "steps books_same (recovery_address_or_else (?stored w) (next_internal_address env))"
      by (auto simp: recovery_address_or_else_def intro!: steps_intros same.R_rules)
    from stepsD[OF this addr] show ?thesis .
  qed (use addr same.R_same in \<open>auto simp: recovery_address_or_else_def ret_def\<close>)
  have "\<not> created \<Longrightarrow> ?stored w1 = Some address"
    using addr stored_address_same[OF same, of key]
    by (cases "?stored w") (auto simp: recovery_address_or_else_def ret_def bnd_eq_Inr)
  then show "\<exists>c. map_of (outgoing_swapcoins (wstore w')) key = Some c \<and> out_recovery_address c = Some address"
    using present mem settle_claims_kept(1)[OF sc]
    by (cases created) (auto simp: with_address_def update_entry_def update_conv' split: option.splits)
  show "out_swap_id coin = Some i \<Longrightarrow> proven \<or> has_built_sweep i (wstore w') \<or> \<not> can_claim i (wstore w')"
    using settle_claims_done[OF sc] mem by simp
  show "watchonly_swapcoins (wstore w') = watchonly_swapcoins (wstore w)"
    using settle_claims_kept(2)[OF sc] mem same by (simp add: with_address_def books_same_def same_books_def split: if_splits)
qed

text \<open>Sending and noting the result adds that one transaction to the log.\<close>

lemma send_and_note_logs:
  assumes "Q tx (wstore (fst p)) (disk (fst p))"
  shows "lift_rel (logs Q) p (snd (bnd (on_wallet (attempt (send_raw_transaction env tx)))
    (\<lambda>r. case r of Inr x \<Rightarrow> push_refund (f x) | Inl e \<Rightarrow> ret ()) p))"
proof -
  obtain r w where eq: "send_raw_transaction env tx (fst p) = (r, w)" by (rule prod.exhaust)
  have "logs Q (fst p) w" using send_logs[of Q tx "fst p" env] assms eq by simp
  then show ?thesis
    by (cases r) (simp_all add: lift_rel_def bnd_def on_wallet_def attempt_def eq push_refund_def capture_def modify_def ret_def)
qed

lemma get_fee_rates_rel:
  shows get_fee_rates_logs: "steps (lift_rel (logs Q)) (get_fee_rates env)"
    and get_fee_rates_same: "steps (lift_rel books_same) (get_fee_rates env)"
  unfolding get_fee_rates_def
  by (auto split: option.split intro!: steps_intros log_rules same.R_rules)

lemma refund_ready_same:
  "same_books s s' \<Longrightarrow> refund_ready env cl pr key coin a s' = refund_ready env cl pr key coin a s"
  by (simp add: same_books_def refund_ready_def has_built_sweep_def can_claim_def hops_of_def)

lemma send_refund_logs:
  assumes "refund_ready env cl pr key coin address (wstore (fst p))"
    and "\<And>tx rates mem dsk. create_timelock_recovery_tx (w_lib env) coin rates address = Inr tx \<Longrightarrow>
        refund_ready env cl pr key coin address mem \<Longrightarrow> Q tx mem dsk"
  shows "lift_rel (logs Q) p (snd (send_refund env key coin address p))"
proof -
  obtain r p1 where eq: "get_fee_rates env p = (r, p1)" by (rule prod.exhaust)
  have first: "lift_rel (logs Q) p p1" using stepsD[OF get_fee_rates_logs eq] .
  have same: "same_books (wstore (fst p)) (wstore (fst p1))"
    using stepsD[OF get_fee_rates_same eq] by (simp add: lift_rel_def books_same_def)
  show ?thesis
  proof (cases r)
    case (Inl e)
    then show ?thesis using first by (simp add: send_refund_def bnd_def eq)
  next
    case (Inr rates)
    show ?thesis
    proof (cases "create_timelock_recovery_tx (w_lib env) coin rates address")
      case (Inl e)
      then show ?thesis using first Inr by (simp add: send_refund_def bnd_def eq fail_def ret_def)
    next
      case tx: (Inr tx)
      have "Q tx (wstore (fst p1)) (disk (fst p1))"
        using assms(2)[OF tx] assms(1) refund_ready_same[OF same] by blast
      from send_and_note_logs[of Q tx p1, OF this] transpD[OF lift_rel_trans[OF lg.R_trans] first]
      show ?thesis by (simp add: send_refund_def bnd_def[of "get_fee_rates env"] eq Inr tx)
    qed
  qed
qed

lemma lift_step: "lift_rel (logs Q) p p' \<Longrightarrow> lift_rel (logs Q) p' p'' \<Longrightarrow> lift_rel (logs Q) p p''"
  unfolding lift_rel_def by (rule logs_trans)

lemma lift_logs_refl: "lift_rel (logs Q) p p"
  by (simp add: lift_rel_def logs_same)

lemma lift_bnd:
  assumes "steps (lift_rel (logs Q)) m" "\<And>x p'. m p = (Inr x, p') \<Longrightarrow> lift_rel (logs Q) p' (snd (f x p'))"
  shows "lift_rel (logs Q) p (snd (bnd m f p))"
proof (cases rule: bnd_cases[of m p f])
  case (err e p')
  then show ?thesis using stepsD[OF assms(1) err(1)] by simp
next
  case (ok x p')
  then show ?thesis using lift_step[OF stepsD[OF assms(1) ok(1)] assms(2)[OF ok(1)]] by simp
qed

lemma on_wallet_Inr: "on_wallet m p = (Inr x, p') \<Longrightarrow> m (fst p) = (Inr x, fst p')"
  by (auto simp: on_wallet_def split: prod.splits)

lemma steps_liftR_bnd:
  assumes "\<And>x. r = Inr x \<Longrightarrow> steps (lift_rel (logs Q)) (f x)"
  shows "steps (lift_rel (logs Q)) (bnd (liftR r) f)"
  using assms lift_logs_refl by (cases r) (auto simp: steps_def bnd_def liftR_def)

lemma replace_pending_logs:
  assumes "\<And>tx rates address mem dsk. out_recovery_address coin = Some address \<Longrightarrow>
      create_timelock_recovery_tx (w_lib env) coin rates address = Inr tx \<Longrightarrow> Q tx mem dsk"
  shows "steps (lift_rel (logs Q)) (replace_pending env key coin pending)"
proof (cases "out_recovery_address coin")
  case None
  then show ?thesis by (auto simp: replace_pending_def Let_def intro!: steps_intros log_rules)
next
  case (Some address)
  have push: "steps (lift_rel (logs Q)) (push_refund x)" for x unfolding push_refund_def by (intro log_rules)
  have send: "steps (logs Q) (send_raw_transaction env tx)"
    if "create_timelock_recovery_tx (w_lib env) coin rates address = Inr tx" for rates tx
    by (rule send_logs_always) (use assms Some that in blast)
  show ?thesis
    unfolding replace_pending_def Let_def Some option.case
    by (auto split: option.split sum.split simp del: not_le
        intro!: steps_bnd[OF lift_rel_trans[OF lg.R_trans] get_fee_rates_logs] steps_liftR_bnd
        steps_bnd[OF lift_rel_trans[OF lg.R_trans] steps_on_wallet[OF lg.replacement_increment_rate_R]]
        steps_bnd[OF lift_rel_trans[OF lg.R_trans] steps_on_wallet[OF steps_attempt[OF send]]]
        push steps_ret lift_rel_refl lg.R_refl)
qed

lemma refund_on_chain_logs:
  assumes "\<And>tx rates address mem dsk. matured env coin lock \<Longrightarrow>
      create_timelock_recovery_tx (w_lib env) coin rates address = Inr tx \<Longrightarrow>
      refund_ready env cl pr key coin address mem \<Longrightarrow> Q tx mem dsk"
  shows "lift_rel (logs Q) p (snd (refund_on_chain env cl pr key coin lock p))"
proof -
  let ?holds = "\<lambda>f. case out_swap_id coin of Some i \<Rightarrow> f i | None \<Rightarrow> False"
  let ?i = "case out_swap_id coin of Some i \<Rightarrow> i | None \<Rightarrow> []"
  let ?look = "on_wallet (query env (\<lambda>c t. c_tx_out c t (txid (contract_point env coin)) (vout (contract_point env coin)) (Some False)))"
  let ?gate = "if ?holds cl then on_wallet (first_hops_refunded env ?i) else ret True"
  have gate: "lift_rel (logs Q) p (snd (bnd ?gate (\<lambda>free. if \<not> free then ret ()
      else bnd (on_wallet (prepare_refund env (?holds pr) key coin)) (\<lambda>address. send_refund env key coin address)) p))"
    if "matured env coin lock" for p
  proof (rule lift_bnd)
    show "steps (lift_rel (logs Q)) ?gate" by (auto intro!: steps_intros log_rules)
    fix free p1
    assume g: "?gate p = (Inr free, p1)"
    have prep: "lift_rel (logs Q) p1 (snd (bnd (on_wallet (prepare_refund env (?holds pr) key coin))
        (\<lambda>address. send_refund env key coin address) p1))" if free
    proof (rule lift_bnd)
      have "steps (logs Q) (write_refund env pv key coin a b)" for pv a b
        unfolding write_refund_def
        by (auto intro!: steps_intros log_rules steps_modify logs_same)
      then show "steps (lift_rel (logs Q)) (on_wallet (prepare_refund env (?holds pr) key coin))"
        unfolding prepare_refund_def recovery_address_or_else_def
        by (auto split: option.split intro!: steps_intros log_rules)
      fix address p2
      assume "on_wallet (prepare_refund env (?holds pr) key coin) p1 = (Inr address, p2)"
      note post = prepare_refund_post[OF on_wallet_Inr[OF this]]
      have "hops_refunded env (hops_of i (wstore (fst p2)))" if "out_swap_id coin = Some i" "cl i" for i
      proof -
        have run: "first_hops_refunded env i (fst p) = (Inr True, fst p1)" using g that \<open>free\<close> by (auto dest: on_wallet_Inr)
        have "books_same (fst p) (fst p1)" using same.first_hops_refunded_R run by (rule stepsD)
        then show ?thesis using first_hops_evidence[OF run] post(3)
          by (simp add: books_same_def same_books_def hops_of_def)
      qed
      then have "refund_ready env cl pr key coin address (wstore (fst p2))"
        using post(1,2) by (auto simp: refund_ready_def)
      then show "lift_rel (logs Q) p2 (snd (send_refund env key coin address p2))"
        by (rule send_refund_logs) (use assms that \<open>matured env coin lock\<close> in blast)
    qed
    then show "lift_rel (logs Q) p1 (snd ((if \<not> free then ret ()
      else bnd (on_wallet (prepare_refund env (?holds pr) key coin)) (\<lambda>address. send_refund env key coin address)) p1))"
      by (auto simp: ret_def lift_logs_refl)
  qed
  have "lift_rel (logs Q) p (snd (bnd ?look (\<lambda>utxo. case utxo of None \<Rightarrow> ret () | Some info \<Rightarrow>
      if to_confirmations info < (if out_protocol coin = Taproot then 1 else lock) then ret ()
      else bnd ?gate (\<lambda>free. if \<not> free then ret ()
        else bnd (on_wallet (prepare_refund env (?holds pr) key coin)) (\<lambda>address. send_refund env key coin address))) p))"
  proof (rule lift_bnd)
    show "steps (lift_rel (logs Q)) ?look" by (intro steps_intros log_rules)
    fix utxo p1
    assume "?look p = (Inr utxo, p1)"
    then have q: "c_tx_out (w_chain env) (wclock (fst p)) (txid (contract_point env coin)) (vout (contract_point env coin)) (Some False) = Inr utxo"
      by (auto dest!: on_wallet_Inr query_Inr)
    then have m: "matured env coin lock" if "utxo = Some info" "\<not> to_confirmations info < (if out_protocol coin = Taproot then 1 else lock)" for info
      using that q unfolding matured_def
      by (intro exI[of _ "wclock (fst p)"] exI[of _ info]) (simp add: not_less)
    show "lift_rel (logs Q) p1 (snd ((case utxo of None \<Rightarrow> ret () | Some info \<Rightarrow>
      if to_confirmations info < (if out_protocol coin = Taproot then 1 else lock) then ret ()
      else bnd ?gate (\<lambda>free. if \<not> free then ret ()
        else bnd (on_wallet (prepare_refund env (?holds pr) key coin)) (\<lambda>address. send_refund env key coin address))) p1))"
    proof (cases utxo)
      case (Some info)
      then show ?thesis
        using gate[OF m[OF Some], of p1] by (simp add: ret_def lift_logs_refl)
    qed (simp add: ret_def lift_logs_refl)
  qed
  then show ?thesis unfolding refund_on_chain_def Let_def by (simp add: contract_point_def)
qed

lemma steps_here: "steps R m \<Longrightarrow> R s (snd (m s))"
  by (simp add: steps_def)

lemma steps_if: "(b \<Longrightarrow> steps R m) \<Longrightarrow> (\<not> b \<Longrightarrow> steps R n) \<Longrightarrow> steps R (if b then m else n)"
  by simp

lemma recover_coin_logs:
  assumes "(key, coin, lock) \<in> set cs" "\<exists>t n. c_block_count (w_chain env) t = Inr n \<and> h = n mod (u32_max + 1)"
  shows "steps (lift_rel (logs (refund_allowed env cl pr cs))) (recover_coin env cl pr ku h (key, coin, lock))"
  unfolding steps_def
proof
  fix p :: "world \<times> refund_acc"
  let ?Q = "refund_allowed env cl pr cs"
  have a1: "?Q tx mem dsk" if "funding_evidence env coin"
      "own_funding coin = Some tx \<and> out_protocol coin = Legacy \<or> out_create_signed_contract_tx (w_lib env) coin = Inr tx" for tx mem dsk
    using assms(1) that unfolding refund_allowed_def by blast
  have a2: "?Q tx mem dsk" if "create_timelock_recovery_tx (w_lib env) coin rates address = Inr tx"
      "out_recovery_address coin = Some address \<and> refund_pending env coin \<or>
       matured env coin lock \<and> reached env coin lock \<and> refund_ready env cl pr key coin address mem" for tx mem dsk rates address
    using assms(1) that unfolding refund_allowed_def by blast
  have "lift_rel (logs ?Q) p (snd (bnd (on_wallet (classify_coin env ku key coin)) (\<lambda>(st, coin). case st of
        OnChain \<Rightarrow>
          if out_protocol coin = Taproot \<and> h < lock then ret ()
          else refund_on_chain env cl pr key coin lock
      | Discarded \<Rightarrow> capture (\<lambda>acc. acc\<lparr>discards := discards acc @ [key]\<rparr>)
      | RecoveredByTimelock recovery_txid \<Rightarrow>
          push_refund (key, compute_txid (w_lib env) (out_contract_tx coin), recovery_txid)
      | RecoveryPending pending \<Rightarrow> replace_pending env key coin pending
      | NotYet \<Rightarrow> ret ()) p))"
  proof (rule lift_bnd)
    have "steps (logs ?Q) (classify_coin env ku key coin)" by (rule classify_logs) (rule a1)
    then show "steps (lift_rel (logs ?Q)) (on_wallet (classify_coin env ku key coin))" by (rule steps_on_wallet)
    fix r p1
    assume "on_wallet (classify_coin env ku key coin) p = (Inr r, p1)"
    then have "classified env coin r" by (rule yieldsD[OF classify_yields on_wallet_Inr])
    moreover obtain st coin' where r: "r = (st, coin')" by (rule prod.exhaust)
    ultimately have st: "pending_ok env coin st" and coin': "coin' = coin \<or> coin' = coin\<lparr>committed := True\<rparr>"
      by (simp_all add: classified_def)
    have refund: "lift_rel (logs ?Q) p1 (snd (refund_on_chain env cl pr key coin' lock p1))"
      if "\<not> (out_protocol coin' = Taproot \<and> h < lock)"
    proof -
      have "reached env coin lock" using assms(2) coin' that by (auto simp: reached_def not_less)
      then show ?thesis
        by (intro refund_on_chain_logs) (use a2 coin' in \<open>auto simp: committed_irrelevant committed_irrelevant'\<close>)
    qed
    have replace: "steps (lift_rel (logs ?Q)) (replace_pending env key coin' pending)" if "st = RecoveryPending pending" for pending
      by (rule replace_pending_logs) (use a2 coin' st that in \<open>auto simp: committed_irrelevant pending_ok_def\<close>)
    have push: "steps (lift_rel (logs ?Q)) (push_refund x)" for x unfolding push_refund_def by (intro log_rules)
    have keep: "steps (lift_rel (logs ?Q)) (capture f)" for f by (intro log_rules)
    show "lift_rel (logs ?Q) p1 (snd ((case r of (st, coin) \<Rightarrow> (case st of
        OnChain \<Rightarrow>
          if out_protocol coin = Taproot \<and> h < lock then ret ()
          else refund_on_chain env cl pr key coin lock
      | Discarded \<Rightarrow> capture (\<lambda>acc. acc\<lparr>discards := discards acc @ [key]\<rparr>)
      | RecoveredByTimelock recovery_txid \<Rightarrow>
          push_refund (key, compute_txid (w_lib env) (out_contract_tx coin), recovery_txid)
      | RecoveryPending pending \<Rightarrow> replace_pending env key coin pending
      | NotYet \<Rightarrow> ret ())) p1))"
      using refund by (cases st) (simp_all add: r ret_def lift_logs_refl steps_here[OF replace] steps_here[OF push] steps_here[OF keep])
  qed
  then show "lift_rel (logs ?Q) p (snd (recover_coin env cl pr ku h (key, coin, lock) p))"
    by (simp add: recover_coin_def)
qed

lemma refunds_log:
  "logs (refund_allowed env cl pr (refund_candidates (w_lib env) scope (wstore w))) w
     (snd (broadcast_timelock_recoveries env scope cl pr synced ku w))"
proof -
  let ?cs = "refund_candidates (w_lib env) scope (wstore w)"
  let ?Q = "refund_allowed env cl pr ?cs"
  let ?ok = "\<lambda>h. \<exists>t n. c_block_count (w_chain env) t = Inr n \<and> h = n mod (u32_max + 1)"
  have coins: "steps (lift_rel (logs ?Q)) (for_each (filter (ready_to_recover h) ?cs)
      (\<lambda>e. for_coin (recover_coin env cl pr ku h e)))" if "?ok h" for h
    by (rule coins_log) (auto intro!: recover_coin_logs[OF _ that])
  have run: "steps (logs ?Q) (\<lambda>w. case for_each (filter (ready_to_recover h) ?cs) (\<lambda>e. for_coin (recover_coin env cl pr ku h e))
      (w, acc) of (r, (w, acc)) \<Rightarrow> bnd (liftR r) (\<lambda>_. ret (refunds acc, discards acc)) w)" if "?ok h" for h acc
    by (rule steps_run[OF lg.R_trans coins[OF that]]) (intro steps_intros log_rules)
  have height: "?ok (n mod (u32_max + 1))" if "\<exists>t. c_block_count (w_chain env) t = Inr n" for n using that by blast
  have "steps (logs ?Q) (if ?cs = [] then ret ([], [])
     else
       seq (on_cond (\<not> synced) (sync_and_save env))
       (bnd (query env (\<lambda>c t. c_block_count c t)) (\<lambda>count.
        let current_height = count mod (u32_max + 1);
            run = for_each (filter (ready_to_recover current_height) ?cs)
                    (\<lambda>entry. for_coin (recover_coin env cl pr ku current_height entry))
        in (\<lambda>w. case run (w, \<lparr>refunds = [], discards = [], fee_rates = None\<rparr>) of
              (r, (w, acc)) \<Rightarrow> bnd (liftR r) (\<lambda>_. ret (refunds acc, discards acc)) w))))"
    unfolding Let_def
    by (intro steps_if steps_ret steps_seq steps_on_cond lg.sync_and_save_R log_rules
        steps_bnd_yields[OF lg.R_trans lg.query_R yields_query] run[OF height])
  then show ?thesis unfolding broadcast_timelock_recoveries_def by (simp add: bnd_gets steps_def)
qed

end
