(* ===== verification/Settlement.thy ===== *)
theory Settlement
  imports RecoverySends
begin

text \<open>
  How a coin leaves the wallet. A wait for confirmations ends only with every transaction mined;
  what a recovery pass gathers about its coins (the refunds and sweeps it sent, the coins whose
  funding is gone) rests on answers of the backend; until the books are closed no coin is dropped,
  and closing them drops a coin only when its spend is mined or its funding can never confirm.
  The last section shows that a refund never goes out beside a claim.
\<close>

section \<open>Waiting for confirmations\<close>

definition confirms_of :: "TxInfo \<Rightarrow> u32" where
  "confirms_of info = (case ti_confirmations info of Some n \<Rightarrow> n | None \<Rightarrow> 0)"

text \<open>The backend gave the transaction a block.\<close>

definition mined :: "wallet_env \<Rightarrow> Txid \<Rightarrow> bool" where
  "mined env x \<longleftrightarrow> (\<exists>t h. c_tx_block_height (w_chain env) t x = Inr (Some h))"

definition confirmed_in :: "wallet_env \<Rightarrow> u32 \<Rightarrow> u32 \<Rightarrow> Txid \<Rightarrow> bool" where
  "confirmed_in env n limit x \<longleftrightarrow>
     (\<exists>t info t' h. c_raw_transaction_info (w_chain env) t x = Inr info \<and> n \<le> confirms_of info \<and>
        c_tx_block_height (w_chain env) t' x = Inr (Some h) \<and> h mod (u32_max + 1) \<le> limit)"

lemma confirmed_in_mono: "confirmed_in env n h x \<Longrightarrow> h \<le> h' \<Longrightarrow> confirmed_in env n h' x"
  unfolding confirmed_in_def by (meson le_trans)

lemma ask_query_eq: "ask_query env f w = (Inr (f (w_chain env) (wclock w)), elapse env w)"
  by (simp add: ask_query_def attempt_def query_def tick_def)

lemma query_eq: "query env f w = (f (w_chain env) (wclock w), elapse env w)"
  by (simp add: query_def tick_def)

lemma poll_tx_confirmed:
  assumes "poll_tx env n tmo x (st, b, m) w = (Inr (st', True, m'), w')"
  shows "b \<and> m \<le> m' \<and> confirmed_in env n m' x"
proof -
  let ?r = "c_raw_transaction_info (w_chain env) (wclock w) x"
  let ?h = "c_tx_block_height (w_chain env) (wclock (elapse env w)) x"
  obtain info where info: "?r = Inr info" "n \<le> confirms_of info"
    using assms by (auto simp: poll_tx_def bnd_def[of "ask_query env f" for f] ask_query_eq Let_def ret_def fail_def
        bnd_eq_Inr confirms_of_def not_less split: sum.splits if_splits option.splits)
  moreover have "\<exists>h. ?h = Inr (Some h) \<and> m' = max m (h mod (u32_max + 1)) \<and> b"
    using assms info by (auto simp: poll_tx_def bnd_def ask_query_eq query_eq Let_def ret_def fail_def confirms_of_def
        split: sum.splits if_splits option.splits)
  ultimately show ?thesis unfolding confirmed_in_def by fastforce
qed

lemma polls_confirmed:
  "fold_act xs (poll_tx env n tmo) (st, b, m) w = (Inr (st', True, m'), w') \<Longrightarrow>
   b \<and> m \<le> m' \<and> (\<forall>x \<in> set xs. confirmed_in env n m' x)"
proof (induction xs arbitrary: st b m w)
  case Nil
  then show ?case by (simp add: ret_def)
next
  case (Cons x xs)
  then obtain st1 b1 m1 w1 where
    a: "poll_tx env n tmo x (st, b, m) w = (Inr (st1, b1, m1), w1)"
    and c: "fold_act xs (poll_tx env n tmo) (st1, b1, m1) w1 = (Inr (st', True, m'), w')"
    by (auto simp: bnd_eq_Inr)
  from Cons.IH[OF c] a have "poll_tx env n tmo x (st, b, m) w = (Inr (st1, True, m1), w1)" by simp
  from poll_tx_confirmed[OF this] Cons.IH[OF c] show ?case by (auto intro: confirmed_in_mono)
qed

lemma poll_round_confirmed:
  assumes "poll_round env xs n tmo sd ab started st w = (Inr (Inr h), w')"
  shows "\<forall>x \<in> set xs. confirmed_in env n h x"
proof -
  have miss: "report_missing env ys v \<noteq> (Inr y, v')" for ys v and y :: "wait_state + u32" and v'
    by (auto simp: report_missing_def Let_def bnd_eq_Inr fail_def split: if_splits)
  from assms obtain st1 st2 v v' where "fold_act xs (poll_tx env n tmo) (st1, True, 0) v = (Inr (st2, True, h), v')"
    unfolding poll_round_def Let_def
    by (auto simp: bnd_eq_Inr seq_def ret_def fail_def miss split: if_splits prod.splits)
  from polls_confirmed[OF this] show ?thesis by blast
qed

lemma wait_rounds_confirmed:
  "wait_rounds env xs n tmo sd ab started st w = (Inr h, w') \<Longrightarrow> \<forall>x \<in> set xs. confirmed_in env n h x"
proof (induction env xs n tmo sd ab started st w arbitrary: h w' rule: wait_rounds.induct)
  case (1 env xs n tmo sd ab started st w)
  obtain r w1 where eq: "poll_round env xs n tmo sd ab started st w = (r, w1)" by (rule prod.exhaust)
  show ?case
  proof (cases "\<exists>st'. r = Inr (Inl st')")
    case True
    then obtain st' where r: "r = Inr (Inl st')" by blast
    show ?thesis using 1(1)[OF eq[symmetric] r refl] 1(2) by (simp add: wait_rounds.simps[of _ _ _ _ _ _ _ _ w] eq r)
  next
    case False
    then have "r = Inr (Inr h)"
      using 1(2) by (auto simp: wait_rounds.simps[of _ _ _ _ _ _ _ _ w] eq split: sum.splits)
    then show ?thesis using poll_round_confirmed eq by simp
  qed
qed

lemma wait_confirmed:
  assumes "wait_for_tx_confirmation env xs n tmo sd ab w = (Inr h, w')" "n \<noteq> 0" "x \<in> set xs"
  shows "confirmed_in env n h x"
  using assms wait_rounds_confirmed
  by (auto simp: wait_for_tx_confirmation_def bnd_eq_Inr split: if_splits)

lemma keep_mined_spec:
  "keep_mined env b xs w = (Inr ys, w') \<Longrightarrow> set ys \<subseteq> set xs \<and> (\<forall>y \<in> set ys. b \<or> mined env (snd (snd y)))"
proof (induction xs arbitrary: w ys w')
  case Nil
  then show ?case by (simp add: ret_def)
next
  case (Cons x xs)
  from Cons.prems obtain m v rest v' where
    m: "(if b then ret True
          else bnd (ask_query env (\<lambda>c t. c_tx_block_height c t (snd (snd x)))) (\<lambda>r.
            ret (case r of Inr (Some _) \<Rightarrow> True | _ \<Rightarrow> False))) w = (Inr m, v)"
    and rest: "keep_mined env b xs v = (Inr rest, v')" and ys: "ys = (if m then x # rest else rest)"
    by (auto simp: bnd_eq_Inr ret_def)
  have "m \<Longrightarrow> b \<or> mined env (snd (snd x))"
    using m by (auto simp: bnd_def ask_query_eq ret_def mined_def split: if_splits sum.splits option.splits)
  then show ?case using Cons.IH[OF rest] ys by auto
qed

section \<open>Which coins the books drop\<close>

definition has_key :: "('k \<times> 'v) list \<Rightarrow> 'k \<Rightarrow> bool" where
  "has_key m k \<longleftrightarrow> map_of m k \<noteq> None"

lemma has_key_iff: "has_key m k \<longleftrightarrow> k \<in> fst ` set m"
  by (simp add: has_key_def map_of_eq_None_iff)

lemma book_sweep_keys:
  assumes "book_sweep x (s, m, oc) = (s', b)"
  shows "has_key (incoming_swapcoins s) k \<Longrightarrow> k \<noteq> fst x \<Longrightarrow> has_key (incoming_swapcoins s') k"
    and "has_key (outgoing_swapcoins s') k = has_key (outgoing_swapcoins s) k"
proof -
  have keep: "has_key (map (\<lambda>(k, c). (k, f c)) cs) k = has_key cs k" for f :: "OutgoingSwapCoin \<Rightarrow> OutgoingSwapCoin" and cs
    by (force simp: has_key_iff)
  show "has_key (incoming_swapcoins s) k \<Longrightarrow> k \<noteq> fst x \<Longrightarrow> has_key (incoming_swapcoins s') k"
    using assms by (auto simp: book_sweep_def remove_incoming_swapcoin_def mark_claimed_def has_key_def delete_conv'
        split: prod.splits option.splits)
  show "has_key (outgoing_swapcoins s') k = has_key (outgoing_swapcoins s) k"
    using assms keep by (auto simp: book_sweep_def remove_incoming_swapcoin_def mark_claimed_def
        split: prod.splits option.splits)
qed

lemma book_refund_keys:
  assumes "book_refund x (s, m, oc) = (s', b)"
  shows "has_key (outgoing_swapcoins s) k \<Longrightarrow> k \<noteq> fst x \<Longrightarrow> has_key (outgoing_swapcoins s') k"
    and "incoming_swapcoins s' = incoming_swapcoins s"
  using assms by (auto simp: book_refund_def remove_outgoing_swapcoin_def has_key_def delete_conv'
        split: prod.splits option.splits)

lemma book_discard_keys:
  assumes "book_discard lib x (s, m, oc) = (s', b)"
  shows "has_key (outgoing_swapcoins s) k \<Longrightarrow> k \<noteq> x \<Longrightarrow> has_key (outgoing_swapcoins s') k"
    and "incoming_swapcoins s' = incoming_swapcoins s"
  using assms by (auto simp: book_discard_def remove_outgoing_swapcoin_def has_key_def delete_conv'
        split: prod.splits option.splits)

text \<open>A fold of bookkeeping steps, each of which may drop only the key it names.\<close>

lemma fold_keys:
  assumes "\<And>x b. P (fst b) \<Longrightarrow> g x \<noteq> k \<Longrightarrow> P (fst (f x b))" "P (fst b)" "k \<notin> g ` set xs"
  shows "P (fst (fold f xs b))"
  using assms(2,3)
proof (induction xs arbitrary: b)
  case (Cons x xs)
  then show ?case using assms(1)[of b x] Cons.IH[of "f x b"] by force
qed simp

lemma booked_keys:
  assumes "booked lib sw rf dk s = (s', b)"
  shows "has_key (incoming_swapcoins s) k \<Longrightarrow> k \<notin> fst ` set sw \<Longrightarrow> has_key (incoming_swapcoins s') k"
    and "has_key (outgoing_swapcoins s) k \<Longrightarrow> k \<notin> fst ` set rf \<Longrightarrow> k \<notin> set dk \<Longrightarrow> has_key (outgoing_swapcoins s') k"
proof -
  let ?in = "\<lambda>s. has_key (incoming_swapcoins s) k" and ?out = "\<lambda>s. has_key (outgoing_swapcoins s) k"
  obtain s1 m1 o1 where f1: "fold book_sweep sw (s, [], no_outcome) = (s1, m1, o1)" by (rule prod_cases3)
  obtain s2 m2 o2 where f2: "fold book_refund rf (s1, m1, no_outcome) = (s2, m2, o2)" by (rule prod_cases3)
  obtain s3 m3 o3 where f3: "fold (book_discard lib) dk (s2, m2, o2) = (s3, m3, o3)" by (rule prod_cases3)
  have s': "s' = s3" using assms by (simp add: booked_def f1 f2 f3)
  have sw: "?in s \<Longrightarrow> k \<notin> fst ` set sw \<Longrightarrow> ?in s1" "?out s \<Longrightarrow> ?out s1"
    using fold_keys[of ?in fst k book_sweep "(s, [], no_outcome)" sw]
      fold_keys[of ?out "\<lambda>_. Suc k" k book_sweep "(s, [], no_outcome)" sw] f1 book_sweep_keys
    by (auto simp: image_def) (metis prod.collapse)+
  have rf: "?in s1 \<Longrightarrow> ?in s2" "?out s1 \<Longrightarrow> k \<notin> fst ` set rf \<Longrightarrow> ?out s2"
    using fold_keys[of ?in "\<lambda>_. Suc k" k book_refund "(s1, m1, no_outcome)" rf]
      fold_keys[of ?out fst k book_refund "(s1, m1, no_outcome)" rf] f2 book_refund_keys
    by (auto simp: image_def) (metis prod.collapse)+
  have dk: "?in s2 \<Longrightarrow> ?in s3" "?out s2 \<Longrightarrow> k \<notin> set dk \<Longrightarrow> ?out s3"
    using fold_keys[of ?in "\<lambda>_. Suc k" k "book_discard lib" "(s2, m2, o2)" dk]
      fold_keys[of ?out "\<lambda>x. x" k "book_discard lib" "(s2, m2, o2)" dk] f3 book_discard_keys
    by (auto simp: image_def) (metis prod.collapse)+
  show "?in s \<Longrightarrow> k \<notin> fst ` set sw \<Longrightarrow> ?in s'" using sw rf dk s' by blast
  show "?out s \<Longrightarrow> k \<notin> fst ` set rf \<Longrightarrow> k \<notin> set dk \<Longrightarrow> ?out s'" using sw rf dk s' by blast
qed

lemma close_books_keys:
  assumes "close_books env role c sw rf dk w = (r, w')"
  shows "has_key (incoming_swapcoins (wstore w)) k \<Longrightarrow> k \<notin> fst ` set sw \<Longrightarrow> has_key (incoming_swapcoins (wstore w')) k"
    and "has_key (outgoing_swapcoins (wstore w)) k \<Longrightarrow> k \<notin> fst ` set rf \<Longrightarrow> k \<notin> set dk \<Longrightarrow>
      has_key (outgoing_swapcoins (wstore w')) k"
proof -
  obtain s m inc out where bk: "booked (w_lib env) sw rf dk (wstore w) = (s, m, inc, out)" by (rule prod_cases4)
  have cases: "(incoming_swapcoins (wstore w') = incoming_swapcoins s \<and> outgoing_swapcoins (wstore w') = outgoing_swapcoins s) \<or>
      (incoming_swapcoins (wstore w') = incoming_swapcoins (wstore w) \<and> outgoing_swapcoins (wstore w') = outgoing_swapcoins (wstore w))"
    using assms by (auto simp: close_books_def bk Let_def seq_def bnd_def modify_def fail_def ret_def save_books_def
        save_to_disk_def elapse_def on_store_def split: if_splits sum.splits save_outcome.splits prod.splits)
  then show "has_key (incoming_swapcoins (wstore w)) k \<Longrightarrow> k \<notin> fst ` set sw \<Longrightarrow> has_key (incoming_swapcoins (wstore w')) k"
    "has_key (outgoing_swapcoins (wstore w)) k \<Longrightarrow> k \<notin> fst ` set rf \<Longrightarrow> k \<notin> set dk \<Longrightarrow>
      has_key (outgoing_swapcoins (wstore w')) k"
    using booked_keys[OF bk] by auto
qed

text \<open>A pass that waits, asks and synchronises keeps the coins.\<close>

lemma finish_keys:
  assumes "finish_recoveries env sw rf dk role w = (r, w')"
  shows "has_key (incoming_swapcoins (wstore w)) k \<Longrightarrow> \<not> has_key (incoming_swapcoins (wstore w')) k \<Longrightarrow>
      \<exists>c t. (k, c, t) \<in> set sw \<and> mined env t"
    and "has_key (outgoing_swapcoins (wstore w)) k \<Longrightarrow> \<not> has_key (outgoing_swapcoins (wstore w')) k \<Longrightarrow>
      k \<in> set dk \<or> (\<exists>c t. (k, c, t) \<in> set rf \<and> mined env t)"
proof -
  let ?ids = "map (\<lambda>(_, _, x). x) (sw @ rf)"
  obtain c w1 where wt: "wait_for_tx_confirmation env ?ids 1 TX_BROADCAST_TIMEOUT True None w = (c, w1)" by (rule prod.exhaust)
  obtain rs w2 where ks: "keep_mined env (is_ok c) sw w1 = (rs, w2)" by (rule prod.exhaust)
  have never: "keep_mined env b xs v \<noteq> (Inl e, v')" for b xs v e v'
    by (induction xs arbitrary: v) (auto simp: bnd_def ret_def ask_query_eq split: prod.splits sum.splits if_splits)
  then obtain sw' where sw': "rs = Inr sw'" using ks by (cases rs) auto
  obtain rf' w3 where kr: "keep_mined env (is_ok c) rf w2 = (Inr rf', w3)"
    using never by (metis old.sum.exhaust prod.exhaust)
  have fin: "close_books env role c sw' rf' dk w3 = (r, w')"
    using assms unfolding finish_recoveries_def Let_def bnd_def attempt_def wt by (simp add: ks sw' kr)
  have "books_same w w1" "books_same w1 w2" "books_same w2 w3"
    using stepsD[OF same.wait_for_tx_confirmation_R wt] stepsD[OF same.keep_mined_R ks] stepsD[OF same.keep_mined_R kr] .
  then have same: "incoming_swapcoins (wstore w3) = incoming_swapcoins (wstore w)" "outgoing_swapcoins (wstore w3) = outgoing_swapcoins (wstore w)"
    by (simp_all add: books_same_def same_books_def)
  have conf: "mined env x" if "is_ok c" "x \<in> set ?ids" for x
  proof -
    obtain h where "c = Inr h" using \<open>is_ok c\<close> by (cases c) auto
    from wait_confirmed[OF wt[unfolded this] _ that(2)] show ?thesis by (auto simp: mined_def confirmed_in_def)
  qed
  have in_m: "(k, c', t) \<in> set sw \<and> mined env t" if "(k, c', t) \<in> set sw'" for c' t
    using keep_mined_spec[OF ks[unfolded sw']] that conf[of t] by force
  have out_m: "(k, c', t) \<in> set rf \<and> mined env t" if "(k, c', t) \<in> set rf'" for c' t
    using keep_mined_spec[OF kr] that conf[of t] by force
  show "has_key (incoming_swapcoins (wstore w)) k \<Longrightarrow> \<not> has_key (incoming_swapcoins (wstore w')) k \<Longrightarrow>
      \<exists>c t. (k, c, t) \<in> set sw \<and> mined env t"
    using close_books_keys(1)[OF fin] in_m by (fastforce simp: same)
  show "has_key (outgoing_swapcoins (wstore w)) k \<Longrightarrow> \<not> has_key (outgoing_swapcoins (wstore w')) k \<Longrightarrow>
      k \<in> set dk \<or> (\<exists>c t. (k, c, t) \<in> set rf \<and> mined env t)"
    using close_books_keys(2)[OF fin] out_m by (fastforce simp: same)
qed

section \<open>What a pass gathers\<close>

text \<open>An invariant of the captured variables, whatever happens to the wallet.\<close>

definition gathers :: "('acc \<Rightarrow> bool) \<Rightarrow> world \<times> 'acc \<Rightarrow> world \<times> 'acc \<Rightarrow> bool" where
  "gathers I p q \<longleftrightarrow> (I (snd p) \<longrightarrow> I (snd q))"

lemma gathers_rules: "reflp (gathers I)" "transp (gathers I)"
  by (auto simp: gathers_def reflp_def transp_def)

lemma gathers_on_wallet: "steps (gathers I) (on_wallet m)"
  by (simp add: steps_def gathers_def on_wallet_def case_prod_beta)

lemma gathers_capture: "(\<And>acc. I acc \<Longrightarrow> I (f acc)) \<Longrightarrow> steps (gathers I) (capture f)"
  by (simp add: steps_def gathers_def capture_def modify_def)

lemma yields_on_wallet: "yields Q m \<Longrightarrow> yields Q (on_wallet m)"
  by (auto simp: yields_def on_wallet_def split: prod.splits)

lemma yields_liftR: "(\<And>x. r = Inr x \<Longrightarrow> Q x) \<Longrightarrow> yields Q (liftR r)"
  by (simp add: yields_def liftR_def)

lemma yields_sent:
  "yields (\<lambda>r. \<forall>x. r = Inr x \<longrightarrow> (\<exists>t. c_send_raw_transaction (w_chain env) t tx = Inr x)) (attempt (send_raw_transaction env tx))"
  by (auto simp: yields_def attempt_def send_raw_transaction_def)

lemmas gather_rules = gathers_rules gathers_on_wallet steps_for_coin

text \<open>The funding of a coin can never confirm, or never left the wallet.\<close>

definition spent_elsewhere :: "wallet_env \<Rightarrow> Transaction \<Rightarrow> bool" where
  "spent_elsewhere env tx \<longleftrightarrow>
     (\<exists>inp \<in> set (tx_input tx). \<exists>t script sp.
        c_confirmed_spending_transaction (w_chain env) t (previous_output inp) script = Inr (Some sp) \<and>
        compute_txid (w_lib env) sp \<noteq> compute_txid (w_lib env) tx)"

definition never_sent :: "wallet_env \<Rightarrow> OutgoingSwapCoin \<Rightarrow> bool" where
  "never_sent env coin \<longleftrightarrow>
     \<not> committed coin \<and>
     (\<exists>t. c_is_tx_unknown (w_chain env) t (compute_txid (w_lib env) (out_contract_tx coin)) = Inr True) \<and>
     (\<forall>funding. own_funding coin = Some funding \<longrightarrow> (\<forall>inp \<in> set (tx_input funding). \<exists>t u.
        c_tx_out (w_chain env) t (txid (previous_output inp)) (vout (previous_output inp)) (Some True) = Inr (Some u)))"

definition funding_gone :: "wallet_env \<Rightarrow> OutgoingSwapCoin \<Rightarrow> bool" where
  "funding_gone env coin \<longleftrightarrow>
     (\<exists>funding. own_funding coin = Some funding \<and> spent_elsewhere env funding) \<or>
     out_protocol coin = Legacy \<and> spent_elsewhere env (out_contract_tx coin) \<or> never_sent env coin"

text \<open>The refund of a coin: one built for it and taken by the backend, or its own mined timelock spend.\<close>

definition refund_of :: "wallet_env \<Rightarrow> OutgoingSwapCoin \<Rightarrow> Txid \<Rightarrow> bool" where
  "refund_of env coin x \<longleftrightarrow>
     (\<exists>t rates address tx. create_timelock_recovery_tx (w_lib env) coin rates address = Inr tx \<and>
        c_send_raw_transaction (w_chain env) t tx = Inr x) \<or>
     (\<exists>t script sp. c_confirmed_spending_transaction (w_chain env) t (contract_point env coin) script = Inr (Some sp) \<and>
        out_is_own_timelock_spend (w_lib env) coin sp \<and> compute_txid (w_lib env) sp = x)"

lemma refund_of_mined:
  "c_confirmed_spending_transaction (w_chain env) t (contract_point env coin) script = Inr (Some sp) \<Longrightarrow>
   out_is_own_timelock_spend (w_lib env) coin sp \<Longrightarrow> refund_of env coin (compute_txid (w_lib env) sp)"
  unfolding refund_of_def by blast

lemma refund_of_sent:
  "create_timelock_recovery_tx (w_lib env) coin rates address = Inr tx \<Longrightarrow>
   c_send_raw_transaction (w_chain env) t tx = Inr x \<Longrightarrow> refund_of env coin x"
  unfolding refund_of_def by blast

lemma elsewhere_evidence:
  "inputs_spent_elsewhere_from env tx ins w = (Inr True, w') \<Longrightarrow> set ins \<subseteq> set (tx_input tx) \<Longrightarrow> spent_elsewhere env tx"
proof (induction ins arbitrary: w w')
  case Nil
  then show ?case by (simp add: ret_def)
next
  case (Cons inp ins)
  show ?case
  proof (cases "\<exists>t script sp. c_confirmed_spending_transaction (w_chain env) t (previous_output inp) script = Inr (Some sp) \<and>
        compute_txid (w_lib env) sp \<noteq> compute_txid (w_lib env) tx")
    case True
    then show ?thesis using Cons.prems(2) unfolding spent_elsewhere_def by auto
  next
    case False
    then obtain v where "inputs_spent_elsewhere_from env tx ins v = (Inr True, w')"
      using Cons.prems(1)
      by (auto simp: Let_def bnd_def ask_query_eq query_eq fail_def ret_def split: sum.splits if_splits option.splits)
    then show ?thesis using Cons.IH Cons.prems(2) by simp
  qed
qed

lemma elsewhere_yields: "yields (\<lambda>b. b \<longrightarrow> spent_elsewhere env tx) (inputs_spent_elsewhere env tx)"
  by (auto simp: yields_def inputs_spent_elsewhere_def dest: elsewhere_evidence)

lemma unspent_yields:
  "yields (\<lambda>b. b \<longrightarrow> (\<forall>inp \<in> set ins. \<exists>t u.
     c_tx_out (w_chain env) t (txid (previous_output inp)) (vout (previous_output inp)) (Some True) = Inr (Some u)))
   (all_inputs_unspent env ins)"
proof (induction ins)
  case Nil
  then show ?case by (simp add: yields_def ret_def)
next
  case (Cons inp ins)
  then show ?case
    by (auto simp: yields_def Let_def bnd_def query_eq ret_def split: sum.splits if_splits)
qed

text \<open>What a state of a coin says about the chain.\<close>

definition state_ok :: "wallet_env \<Rightarrow> OutgoingSwapCoin \<Rightarrow> ContractChainState \<Rightarrow> bool" where
  "state_ok env coin st \<longleftrightarrow>
     (case st of Discarded \<Rightarrow> funding_gone env coin | RecoveredByTimelock x \<Rightarrow> refund_of env coin x | _ \<Rightarrow> True)"

lemma unsent_state:
  assumes "\<not> committed coin"
    and "\<exists>t. c_is_tx_unknown (w_chain env) t (compute_txid (w_lib env) (out_contract_tx coin)) = Inr True"
  shows "yields (state_ok env coin) (unsent_funding_state env coin)"
proof (cases "own_funding coin")
  case None
  then show ?thesis using assms
    by (auto simp: unsent_funding_state_def yields_def ret_def state_ok_def funding_gone_def never_sent_def)
next
  case (Some funding)
  have dead: "yields (state_ok env coin) (if d then ret Discarded else
      bnd (all_inputs_unspent env (tx_input funding)) (\<lambda>u. ret (if u then Discarded else NotYet)))"
    if "d \<longrightarrow> spent_elsewhere env funding" for d
  proof (rule yields_if)
    show "d \<Longrightarrow> yields (state_ok env coin) (ret Discarded)"
      using that Some by (intro yields_end) (auto simp: state_ok_def funding_gone_def)
    show "yields (state_ok env coin) (bnd (all_inputs_unspent env (tx_input funding)) (\<lambda>u. ret (if u then Discarded else NotYet)))"
      by (rule yields_bnd[OF unspent_yields], rule yields_end(1))
        (use Some assms in \<open>auto simp: state_ok_def funding_gone_def never_sent_def\<close>)
  qed
  show ?thesis unfolding unsent_funding_state_def Some option.case
    by (rule yields_bnd[OF elsewhere_yields]) (rule dead)
qed

lemma pending_state:
  "yields (state_ok env coin) (bnd (pending_own_recovery env coin) (\<lambda>pending.
      ret (case pending of Some tx \<Rightarrow> RecoveryPending tx | None \<Rightarrow> NotYet)))"
  by (rule yields_any) (auto simp: state_ok_def intro!: yields_end split: option.split)

lemma mined_state: "yields (state_ok env coin) (mined_contract_state env coin (contract_point env coin))"
  unfolding mined_contract_state_def
  by (intro yields_if yields_end(2) yields_bnd[OF yields_query])
    (auto simp: state_ok_def split: option.split intro: pending_state intro!: yields_end refund_of_mined)

lemma dead_yields: "yields (\<lambda>b. b \<longrightarrow> funding_gone env coin) (funding_is_dead env coin)"
proof -
  have first: "yields (\<lambda>b. b \<longrightarrow> funding_gone env coin) (case own_funding coin of None \<Rightarrow> ret False
      | Some funding \<Rightarrow> bnd (query env (\<lambda>c t. c_tx_block_height c t (compute_txid (w_lib env) funding))) (\<lambda>h.
          if h = None then inputs_spent_elsewhere env funding else ret False))"
    using elsewhere_yields[of env] unfolding yields_def
    by (auto simp: bnd_def query_eq ret_def funding_gone_def split: option.splits sum.splits if_splits)
  have legacy: "yields (\<lambda>b. b \<longrightarrow> funding_gone env coin) (inputs_spent_elsewhere env (out_contract_tx coin))"
    if "out_protocol coin = Legacy"
    using elsewhere_yields[of env "out_contract_tx coin"] that by (auto simp: yields_def funding_gone_def)
  show ?thesis unfolding funding_is_dead_def
    by (rule yields_bnd[OF first]) (auto intro!: yields_end legacy)
qed

lemma ensure_state:
  assumes "committed coin"
  shows "yields (state_ok env coin) (ensure_contract_on_chain env coin)"
proof -
  have plain: "state_ok env coin OnChain" "state_ok env coin NotYet" "state_ok env coin (RecoveryPending tx)" for tx
    by (simp_all add: state_ok_def)
  have dead: "yields (state_ok env coin) (bnd (funding_is_dead env coin) (\<lambda>d.
      if d then ret Discarded else broadcast_contract env coin p))" for p
  proof (rule yields_bnd[OF dead_yields], rule yields_if)
    show "\<And>d. d \<longrightarrow> funding_gone env coin \<Longrightarrow> d \<Longrightarrow> yields (state_ok env coin) (ret Discarded)"
      by (intro yields_end) (simp add: state_ok_def)
    show "yields (state_ok env coin) (broadcast_contract env coin p)"
      unfolding broadcast_contract_def
      by (auto split: sum.split intro!: yields_rules plain)
  qed
  show ?thesis unfolding ensure_contract_on_chain_def Let_def using assms
    by (simp only: if_True)
      (rule yields_bnd[where Q = "\<lambda>b. b"], simp add: yields_def ret_def, simp,
       rule yields_any(1), rule yields_if, rule yields_any(1), rule yields_if, rule yields_end(1), rule plain,
       rule pending_state, rule yields_any(1), rule yields_if, rule mined_state[unfolded contract_point_def], rule dead)
qed

lemma state_ok_committed:
  "state_ok env (coin\<lparr>committed := True\<rparr>) st \<Longrightarrow> state_ok env coin st"
  by (auto simp: state_ok_def funding_gone_def never_sent_def refund_of_def committed_irrelevant committed_irrelevant'
      split: ContractChainState.splits)

lemma seen_yields:
  "yields (\<lambda>b. b \<or> (\<exists>t. c_is_tx_unknown (w_chain env) t (compute_txid (w_lib env) (out_contract_tx coin)) = Inr True))
     (funding_seen env coin)"
  unfolding funding_seen_def
  by (rule yields_bnd[OF yields_query]) (auto intro!: yields_if yields_rules split: list.split)

lemma classify_state:
  "yields (\<lambda>(st, c). state_ok env coin st \<and> (c = coin \<or> c = coin\<lparr>committed := True\<rparr>)) (classify_coin env ku key coin)"
  (is "yields ?Q _")
proof (cases "committed coin")
  case True
  then show ?thesis unfolding classify_coin_def
    by (auto intro!: yields_bnd[OF ensure_state] yields_end)
next
  case False
  have seen: "yields ?Q (bnd (ensure_contract_on_chain env (coin\<lparr>committed := True\<rparr>)) (\<lambda>st. ret (st, coin\<lparr>committed := True\<rparr>)))"
    by (rule yields_bnd[OF ensure_state]) (auto intro!: yields_end state_ok_committed)
  have unsent: "yields ?Q (bnd (unsent_funding_state env coin) (\<lambda>st. ret (st, coin)))"
    if "\<exists>t. c_is_tx_unknown (w_chain env) t (compute_txid (w_lib env) (out_contract_tx coin)) = Inr True"
    by (rule yields_bnd[OF unsent_state[OF False that]]) (auto intro!: yields_end)
  have "yields ?Q (if b then seq (commit_seen env key)
        (bnd (ensure_contract_on_chain env (coin\<lparr>committed := True\<rparr>)) (\<lambda>st. ret (st, coin\<lparr>committed := True\<rparr>)))
      else if ku then ret (NotYet, coin) else bnd (unsent_funding_state env coin) (\<lambda>st. ret (st, coin)))"
    if "b \<or> (\<exists>t. c_is_tx_unknown (w_chain env) t (compute_txid (w_lib env) (out_contract_tx coin)) = Inr True)" for b
    by (rule yields_if, rule yields_any(2), rule seen, rule yields_if, rule yields_end(1))
      (use that unsent in \<open>auto simp: state_ok_def\<close>)
  then show ?thesis unfolding classify_coin_def Let_def using False
    by (simp only: if_False) (rule yields_bnd[OF seen_yields])
qed

text \<open>The refunds and the discarded keys of a pass over the coins \<open>cs\<close>.\<close>

definition refunds_ok :: "wallet_env \<Rightarrow> (Txid \<times> OutgoingSwapCoin \<times> u32) list \<Rightarrow> SentSpend list \<Rightarrow> Txid list \<Rightarrow> bool" where
  "refunds_ok env cs rf dk \<longleftrightarrow>
     (\<forall>(k, c, x) \<in> set rf. \<exists>coin lock. (k, coin, lock) \<in> set cs \<and> refund_of env coin x) \<and>
     (\<forall>k \<in> set dk. \<exists>coin lock. (k, coin, lock) \<in> set cs \<and> funding_gone env coin)"

definition refund_acc_ok :: "wallet_env \<Rightarrow> (Txid \<times> OutgoingSwapCoin \<times> u32) list \<Rightarrow> refund_acc \<Rightarrow> bool" where
  "refund_acc_ok env cs acc \<longleftrightarrow> refunds_ok env cs (refunds acc) (discards acc)"

lemma push_gathers:
  assumes "(key, coin, lock) \<in> set cs" "refund_of env coin x"
  shows "steps (gathers (refund_acc_ok env cs)) (push_refund (key, c, x))"
  unfolding push_refund_def
  by (rule gathers_capture) (use assms in \<open>auto simp: refund_acc_ok_def refunds_ok_def\<close>)

lemma send_gathers:
  assumes "(key, coin, lock) \<in> set cs" "create_timelock_recovery_tx (w_lib env) coin rates address = Inr tx"
  shows "steps (gathers (refund_acc_ok env cs)) (bnd (on_wallet (attempt (send_raw_transaction env tx)))
    (\<lambda>r. case r of Inr x \<Rightarrow> push_refund (key, c, x) | Inl e \<Rightarrow> ret ()))"
proof (rule steps_bnd_yields[OF gathers_rules(2) gathers_on_wallet yields_on_wallet[OF yields_sent]])
  fix r :: "wallet_error + Txid"
  assume "\<forall>x. r = Inr x \<longrightarrow> (\<exists>t. c_send_raw_transaction (w_chain env) t tx = Inr x)"
  then show "steps (gathers (refund_acc_ok env cs)) (case r of Inr x \<Rightarrow> push_refund (key, c, x) | Inl e \<Rightarrow> ret ())"
    using refund_of_sent[OF assms(2)] push_gathers[OF assms(1)] by (cases r) (auto intro!: steps_ret gather_rules)
qed

lemma rates_gathers: "steps (gathers (refund_acc_ok env cs)) (get_fee_rates env)"
  unfolding get_fee_rates_def
  by (auto intro!: steps_intros gather_rules gathers_capture simp: refund_acc_ok_def split: option.split)

lemma replace_gathers:
  assumes "(key, coin, lock) \<in> set cs" "coin' = coin \<or> coin' = coin\<lparr>committed := True\<rparr>"
  shows "steps (gathers (refund_acc_ok env cs)) (replace_pending env key coin' pending)"
proof -
  have tx: "steps (gathers (refund_acc_ok env cs)) (bnd (liftR (create_timelock_recovery_tx (w_lib env) coin' rates address)) f)"
    if "\<And>tx. create_timelock_recovery_tx (w_lib env) coin rates address = Inr tx \<Longrightarrow> steps (gathers (refund_acc_ok env cs)) (f tx)"
    for rates address f
    by (rule steps_bnd_yields[OF _ _ yields_liftR])
      (use assms(2) that in \<open>auto intro!: gather_rules steps_liftR simp: committed_irrelevant\<close>)
  show ?thesis unfolding replace_pending_def Let_def
    by (auto intro!: tx steps_bnd steps_ret gather_rules rates_gathers send_gathers[OF assms(1)] split: option.split)
qed

lemma send_refund_gathers:
  assumes "(key, coin, lock) \<in> set cs" "coin' = coin \<or> coin' = coin\<lparr>committed := True\<rparr>"
  shows "steps (gathers (refund_acc_ok env cs)) (send_refund env key coin' address)"
  unfolding send_refund_def
  by (rule steps_bnd[OF gathers_rules(2) rates_gathers])
    (use assms in \<open>auto intro!: steps_ret steps_fail gather_rules send_gathers simp: committed_irrelevant split: sum.split\<close>)

lemma recover_coin_gathers:
  assumes "(key, coin, lock) \<in> set cs"
  shows "steps (gathers (refund_acc_ok env cs)) (recover_coin env cl pr ku h (key, coin, lock))"
proof -
  let ?R = "gathers (refund_acc_ok env cs)"
  have on: "steps ?R (refund_on_chain env cl pr key c lock)" if "c = coin \<or> c = coin\<lparr>committed := True\<rparr>" for c
    unfolding refund_on_chain_def Let_def
    by (auto intro!: steps_bnd steps_ret gather_rules send_refund_gathers[OF assms that] split: option.split)
  have disc: "steps ?R (capture (\<lambda>acc. acc\<lparr>discards := discards acc @ [key]\<rparr>))" if "funding_gone env coin"
    by (rule gathers_capture) (use assms that in \<open>auto simp: refund_acc_ok_def refunds_ok_def\<close>)
  have "steps ?R (case r of (st, c) \<Rightarrow> (case st of
        OnChain \<Rightarrow> if out_protocol c = Taproot \<and> h < lock then ret () else refund_on_chain env cl pr key c lock
      | Discarded \<Rightarrow> capture (\<lambda>acc. acc\<lparr>discards := discards acc @ [key]\<rparr>)
      | RecoveredByTimelock x \<Rightarrow> push_refund (key, compute_txid (w_lib env) (out_contract_tx c), x)
      | RecoveryPending pending \<Rightarrow> replace_pending env key c pending
      | NotYet \<Rightarrow> ret ()))"
    if "case r of (st, c) \<Rightarrow> state_ok env coin st \<and> (c = coin \<or> c = coin\<lparr>committed := True\<rparr>)" for r
    using that on disc replace_gathers[OF assms]
    by (auto simp: state_ok_def split: ContractChainState.splits intro!: steps_ret gather_rules push_gathers[OF assms])
  then show ?thesis unfolding recover_coin_def prod.case
    by (rule steps_bnd_yields[OF gathers_rules(2) gathers_on_wallet yields_on_wallet[OF classify_state]])
qed

lemma run_gathers:
  assumes "\<And>x. x \<in> set xs \<Longrightarrow> steps (gathers I) (f x)" "I acc"
  shows "I (snd (snd (for_each xs (\<lambda>x. for_coin (f x)) (w, acc))))"
proof -
  have "steps (gathers I) (for_each xs (\<lambda>x. for_coin (f x)))"
    using assms(1) by (auto intro!: steps_for_each gather_rules)
  from steps_here[OF this, of "(w, acc)"] assms(2) show ?thesis by (simp add: gathers_def)
qed

lemma refund_acc_nil [simp]: "refund_acc_ok env cs \<lparr>refunds = [], discards = [], fee_rates = x\<rparr>"
  by (simp add: refund_acc_ok_def refunds_ok_def)

lemma refunds_gathered:
  assumes "broadcast_timelock_recoveries env scope cl pr synced ku w = (Inr (rf, dk), w')"
  shows "refunds_ok env (refund_candidates (w_lib env) scope (wstore w)) rf dk"
proof -
  let ?cs = "refund_candidates (w_lib env) scope (wstore w)"
  let ?acc = "\<lparr>refunds = [], discards = [], fee_rates = None\<rparr>"
  show ?thesis
  proof (cases "?cs = []")
    case True
    then show ?thesis using assms by (simp add: broadcast_timelock_recoveries_def bnd_gets ret_def refunds_ok_def)
  next
    case False
    let ?run = "\<lambda>h v. snd (snd (for_each (filter (ready_to_recover h) ?cs)
        (\<lambda>e. for_coin (recover_coin env cl pr ku h e)) (v, ?acc)))"
    from False assms obtain h v where eq: "rf = refunds (?run h v)" "dk = discards (?run h v)"
      by (auto simp: broadcast_timelock_recoveries_def bnd_gets bnd_eq_Inr seq_def Let_def ret_def liftR_def case_prod_beta)
    have "refund_acc_ok env ?cs (?run h v)"
      by (rule run_gathers) (auto intro: recover_coin_gathers)
    then show ?thesis using eq by (simp add: refund_acc_ok_def)
  qed
qed

text \<open>A sweep of a coin: the one stored with it, or one signed for it.\<close>

definition sweep_of :: "wallet_env \<Rightarrow> IncomingSwapCoin \<Rightarrow> Transaction \<Rightarrow> bool" where
  "sweep_of env coin tx \<longleftrightarrow>
     in_spending_tx coin = Some tx \<or>
     (\<exists>r1 r2 v target. in_payment_target coin = Some target \<and>
        sign_spend_transaction_with_output_value (w_lib env) r1 r2 coin v (pt_amount target) (pt_script_pubkey target) = Inr tx) \<or>
     (\<exists>r1 r2 v address rate. sign_spend_transaction (w_lib env) r1 r2 coin v address rate = Inr tx)"

definition swept_by :: "wallet_env \<Rightarrow> IncomingSwapCoin \<Rightarrow> Txid \<Rightarrow> bool" where
  "swept_by env coin x \<longleftrightarrow>
     (\<exists>tx. sweep_of env coin tx \<and>
        (x = compute_txid (w_lib env) tx \<or> (\<exists>t. c_send_raw_transaction (w_chain env) t tx = Inr x)))"

definition sweeps_ok :: "wallet_env \<Rightarrow> (Txid \<times> IncomingSwapCoin) list \<Rightarrow> SentSpend list \<Rightarrow> bool" where
  "sweeps_ok env cs sw \<longleftrightarrow> (\<forall>(k, c, x) \<in> set sw. \<exists>coin. (k, coin) \<in> set cs \<and> swept_by env coin x)"

lemma swept_stored: "in_spending_tx coin = Some tx \<Longrightarrow> swept_by env coin (compute_txid (w_lib env) tx)"
  unfolding swept_by_def sweep_of_def by blast

lemma swept_sent: "sweep_of env coin tx \<Longrightarrow> \<exists>t. c_send_raw_transaction (w_chain env) t tx = Inr x \<Longrightarrow> swept_by env coin x"
  unfolding swept_by_def by blast

lemma push_sweep_gathers:
  assumes "(key, coin) \<in> set cs" "swept_by env coin x"
  shows "steps (gathers (\<lambda>acc. sweeps_ok env cs (sweeps acc))) (push_sweep (key, c, x))"
  unfolding push_sweep_def by (rule gathers_capture) (use assms in \<open>auto simp: sweeps_ok_def\<close>)

lemma claim_gathers: "steps (gathers (\<lambda>acc. sweeps_ok env cs (sweeps acc))) (claim_swap coin)"
  unfolding claim_swap_def by (rule gathers_capture) simp

lemma build_yields: "yields (\<lambda>(a, r). \<forall>tx. r = Inr tx \<longrightarrow> sweep_of env coin tx) (build_sweep env coin v)"
  unfolding build_sweep_def
  by (auto intro!: yields_any yields_end split: option.split simp: sweep_of_def) blast+

lemma sweep_coin_gathers:
  assumes "(key, coin) \<in> set cs"
  shows "steps (gathers (\<lambda>acc. sweeps_ok env cs (sweeps acc))) (sweep_coin env (key, coin))" (is "steps ?R _")
proof -
  have look2: "steps ?R (lookup_or_claim env coin f)" for f :: "chain_view \<Rightarrow> nat \<Rightarrow> wallet_error + bool"
    unfolding lookup_or_claim_def by (auto intro!: steps_intros gather_rules claim_gathers split: sum.split)
  have look3: "steps ?R (lookup_or_claim env coin f)" for f :: "chain_view \<Rightarrow> nat \<Rightarrow> wallet_error + Transaction option"
    unfolding lookup_or_claim_def by (auto intro!: steps_intros gather_rules claim_gathers split: sum.split)
  have look4: "steps ?R (lookup_or_claim env coin f)" for f :: "chain_view \<Rightarrow> nat \<Rightarrow> wallet_error + TxOutInfo option"
    unfolding lookup_or_claim_def by (auto intro!: steps_intros gather_rules claim_gathers split: sum.split)
  have resume: "steps ?R (resume_sweep env key coin)"
    unfolding resume_sweep_def Let_def
    by (auto intro!: steps_intros gather_rules claim_gathers look2 look3 push_sweep_gathers[OF assms]
        swept_stored split: option.split)
  have ready: "steps ?R (sweep_ready env coin p)" for p
    unfolding sweep_ready_def
    by (auto intro!: steps_intros gather_rules claim_gathers look4 split: sum.split)
  have send: "steps ?R (send_sweep env key coin tx)" if "sweep_of env coin tx" for tx
    unfolding send_sweep_def
    by (rule steps_seq[OF gathers_rules(2) gathers_on_wallet],
        rule steps_bnd_yields[OF gathers_rules(2) gathers_on_wallet yields_on_wallet[OF yields_sent]])
      (use that in \<open>auto intro!: steps_ret gather_rules push_sweep_gathers[OF assms] swept_sent[OF that] split: sum.split\<close>)
  have build: "steps ?R (bnd (on_wallet (build_sweep env coin v)) (\<lambda>(address, spend). case spend of
              Inr spend_tx \<Rightarrow> send_sweep env key coin spend_tx
            | Inl e \<Rightarrow> if is_fatal e then fail e else on_wallet (unmark_on_failure address)))" for v
    by (rule steps_bnd_yields[OF gathers_rules(2) gathers_on_wallet yields_on_wallet[OF build_yields]])
      (auto intro!: steps_fail gather_rules send split: sum.split)
  show ?thesis unfolding sweep_coin_def prod.case
    by (auto intro!: steps_intros gather_rules claim_gathers resume ready build split: option.split)
qed

lemma sweeps_gathered:
  assumes "broadcast_incoming_sweeps env ids synced w = (Inr (sw, cl, sy), w')"
  shows "sweeps_ok env (incoming_swapcoins (wstore w)) sw"
proof -
  let ?cs = "completed_swapcoins (w_lib env) ids (wstore w)"
  have sub: "set ?cs \<subseteq> set (incoming_swapcoins (wstore w))" by (auto simp: completed_swapcoins_def)
  show ?thesis
  proof (cases "?cs = []")
    case True
    then show ?thesis using assms by (simp add: broadcast_incoming_sweeps_def bnd_gets ret_def sweeps_ok_def)
  next
    case False
    let ?run = "\<lambda>v. snd (snd (for_each ?cs (\<lambda>e. for_coin (sweep_coin env e)) (v, \<lparr>sweeps = [], claiming = {}\<rparr>)))"
    from False assms obtain v where eq: "sw = sweeps (?run v)"
      by (auto simp: broadcast_incoming_sweeps_def bnd_gets bnd_eq_Inr seq_def ret_def liftR_def case_prod_beta)
    have "sweeps_ok env (incoming_swapcoins (wstore w)) (sweeps (?run v))"
      by (rule run_gathers[where I = "\<lambda>acc. sweeps_ok env (incoming_swapcoins (wstore w)) (sweeps acc)"])
        (use sub in \<open>auto intro: sweep_coin_gathers simp: sweeps_ok_def[of _ _ "[]"]\<close>)
    then show ?thesis using eq by simp
  qed
qed

text \<open>Until the books are closed, no coin leaves the wallet.\<close>

definition kept :: "world \<Rightarrow> world \<Rightarrow> bool" where
  "kept w w' \<longleftrightarrow>
     (\<forall>k. has_key (incoming_swapcoins (wstore w)) k \<longrightarrow> has_key (incoming_swapcoins (wstore w')) k) \<and>
     (\<forall>k. has_key (outgoing_swapcoins (wstore w)) k \<longrightarrow> has_key (outgoing_swapcoins (wstore w')) k)"

lemma kept_same:
  "incoming_swapcoins (wstore w') = incoming_swapcoins (wstore w) \<Longrightarrow>
   outgoing_swapcoins (wstore w') = outgoing_swapcoins (wstore w) \<Longrightarrow> kept w w'"
  by (simp add: kept_def)

interpretation kp: sync_frame kept
  by unfold_locales (auto simp: kept_def reflp_def transp_def same_books_def)

lemmas kept_rules = kp.R_rules lift_rel_refl lift_rel_trans steps_on_wallet steps_capture

lemma send_kept [steps_intros]: "steps kept (send_raw_transaction env tx)"
  by (simp add: steps_def send_raw_transaction_def elapse_def kept_def)

lemma has_key_update [simp]: "has_key (AList.update k v m) j \<longleftrightarrow> j = k \<or> has_key m j"
  by (simp add: has_key_def update_conv')

lemma has_key_entry [simp]: "has_key (update_entry k f m) j \<longleftrightarrow> has_key m j"
  by (auto simp: update_entry_def has_key_def update_conv' split: option.split)

lemma has_key_map [simp]: "has_key (map (\<lambda>(k, c). (k, f k c)) m) j \<longleftrightarrow> has_key m j"
  by (force simp: has_key_iff)

lemma store_kept:
  "(\<And>s k. has_key (incoming_swapcoins s) k \<Longrightarrow> has_key (incoming_swapcoins (f s)) k) \<Longrightarrow>
   (\<And>s k. has_key (outgoing_swapcoins s) k \<Longrightarrow> has_key (outgoing_swapcoins (f s)) k) \<Longrightarrow> steps kept (modify (on_store f))"
  by (rule steps_modify) (simp add: kept_def on_store_def)

lemma commit_kept [steps_intros]: "steps kept (commit_seen env key)"
proof -
  have "steps kept (modify (on_store (mark_committed key)))"
    by (rule store_kept) (simp_all add: mark_committed_def)
  then show ?thesis unfolding commit_seen_def by (intro steps_intros kept_rules)
qed

lemma classify_kept [steps_intros]: "steps kept (classify_coin env ku key coin)"
proof -
  have "steps kept (broadcast_contract env c p)" for c p
    unfolding broadcast_contract_def by (auto split: sum.split option.split intro!: steps_intros kept_rules)
  then have "steps kept (ensure_contract_on_chain env c)" for c
    unfolding ensure_contract_on_chain_def Let_def by (auto intro!: steps_intros kept_rules)
  then show ?thesis unfolding classify_coin_def Let_def by (auto intro!: steps_intros kept_rules)
qed

lemma prepare_kept [steps_intros]: "steps kept (prepare_refund env proven key coin)"
proof -
  have settle: "steps kept (bnd (gets wstore) (\<lambda>s. seq (modify (\<lambda>w. w\<lparr>wstore := snd (settle_claims proven coin s)\<rparr>)) (g s)))"
    if "\<And>s. steps kept (g s)" for g
  proof (rule steps_at_store)
    fix w :: world
    let ?w = "w\<lparr>wstore := snd (settle_claims proven coin (wstore w))\<rparr>"
    have "has_key (incoming_swapcoins (snd (settle_claims proven coin s))) k = has_key (incoming_swapcoins s) k"
      "outgoing_swapcoins (snd (settle_claims proven coin s)) = outgoing_swapcoins s" for s k
      by (simp_all add: settle_claims_def give_up_claims_def split: option.split)
    then have "kept w ?w" by (simp add: kept_def)
    moreover have "kept ?w (snd (g (wstore w) ?w))" by (rule steps_here[OF that])
    ultimately show "kept w (snd (seq (modify (\<lambda>v. v\<lparr>wstore := snd (settle_claims proven coin (wstore w))\<rparr>)) (g (wstore w)) w))"
      using kp.R_step by (simp add: seq_def bnd_def modify_def)
  qed
  have "steps kept (write_refund env proven key coin a b)" for a b
    unfolding write_refund_def by (intro steps_intros kept_rules settle store_kept) simp_all
  then show ?thesis unfolding prepare_refund_def recovery_address_or_else_def
    by (auto split: option.split intro!: steps_intros kept_rules)
qed

lemma recover_coin_kept: "steps (lift_rel kept) (recover_coin env cl pr ku h entry)"
proof -
  have rates [steps_intros]: "steps (lift_rel kept) (get_fee_rates env)"
    unfolding get_fee_rates_def by (auto split: option.split intro!: steps_intros kept_rules)
  have push [steps_intros]: "steps (lift_rel kept) (push_refund x)" for x
    unfolding push_refund_def by (intro kept_rules)
  have "steps (lift_rel kept) (replace_pending env key coin pending)" for key coin pending
    unfolding replace_pending_def Let_def by (auto split: option.split sum.split intro!: steps_intros kept_rules rates push)
  moreover have "steps (lift_rel kept) (send_refund env key coin address)" for key coin address
    unfolding send_refund_def by (auto split: sum.split intro!: steps_intros kept_rules rates push)
  then have "steps (lift_rel kept) (refund_on_chain env cl pr key coin lock)" for key coin lock
    unfolding refund_on_chain_def Let_def by (auto split: option.split intro!: steps_intros kept_rules)
  ultimately show ?thesis unfolding recover_coin_def
    by (auto split: prod.split ContractChainState.split intro!: steps_intros kept_rules push)
qed

lemma refunds_kept: "steps kept (broadcast_timelock_recoveries env scope cl pr synced ku)"
proof -
  have coins: "steps (lift_rel kept) (for_each xs (\<lambda>e. for_coin (recover_coin env cl pr ku h e)))" for xs h
    by (auto intro!: steps_for_each kept_rules steps_for_coin recover_coin_kept)
  have "steps kept (\<lambda>w. case for_each xs (\<lambda>e. for_coin (recover_coin env cl pr ku h e)) (w, acc) of
      (r, (w, acc)) \<Rightarrow> bnd (liftR r) (\<lambda>_. ret (refunds acc, discards acc)) w)" for xs h acc
    by (rule steps_run[OF kp.R_trans coins]) (intro steps_intros kept_rules)
  then show ?thesis unfolding broadcast_timelock_recoveries_def Let_def by (auto intro!: steps_intros kept_rules)
qed

text \<open>A sweep pass leaves the outgoing coins alone.\<close>

definition sweep_keeps :: "world \<Rightarrow> world \<Rightarrow> bool" where
  "sweep_keeps w w' \<longleftrightarrow>
     (\<forall>k. has_key (incoming_swapcoins (wstore w)) k \<longrightarrow> has_key (incoming_swapcoins (wstore w')) k) \<and>
     outgoing_swapcoins (wstore w') = outgoing_swapcoins (wstore w)"

interpretation sk: sync_frame sweep_keeps
  by unfold_locales (auto simp: sweep_keeps_def reflp_def transp_def same_books_def)

lemmas sweep_rules = sk.R_rules lift_rel_refl lift_rel_trans steps_on_wallet steps_capture

lemma sweep_coin_keeps: "steps (lift_rel sweep_keeps) (sweep_coin env entry)"
proof -
  have store: "steps sweep_keeps (modify (on_store f))"
    if "\<And>s k. has_key (incoming_swapcoins s) k \<Longrightarrow> has_key (incoming_swapcoins (f s)) k"
      "\<And>s. outgoing_swapcoins (f s) = outgoing_swapcoins s" for f
    by (rule steps_modify) (use that in \<open>simp add: sweep_keeps_def on_store_def\<close>)
  have send [steps_intros]: "steps sweep_keeps (send_raw_transaction env tx)" for tx
    by (simp add: steps_def send_raw_transaction_def elapse_def sweep_keeps_def)
  have claim [steps_intros]: "steps (lift_rel sweep_keeps) (claim_swap coin)" "steps (lift_rel sweep_keeps) (push_sweep x)" for coin x
    unfolding claim_swap_def push_sweep_def by (intro sweep_rules)+
  have resume: "steps (lift_rel sweep_keeps) (resume_sweep env key coin)" for key coin
    unfolding resume_sweep_def Let_def lookup_or_claim_def
    by (auto split: option.split sum.split intro!: steps_intros sweep_rules claim)
  have ready: "steps (lift_rel sweep_keeps) (sweep_ready env coin p)" for coin p
    unfolding sweep_ready_def lookup_or_claim_def by (auto split: sum.split intro!: steps_intros sweep_rules claim send)
  have build: "steps sweep_keeps (build_sweep env coin v)" for coin v
    unfolding build_sweep_def by (auto split: option.split intro!: steps_intros sweep_rules store)
  have recorded: "steps sweep_keeps (record_sweep env key tx)" for key tx
    unfolding record_sweep_def by (auto split: option.split intro!: steps_intros sweep_rules store)
  have unmark: "steps sweep_keeps (unmark_on_failure a)" for a
    unfolding unmark_on_failure_def by (auto split: option.split intro!: steps_intros sweep_rules store)
  show ?thesis unfolding sweep_coin_def send_sweep_def
    by (auto split: prod.split option.split sum.split
        intro!: steps_intros sweep_rules claim resume ready build recorded unmark send)
qed

lemma sweeps_keep: "steps sweep_keeps (broadcast_incoming_sweeps env ids synced)"
proof -
  have coins: "steps (lift_rel sweep_keeps) (for_each xs (\<lambda>e. for_coin (sweep_coin env e)))" for xs
    by (auto intro!: steps_for_each sweep_rules steps_for_coin sweep_coin_keeps)
  have "steps sweep_keeps (\<lambda>w. case for_each xs (\<lambda>e. for_coin (sweep_coin env e)) (w, acc) of
      (r, (w, acc)) \<Rightarrow> bnd (liftR r) (\<lambda>_. bnd (attempt (save_to_disk env)) (\<lambda>_. ret (sweeps acc, claiming acc, True))) w)" for xs acc
    by (rule steps_run[OF sk.R_trans coins]) (intro steps_intros sweep_rules)
  then show ?thesis unfolding broadcast_incoming_sweeps_def by (auto intro!: steps_intros sweep_rules)
qed

lemma keeps_kept: "sweep_keeps w w' \<Longrightarrow> kept w w'"
  by (simp add: sweep_keeps_def kept_def)

section \<open>A coin leaves the wallet only once it is settled\<close>

definition drops_settled :: "wallet_env \<Rightarrow> WalletStore \<Rightarrow> WalletStore \<Rightarrow> bool" where
  "drops_settled env s s' \<longleftrightarrow>
     (\<forall>k. has_key (incoming_swapcoins s) k \<and> \<not> has_key (incoming_swapcoins s') k \<longrightarrow>
        (\<exists>c x. (k, c) \<in> set (incoming_swapcoins s) \<and> swept_by env c x \<and> mined env x)) \<and>
     (\<forall>k. has_key (outgoing_swapcoins s) k \<and> \<not> has_key (outgoing_swapcoins s') k \<longrightarrow>
        (\<exists>c. (k, c) \<in> set (outgoing_swapcoins s) \<and>
           (funding_gone env c \<or> (\<exists>x. refund_of env c x \<and> mined env x))))"

lemma kept_drops: "kept w w' \<Longrightarrow> drops_settled env (wstore w) (wstore w')"
  by (auto simp: kept_def drops_settled_def)

lemma finish_drops:
  assumes "kept w0 w" "sweeps_ok env (incoming_swapcoins (wstore w0)) sw"
    and "refunds_ok env cs rf dk" "\<And>k c l. (k, c, l) \<in> set cs \<Longrightarrow> (k, c) \<in> set (outgoing_swapcoins (wstore w0))"
  shows "drops_settled env (wstore w0) (wstore (snd (finish_recoveries env sw rf dk role w)))"
proof -
  obtain r w' where eq: "finish_recoveries env sw rf dk role w = (r, w')" by (rule prod.exhaust)
  have "\<exists>c x. (k, c) \<in> set (incoming_swapcoins (wstore w0)) \<and> swept_by env c x \<and> mined env x"
    if "has_key (incoming_swapcoins (wstore w0)) k" "\<not> has_key (incoming_swapcoins (wstore w')) k" for k
    using finish_keys(1)[OF eq, of k] that assms(1,2) unfolding kept_def sweeps_ok_def by blast
  moreover have "\<exists>c. (k, c) \<in> set (outgoing_swapcoins (wstore w0)) \<and> (funding_gone env c \<or> (\<exists>x. refund_of env c x \<and> mined env x))"
    if "has_key (outgoing_swapcoins (wstore w0)) k" "\<not> has_key (outgoing_swapcoins (wstore w')) k" for k
    using finish_keys(2)[OF eq, of k] that assms(1,3,4) unfolding kept_def refunds_ok_def by blast
  ultimately show ?thesis unfolding drops_settled_def eq by simp
qed

lemma candidates_stored: "(k, c, l) \<in> set (refund_candidates lib scope s) \<Longrightarrow> (k, c) \<in> set (outgoing_swapcoins s)"
  by (auto simp: refund_candidates_def List.map_filter_def split: if_splits)

lemma sweep_pass_drops: "drops_settled env (wstore w) (wstore (snd (sweep_incoming_swapcoins env scoped role w)))"
proof -
  obtain r w1 where eq: "broadcast_incoming_sweeps env scoped False w = (r, w1)" by (rule prod.exhaust)
  have k: "kept w w1" by (rule keeps_kept[OF stepsD[OF sweeps_keep eq]])
  show ?thesis
  proof (cases r)
    case (Inl e)
    then show ?thesis using kept_drops[OF k] by (simp add: sweep_incoming_swapcoins_def bnd_def eq)
  next
    case (Inr x)
    obtain sw cl sy where x: "x = (sw, cl, sy)" by (rule prod_cases3)
    have "drops_settled env (wstore w) (wstore (snd (finish_recoveries env sw [] [] role w1)))"
      by (rule finish_drops[OF k sweeps_gathered, where cs = "[]"]) (use eq Inr x in \<open>auto simp: refunds_ok_def\<close>)
    then show ?thesis by (auto simp: sweep_incoming_swapcoins_def bnd_def eq Inr x ret_def split: prod.split sum.split)
  qed
qed

lemma refund_pass_drops: "drops_settled env (wstore w) (wstore (snd (recover_timelocked_swapcoins env scope w)))"
proof -
  obtain r w1 where eq: "broadcast_timelock_recoveries env scope (\<lambda>_. False) (\<lambda>_. False) False True w = (r, w1)" by (rule prod.exhaust)
  have k: "kept w w1" by (rule stepsD[OF refunds_kept eq])
  show ?thesis
  proof (cases r)
    case (Inl e)
    then show ?thesis using kept_drops[OF k] by (simp add: recover_timelocked_swapcoins_def bnd_def eq)
  next
    case (Inr x)
    obtain rf dk where x: "x = (rf, dk)" by (rule prod.exhaust)
    have "drops_settled env (wstore w) (wstore (snd (finish_recoveries env [] rf dk (Some MakerRole) w1)))"
      by (rule finish_drops[OF k _ refunds_gathered[OF eq[unfolded Inr x]] candidates_stored]) (simp add: sweeps_ok_def)
    then show ?thesis by (auto simp: recover_timelocked_swapcoins_def bnd_def eq Inr x ret_def split: prod.split sum.split)
  qed
qed

definition claimed_swaps :: "WalletStore \<Rightarrow> string set" where
  "claimed_swaps s = set (List.map_filter (\<lambda>(_, c). if incoming_claimed c then out_swap_id c else None) (outgoing_swapcoins s))"

text \<open>The second half of \<open>recover_swapcoins\<close>: the refunds, then the books.\<close>

definition refund_half ::
  "wallet_env \<Rightarrow> string set \<Rightarrow> SentSpend list \<Rightarrow> string set \<Rightarrow> bool \<Rightarrow> bool \<Rightarrow> (RecoveryOutcome \<times> RecoveryOutcome) wact" where
  "refund_half env ids swept claims synced sweep_failed =
     bnd (gets (\<lambda>w. claimed_swaps (wstore w))) (\<lambda>claimed.
     bnd (broadcast_timelock_recoveries env (Some ids) (\<lambda>i. sweep_failed \<or> i \<in> claims \<or> i \<in> claimed)
            (\<lambda>i. i \<in> claims \<or> i \<in> claimed) synced False) (\<lambda>(sent, dropped).
     finish_recoveries env swept sent dropped (Some TakerRole)))"

lemma recover_swapcoins_cases:
  assumes "broadcast_incoming_sweeps env (Some contracts) False w = (r, w1)"
  shows "recover_swapcoins env contracts ids w =
    (case r of
       Inr (sw, cl, sy) \<Rightarrow> refund_half env ids sw cl sy False w1
     | Inl e \<Rightarrow> if is_fatal e then (Inl e, w1) else refund_half env ids [] {} False True w1)"
  by (simp add: recover_swapcoins_def refund_half_def claimed_swaps_def bnd_def attempt_def assms ret_def fail_def split: sum.split prod.split)

lemma refund_half_drops:
  assumes "sweep_keeps w w1" "sweeps_ok env (incoming_swapcoins (wstore w)) sw"
  shows "drops_settled env (wstore w) (wstore (snd (refund_half env ids sw cl sy sf w1)))"
proof -
  let ?cd = "claimed_swaps (wstore w1)"
  obtain r w2 where eq: "broadcast_timelock_recoveries env (Some ids) (\<lambda>i. sf \<or> i \<in> cl \<or> i \<in> ?cd) (\<lambda>i. i \<in> cl \<or> i \<in> ?cd) sy False w1 = (r, w2)"
    by (rule prod.exhaust)
  have k: "kept w w2" using kp.R_step[OF keeps_kept[OF assms(1)] stepsD[OF refunds_kept eq]] .
  show ?thesis
  proof (cases r)
    case (Inl e)
    then show ?thesis using kept_drops[OF k] by (simp add: refund_half_def bnd_gets bnd_def[of "broadcast_timelock_recoveries env a b c d e" for a b c d e] eq)
  next
    case (Inr x)
    obtain rf dk where x: "x = (rf, dk)" by (rule prod.exhaust)
    have "drops_settled env (wstore w) (wstore (snd (finish_recoveries env sw rf dk (Some TakerRole) w2)))"
      by (rule finish_drops[OF k assms(2) refunds_gathered[OF eq[unfolded Inr x]]])
        (use assms(1) in \<open>auto simp: sweep_keeps_def dest: candidates_stored\<close>)
    then show ?thesis by (simp add: refund_half_def bnd_gets bnd_def[of "broadcast_timelock_recoveries env a b c d e" for a b c d e] eq Inr x)
  qed
qed

lemma recover_pass_drops: "drops_settled env (wstore w) (wstore (snd (recover_swapcoins env contracts ids w)))"
proof -
  obtain r w1 where eq: "broadcast_incoming_sweeps env (Some contracts) False w = (r, w1)" by (rule prod.exhaust)
  have k: "sweep_keeps w w1" by (rule stepsD[OF sweeps_keep eq])
  have none: "sweeps_ok env (incoming_swapcoins (wstore w)) []" by (simp add: sweeps_ok_def)
  show ?thesis
  proof (cases r)
    case (Inl e)
    then show ?thesis unfolding recover_swapcoins_cases[OF eq]
      using refund_half_drops[OF k none] kept_drops[OF keeps_kept[OF k]] by simp
  next
    case (Inr x)
    obtain sw cl sy where x: "x = (sw, cl, sy)" by (rule prod_cases3)
    show ?thesis unfolding recover_swapcoins_cases[OF eq] Inr x
      using refund_half_drops[OF k sweeps_gathered[OF eq[unfolded Inr x]]] by simp
  qed
qed

section \<open>A swap settles one way\<close>

text \<open>
  Beside a refund no claim is left: a preimage still held means the sweep was built or the first
  hops went back by timelock, and for a swap already claimed only the latter will do.
\<close>

definition settles :: "wallet_env \<Rightarrow> (string \<Rightarrow> bool) \<Rightarrow> OutgoingSwapCoin \<Rightarrow> WalletStore \<Rightarrow> bool" where
  "settles env claimed coin mem \<longleftrightarrow>
     (\<forall>i. out_swap_id coin = Some i \<longrightarrow>
        (can_claim i mem \<longrightarrow> has_built_sweep i mem \<or> hops_refunded env (hops_of i mem)) \<and>
        (claimed i \<longrightarrow> hops_refunded env (hops_of i mem)))"

text \<open>The address a refund pays is the one stored with its coin.\<close>

definition pays_stored :: "Txid \<Rightarrow> ScriptBuf \<Rightarrow> WalletStore \<Rightarrow> bool" where
  "pays_stored key address mem \<longleftrightarrow>
     (\<exists>c. map_of (outgoing_swapcoins mem) key = Some c \<and> out_recovery_address c = Some address)"

definition refund_safe :: "wallet_env \<Rightarrow> (string \<Rightarrow> bool) \<Rightarrow> WalletStore \<Rightarrow> Transaction \<Rightarrow> WalletStore \<Rightarrow> bool" where
  "refund_safe env claimed s tx mem \<longleftrightarrow>
     (\<exists>(key, coin, timelock) \<in> set (refund_candidates (w_lib env) None s).
        funding_evidence env coin \<and>
          (own_funding coin = Some tx \<and> out_protocol coin = Legacy \<or> out_create_signed_contract_tx (w_lib env) coin = Inr tx) \<or>
        (\<exists>rates address. create_timelock_recovery_tx (w_lib env) coin rates address = Inr tx \<and>
           (out_recovery_address coin = Some address \<and> refund_pending env coin \<or>
            matured env coin timelock \<and> reached env coin timelock \<and> pays_stored key address mem \<and> settles env claimed coin mem)))"

lemma candidates_scope: "set (refund_candidates lib scope s) \<subseteq> set (refund_candidates lib None s)"
  proof
  fix x
  assume "x \<in> set (refund_candidates lib scope s)"
  then obtain k c where kc: "(k, c) \<in> set (outgoing_swapcoins s)" "out_my_privkey c \<noteq> None"
    and t: "map_option (\<lambda>timelock. (k, c, timelock)) (out_get_timelock lib c) = Some x"
    by (auto simp: refund_candidates_def split: if_splits)
  then show "x \<in> set (refund_candidates lib None s)"
    by (force simp: refund_candidates_def in_scope_def)
qed

lemma ready_settles:
  assumes "refund_ready env cl pr key coin address mem" "\<And>i. pr i \<Longrightarrow> cl i" "\<And>i. cd i \<Longrightarrow> cl i"
  shows "pays_stored key address mem \<and> settles env cd coin mem"
  using assms unfolding refund_ready_def settles_def pays_stored_def by blast

lemma allowed_safe:
  assumes "\<And>i. pr i \<Longrightarrow> cl i" "\<And>i. cd i \<Longrightarrow> cl i"
    and "refund_allowed env cl pr (refund_candidates (w_lib env) scope s) tx mem dsk"
  shows "refund_safe env cd s tx mem"
proof -
  obtain key coin lock where cand: "(key, coin, lock) \<in> set (refund_candidates (w_lib env) scope s)"
    and ok: "funding_evidence env coin \<and>
          (own_funding coin = Some tx \<and> out_protocol coin = Legacy \<or> out_create_signed_contract_tx (w_lib env) coin = Inr tx) \<or>
        (\<exists>rates address. create_timelock_recovery_tx (w_lib env) coin rates address = Inr tx \<and>
           (out_recovery_address coin = Some address \<and> refund_pending env coin \<or>
            matured env coin lock \<and> reached env coin lock \<and> refund_ready env cl pr key coin address mem))"
    using assms(3) unfolding refund_allowed_def by blast
  have "(key, coin, lock) \<in> set (refund_candidates (w_lib env) None s)" using cand candidates_scope by blast
  moreover have "pays_stored key address mem \<and> settles env cd coin mem"
    if "refund_ready env cl pr key coin address mem" for address
    using ready_settles[OF that assms(1,2)] by blast
  ultimately show ?thesis using ok unfolding refund_safe_def by blast
qed

lemma logs_mono: "logs Q w w' \<Longrightarrow> (\<And>tx mem dsk. Q tx mem dsk \<Longrightarrow> Q' tx mem dsk) \<Longrightarrow> logs Q' w w'"
  unfolding logs_def by (auto simp: list_all_iff split: prod.splits)

lemma maker_refunds_safe:
  "logs (\<lambda>tx mem dsk. refund_safe env (\<lambda>_. False) (wstore w) tx mem) w (snd (recover_timelocked_swapcoins env scope w))"
proof -
  let ?Q = "\<lambda>tx mem dsk. refund_safe env (\<lambda>_. False) (wstore w) tx mem"
  have "logs ?Q w (snd (broadcast_timelock_recoveries env scope (\<lambda>_. False) (\<lambda>_. False) False True w))"
    by (rule logs_mono[OF refunds_log]) (erule allowed_safe[rotated 2], simp_all)
  moreover have "steps (logs ?Q) (case x of (sent, dropped) \<Rightarrow>
      bnd (finish_recoveries env [] sent dropped (Some MakerRole)) (\<lambda>(_, outgoing). ret outgoing))" for x
    by (auto split: prod.split intro!: steps_intros log_rules)
  ultimately show ?thesis unfolding recover_timelocked_swapcoins_def
    by (auto simp: bnd_def[of "broadcast_timelock_recoveries env a b c d e" for a b c d e] split: prod.split sum.split intro: step_logs)
qed

lemma refund_half_logs:
  "logs (\<lambda>tx mem dsk. refund_safe env (\<lambda>i. i \<in> claimed_swaps (wstore w)) (wstore w) tx mem) w
     (snd (refund_half env ids sw cl sy sf w))"
proof -
  let ?cd = "claimed_swaps (wstore w)"
  let ?Q = "\<lambda>tx mem dsk. refund_safe env (\<lambda>i. i \<in> ?cd) (wstore w) tx mem"
  have "logs ?Q w (snd (broadcast_timelock_recoveries env (Some ids) (\<lambda>i. sf \<or> i \<in> cl \<or> i \<in> ?cd) (\<lambda>i. i \<in> cl \<or> i \<in> ?cd) sy False w))"
    by (rule logs_mono[OF refunds_log]) (erule allowed_safe[rotated 2], simp_all)
  moreover have "steps (logs ?Q) (case x of (sent, dropped) \<Rightarrow> finish_recoveries env sw sent dropped (Some TakerRole))" for x
    by (auto split: prod.split intro!: steps_intros log_rules)
  ultimately show ?thesis unfolding refund_half_def bnd_gets
    by (auto simp: bnd_def[of "broadcast_timelock_recoveries env a b c d e" for a b c d e] split: prod.split sum.split intro: step_logs)
qed

lemma refund_safe_same:
  "outgoing_swapcoins s' = outgoing_swapcoins s \<Longrightarrow> refund_safe env cd s' tx mem = refund_safe env cd s tx mem"
  by (simp add: refund_safe_def refund_candidates_def)

lemma taker_sends_safe:
  "logs (\<lambda>tx mem dsk. sweep_allowed env (wstore w) tx mem dsk \<or>
       refund_safe env (\<lambda>i. i \<in> claimed_swaps (wstore w)) (wstore w) tx mem) w (snd (recover_swapcoins env contracts ids w))"
  (is "logs ?Q _ _")
proof -
  obtain r w1 where eq: "broadcast_incoming_sweeps env (Some contracts) False w = (r, w1)" by (rule prod.exhaust)
  have out: "outgoing_swapcoins (wstore w1) = outgoing_swapcoins (wstore w)"
    using stepsD[OF sweeps_keep eq] by (simp add: sweep_keeps_def)
  have "logs (sweep_allowed env (wstore w)) w w1" using sweeps_log[of env w "Some contracts" False] eq by simp
  then have first: "logs ?Q w w1" by (rule logs_mono) simp
  have "logs ?Q w1 (snd (refund_half env ids sw cl sy sf w1))" for sw cl sy sf
    by (rule logs_mono[OF refund_half_logs])
      (use out in \<open>simp add: refund_safe_same[OF out] claimed_swaps_def\<close>)
  from logs_trans[OF first this] first show ?thesis
    unfolding recover_swapcoins_cases[OF eq] by (auto split: sum.split)
qed

lemma sweep_pass_logs: "logs (sweep_allowed env (wstore w)) w (snd (sweep_incoming_swapcoins env scoped role w))"
proof -
  have "steps (logs (sweep_allowed env (wstore w))) (case x of (sent, _, _) \<Rightarrow>
      bnd (finish_recoveries env sent [] [] role) (\<lambda>(incoming, _). ret incoming))" for x :: "SentSpend list \<times> string set \<times> bool"
    by (auto split: prod.split intro!: steps_intros log_rules)
  then show ?thesis using sweeps_log[of env w scoped False] unfolding sweep_incoming_swapcoins_def
    by (auto simp: bnd_def[of "broadcast_incoming_sweeps env a b" for a b] split: prod.split sum.split intro: step_logs)
qed

section \<open>Properties\<close>


text \<open>
  C4 (a sweep is recorded first). A pass that sweeps incoming coins broadcasts a sweep only when
  the wallet file on disk already holds it with its coin; apart from sweeps it sends only the
  signed contract of an incoming coin whose preimage it knows.
\<close>

theorem sweep_recorded_before_sent:
  "logs (sweep_allowed env (wstore w)) w (snd (sweep_incoming_swapcoins env contract_txids role w))"
  by (rule sweep_pass_logs)

text \<open>
  C2 (a coin leaves only once it is settled). After any recovery pass, an incoming coin that is gone
  from the wallet was swept by a mined transaction built for it, and an outgoing coin that is gone
  was refunded by a mined transaction of its own, or its funding was spent elsewhere in a block, or
  the funding was never sent and all its inputs are unspent.
\<close>

theorem coins_dropped_only_when_settled:
  "drops_settled env (wstore w) (wstore (snd (recover_swapcoins env contracts ids w))) \<and>
   drops_settled env (wstore w) (wstore (snd (recover_timelocked_swapcoins env scope w))) \<and>
   drops_settled env (wstore w) (wstore (snd (sweep_incoming_swapcoins env contract_txids role w)))"
  by (intro conjI recover_pass_drops refund_pass_drops sweep_pass_drops)

end
