(* ===== verification/Spend.thy ===== *)
theory Spend
  imports Books
begin

text \<open>
  Building transactions from the wallet's coins (\<open>wallet/spend.rs\<close>, \<open>sign_transaction\<close> of
  \<open>wallet/api.rs\<close>, and the second half of \<open>wallet/funding.rs\<close>). The size of a transaction, the
  scripts of the wallet's own addresses and its child keys are parameters, the record \<open>spend_lib\<close>.
  Adding amounts past the range of \<open>u64\<close> panics.
\<close>

section \<open>Data\<close>

record spend_lib =
  base_size :: "Transaction \<Rightarrow> nat"
  op_return_script :: "bytes \<Rightarrow> protocol_error + ScriptBuf"
  p2wpkh_script :: "bytes \<Rightarrow> protocol_error + ScriptBuf"
  p2tr_key_script :: "bytes \<Rightarrow> ScriptBuf"
  p2wpkh_sighash :: "Transaction \<Rightarrow> nat \<Rightarrow> ScriptBuf \<Rightarrow> Amount \<Rightarrow> protocol_error + bytes"
  key_sighash_all :: "Transaction \<Rightarrow> nat \<Rightarrow> TxOut list \<Rightarrow> protocol_error + bytes"
  sign_ecdsa_low_r :: "bytes \<Rightarrow> SecretKey \<Rightarrow> bytes"
  tap_tweak_secret :: "SecretKey \<Rightarrow> SecretKey"
  account_point :: "AddressType \<Rightarrow> string \<Rightarrow> wallet_error + bytes"
  account_secret :: "AddressType \<Rightarrow> string \<Rightarrow> wallet_error + SecretKey"
  p2tr_min_non_dust_sats :: u64

type_synonym wallet_coin = "ListUnspentResultEntry \<times> UTXOSpendInfo"

text \<open>An address is represented by its script.\<close>

datatype Destination =
    SweepTo ScriptBuf
  | Multi "(ScriptBuf \<times> Amount) list" "bytes option" AddressType

datatype SpendTarget =
    ToDestination Destination
  | ExactSpend "(ScriptBuf \<times> Amount) list" Amount AddressType

section \<open>Signing\<close>

definition library :: "protocol_error + 'a \<Rightarrow> wallet_error + 'a" where
  "library r = map_err (\<lambda>_. WLibrary) r"

text \<open>The outputs spent, for the signature of a taproot input.\<close>

definition seed_prevout :: "bitcoin_lib \<Rightarrow> spend_lib \<Rightarrow> string \<Rightarrow> Amount \<Rightarrow> AddressType \<Rightarrow> wallet_error + TxOut" where
  "seed_prevout lib slib path v t =
     res_bind (account_point slib t path) (\<lambda>p.
     res_bind (case t of P2WPKH \<Rightarrow> library (p2wpkh_script slib p) | P2TR \<Rightarrow> Inr (p2tr_key_script slib (x_only lib p)))
       (\<lambda>spk. Inr \<lparr>value_of = v, script_pubkey = spk\<rparr>))"

fun input_prevout :: "bitcoin_lib \<Rightarrow> spend_lib \<Rightarrow> WalletStore \<Rightarrow> UTXOSpendInfo \<Rightarrow> wallet_error + TxOut" where
  "input_prevout lib slib s (FidelityBondCoin index v) =
     res_bind (fidelity_bond (fidelity_bonds s) index) (\<lambda>bond.
     Inr \<lparr>value_of = v, script_pubkey = to_p2wsh lib (fb_redeem_script lib bond)\<rparr>)"
| "input_prevout lib slib s (SeedCoin path v t) = seed_prevout lib slib path v t"
| "input_prevout lib slib s (SweptCoin path v t) = seed_prevout lib slib path v t"
| "input_prevout lib slib s _ = Inr \<lparr>value_of = 0, script_pubkey = []\<rparr>"

fun all_prevouts :: "bitcoin_lib \<Rightarrow> spend_lib \<Rightarrow> WalletStore \<Rightarrow> UTXOSpendInfo list \<Rightarrow> wallet_error + TxOut list" where
  "all_prevouts lib slib s [] = Inr []"
| "all_prevouts lib slib s (i # is) =
     res_bind (input_prevout lib slib s i) (\<lambda>out.
     res_bind (all_prevouts lib slib s is) (\<lambda>outs. Inr (out # outs)))"

definition sign_seed_input ::
  "bitcoin_lib \<Rightarrow> spend_lib \<Rightarrow> Transaction \<Rightarrow> TxOut list \<Rightarrow> nat \<Rightarrow> string \<Rightarrow> Amount \<Rightarrow> AddressType \<Rightarrow> TxIn \<Rightarrow>
   wallet_error + TxIn" where
  "sign_seed_input lib slib tx prevouts ix path v address_type inp =
     res_bind (account_secret slib address_type path) (\<lambda>privkey.
     case address_type of
       P2WPKH \<Rightarrow>
         let pubkey = pubkey_of lib privkey in
         res_bind (library (p2wpkh_script slib (inner pubkey))) (\<lambda>scriptcode.
         res_bind (library (p2wpkh_sighash slib tx ix scriptcode v)) (\<lambda>sighash.
         let sig = \<lparr>signature = sign_ecdsa_low_r slib sighash privkey, sighash_type = 1\<rparr> in
         Inr (inp\<lparr>witness := witness inp @ [sig_to_vec lib sig, inner pubkey]\<rparr>)))
     | P2TR \<Rightarrow>
         res_bind (library (key_sighash_all slib tx ix prevouts)) (\<lambda>sighash.
         Inr (inp\<lparr>witness := witness inp @ [sign_schnorr lib sighash (tap_tweak_secret slib privkey)]\<rparr>)))"

text \<open>
  A swap coin is signed as its own spend, at one satoshi per byte to the first output of the
  transaction; only the witness of that spend is taken over.
\<close>

definition swapcoin_witness ::
  "bitcoin_lib \<Rightarrow> bytes \<Rightarrow> bytes \<Rightarrow> WalletStore \<Rightarrow> Transaction \<Rightarrow> ScriptBuf \<Rightarrow> wallet_error + bytes list" where
  "swapcoin_witness lib rand1 rand2 s tx script =
     res_bind (need (find_incoming_swapcoin_by_multisig lib script s) ''incoming swapcoin not found in wallet store'') (\<lambda>sc.
     if tx_output tx = [] then Inl WPanic
     else
       res_bind (sign_spend_transaction lib rand1 rand2 sc (in_funding_amount sc)
                   (script_pubkey (tx_output tx ! 0)) (Fin 1)) (\<lambda>spend_tx.
       case tx_input spend_tx of [] \<Rightarrow> Inl WPanic | inp # _ \<Rightarrow> Inr (witness inp)))"

fun sign_input ::
  "bitcoin_lib \<Rightarrow> spend_lib \<Rightarrow> keyring \<Rightarrow> (nat \<Rightarrow> bytes \<times> bytes) \<Rightarrow> WalletStore \<Rightarrow> Transaction \<Rightarrow> TxOut list \<Rightarrow>
   nat \<Rightarrow> UTXOSpendInfo \<Rightarrow> TxIn \<Rightarrow> wallet_error + TxIn" where
  "sign_input lib slib keys rand s tx prevouts ix (OutgoingCoin script) inp =
     Inl (WGeneral ''Cannot sign for outgoing swapcoins'')"
| "sign_input lib slib keys rand s tx prevouts ix (IncomingCoin script) inp =
     res_bind (swapcoin_witness lib (fst (rand ix)) (snd (rand ix)) s tx script) (\<lambda>w. Inr (inp\<lparr>witness := w\<rparr>))"
| "sign_input lib slib keys rand s tx prevouts ix (SeedCoin path v t) inp =
     sign_seed_input lib slib tx prevouts ix path v t inp"
| "sign_input lib slib keys rand s tx prevouts ix (SweptCoin path v t) inp =
     sign_seed_input lib slib tx prevouts ix path v t inp"
| "sign_input lib slib keys rand s tx prevouts ix (TimelockContract script v) inp =
     res_bind (need (find_outgoing_swapcoin_by_multisig lib script s) ''outgoing swapcoin not found in wallet store'') (\<lambda>sc.
     res_bind (sign_timelock_recovery lib sc tx) (\<lambda>signed_tx.
     case tx_input signed_tx of [] \<Rightarrow> Inl WPanic | i # _ \<Rightarrow> Inr (inp\<lparr>witness := witness i\<rparr>)))"
| "sign_input lib slib keys rand s tx prevouts ix (HashlockContract script v) inp =
     res_bind (swapcoin_witness lib (fst (rand ix)) (snd (rand ix)) s tx script) (\<lambda>w. Inr (inp\<lparr>witness := w\<rparr>))"
| "sign_input lib slib keys rand s tx prevouts ix (FidelityBondCoin index v) inp =
     res_bind (fidelity_bond (fidelity_bonds s) index) (\<lambda>bond.
     let redeemscript = fb_redeem_script lib bond in
     res_bind (library (p2wsh_sighash lib tx ix redeemscript v)) (\<lambda>sighash.
     res_bind (fidelity_key keys index) (\<lambda>secret.
     let sig = \<lparr>signature = sign_ecdsa_low_r slib sighash secret, sighash_type = 1\<rparr> in
     Inr (inp\<lparr>witness := witness inp @ [sig_to_vec lib sig, redeemscript]\<rparr>))))"

fun sign_inputs ::
  "bitcoin_lib \<Rightarrow> spend_lib \<Rightarrow> keyring \<Rightarrow> (nat \<Rightarrow> bytes \<times> bytes) \<Rightarrow> WalletStore \<Rightarrow> Transaction \<Rightarrow> TxOut list \<Rightarrow>
   nat \<Rightarrow> (TxIn \<times> UTXOSpendInfo) list \<Rightarrow> wallet_error + TxIn list" where
  "sign_inputs lib slib keys rand s tx prevouts ix [] = Inr []"
| "sign_inputs lib slib keys rand s tx prevouts ix ((inp, info) # rest) =
     res_bind (sign_input lib slib keys rand s tx prevouts ix info inp) (\<lambda>inp.
     res_bind (sign_inputs lib slib keys rand s tx prevouts (Suc ix) rest) (\<lambda>ins. Inr (inp # ins)))"

definition sign_transaction ::
  "bitcoin_lib \<Rightarrow> spend_lib \<Rightarrow> keyring \<Rightarrow> (nat \<Rightarrow> bytes \<times> bytes) \<Rightarrow> WalletStore \<Rightarrow> UTXOSpendInfo list \<Rightarrow>
   Transaction \<Rightarrow> wallet_error + Transaction" where
  "sign_transaction lib slib keys rand s inputs_info tx =
     res_bind (all_prevouts lib slib s inputs_info) (\<lambda>prevouts.
     if length (tx_input tx) \<noteq> length inputs_info then Inl (WGeneral ''Mismatched signer/input counts'')
     else
       res_bind (sign_inputs lib slib keys rand s tx prevouts 0 (zip (tx_input tx) inputs_info)) (\<lambda>ins.
       Inr (tx\<lparr>tx_input := ins\<rparr>)))"

section \<open>Building\<close>

definition blank_input :: "OutPoint \<Rightarrow> u32 \<Rightarrow> TxIn" where
  "blank_input prevout sqn = \<lparr>previous_output = prevout, script_sig = [], sequence = sqn, witness = []\<rparr>"

text \<open>What one coin adds to the transaction: its input and its value.\<close>

fun spend_input :: "bitcoin_lib \<Rightarrow> WalletStore \<Rightarrow> wallet_coin \<Rightarrow> wallet_error + (TxIn \<times> Amount)" where
  "spend_input lib s (u, FidelityBondCoin index v) =
     res_bind (fidelity_bond (fidelity_bonds s) index) (\<lambda>bond.
     if fb_is_spent bond then Inl (WFidelity BondAlreadyRedeemed)
     else Inr (blank_input (fb_outpoint bond) 0, v))"
| "spend_input lib s (u, TimelockContract script v) =
     res_bind (need (find_outgoing_swapcoin_by_multisig lib script s) ''outgoing swapcoin not found in wallet store'') (\<lambda>sc.
     res_bind (need (out_get_timelock lib sc) ''outgoing swapcoin has no timelock'') (\<lambda>timelock.
     Inr (blank_input \<lparr>txid = compute_txid lib (out_contract_tx sc), vout = 0\<rparr> timelock, v)))"
| "spend_input lib s (u, HashlockContract script v) =
     res_bind (need (find_incoming_swapcoin_by_multisig lib script s) ''incoming swapcoin not found in wallet store'') (\<lambda>sc.
     Inr (blank_input \<lparr>txid = compute_txid lib (in_contract_tx sc), vout = 0\<rparr> 0, v))"
| "spend_input lib s (u, info) = Inr (blank_input (u_outpoint u) 0, u_amount u)"

fun gather_inputs ::
  "bitcoin_lib \<Rightarrow> WalletStore \<Rightarrow> wallet_coin list \<Rightarrow> TxIn list \<times> nat \<times> Amount \<Rightarrow>
   wallet_error + (TxIn list \<times> nat \<times> Amount)" where
  "gather_inputs lib s [] acc = Inr acc"
| "gather_inputs lib s (coin # coins) (ins, witness_size, total_in) =
     res_bind (spend_input lib s coin) (\<lambda>(inp, v).
     res_bind (ok_or (checked_add total_in v) WPanic) (\<lambda>total_in.
     gather_inputs lib s coins (ins @ [inp], witness_size + estimate_witness_size (snd coin), total_in)))"

fun pay_outputs :: "wallet_error \<Rightarrow> (ScriptBuf \<times> Amount) list \<Rightarrow> TxOut list \<times> Amount \<Rightarrow> wallet_error + (TxOut list \<times> Amount)" where
  "pay_outputs overflow [] acc = Inr acc"
| "pay_outputs overflow ((script, amount) # outputs) (outs, total_out) =
     res_bind (ok_or (checked_add total_out amount) overflow) (\<lambda>total_out.
     pay_outputs overflow outputs (outs @ [\<lparr>value_of = amount, script_pubkey = script\<rparr>], total_out))"

definition spend_fee :: "spend_lib \<Rightarrow> nat \<Rightarrow> f64 \<Rightarrow> Transaction \<Rightarrow> wallet_error + Amount" where
  "spend_fee slib witness_size feerate tx =
     need (fee_at_rate_sats (div_ceil (base_size slib tx * 4 + witness_size + 2) 4) feerate) ''fee overflows''"

definition not_enough :: "Amount \<Rightarrow> Amount \<Rightarrow> Amount \<Rightarrow> wallet_error" where
  "not_enough total_in total_out fee =
     (case checked_add total_out fee of None \<Rightarrow> WPanic | Some required \<Rightarrow> WInsufficientFund total_in required)"

definition first_address :: "wallet_env \<Rightarrow> AddressType \<Rightarrow> ScriptBuf wact" where
  "first_address env address_type =
     bnd (get_next_internal_addresses env 1 address_type) (\<lambda>addresses. case addresses of
       address # _ \<Rightarrow> ret address
     | [] \<Rightarrow> fail WPanic)"

definition sweep_outputs :: "spend_lib \<Rightarrow> nat \<Rightarrow> Amount \<Rightarrow> f64 \<Rightarrow> ScriptBuf \<Rightarrow> Transaction \<Rightarrow> wallet_error + Transaction" where
  "sweep_outputs slib witness_size total_in feerate script tx =
     res_bind (spend_fee slib witness_size feerate (tx\<lparr>tx_output := [\<lparr>value_of = 0, script_pubkey = script\<rparr>]\<rparr>)) (\<lambda>fee.
     if total_in < fee then Inl (WInsufficientFund total_in fee)
     else Inr (tx\<lparr>tx_output := [\<lparr>value_of = total_in - fee, script_pubkey = script\<rparr>]\<rparr>))"

definition multi_outputs ::
  "wallet_env \<Rightarrow> spend_lib \<Rightarrow> nat \<Rightarrow> Amount \<Rightarrow> f64 \<Rightarrow> (ScriptBuf \<times> Amount) list \<Rightarrow> bytes option \<Rightarrow> AddressType \<Rightarrow>
   Transaction \<Rightarrow> Transaction wact" where
  "multi_outputs env slib witness_size total_in feerate outputs op_return_data change_type tx =
     bnd (liftR (pay_outputs WPanic outputs ([], 0))) (\<lambda>(outs, total_out).
     bnd (liftR (case op_return_data of
                   None \<Rightarrow> Inr []
                 | Some data \<Rightarrow>
                     res_bind (or_general ''Failed to add OP_RETURN data to transaction output''
                                 (op_return_script slib data)) (\<lambda>script.
                     Inr [\<lparr>value_of = 0, script_pubkey = script\<rparr>]))) (\<lambda>note.
     bnd (first_address env change_type) (\<lambda>internal_spk.
     let tx = tx\<lparr>tx_output := outs @ note\<rparr> in
     liftR (
       res_bind (spend_fee slib witness_size feerate
                   (tx\<lparr>tx_output := tx_output tx @ [\<lparr>value_of = 0, script_pubkey = internal_spk\<rparr>]\<rparr>)) (\<lambda>fee.
       res_bind (ok_or (checked_sub total_in total_out) (not_enough total_in total_out fee)) (\<lambda>diff.
       res_bind (ok_or (checked_sub diff fee) (not_enough total_in total_out fee)) (\<lambda>remaining.
       Inr (if minimal_non_dust (w_lib env) internal_spk < remaining
            then tx\<lparr>tx_output := tx_output tx @ [\<lparr>value_of = remaining, script_pubkey = internal_spk\<rparr>]\<rparr>
            else tx))))))))"

definition exact_spend_change :: "spend_lib \<Rightarrow> Amount \<Rightarrow> Amount \<Rightarrow> Amount \<Rightarrow> wallet_error + Amount" where
  "exact_spend_change slib total_in total_out spend =
     (if spend < total_out then Inl (WGeneral ''outputs exceed the exact spend'')
      else
        res_bind (ok_or (checked_sub total_in spend) (WInsufficientFund total_in spend)) (\<lambda>change.
        if 0 < change \<and> change < p2tr_min_non_dust_sats slib
        then Inl (WGeneral ''exact spend leaves change below the dust limit'')
        else Inr change))"

definition check_exact_spend_fee :: "Amount \<Rightarrow> u64 \<Rightarrow> f64 \<Rightarrow> wallet_error + unit" where
  "check_exact_spend_fee fee tx_size feerate =
     res_bind (need (fee_at_rate_sats tx_size feerate) ''fee overflows'') (\<lambda>required.
     ensure (required \<le> fee) (WGeneral ''exact spend pays less than its size needs''))"

definition exact_outputs ::
  "wallet_env \<Rightarrow> spend_lib \<Rightarrow> Amount \<Rightarrow> (ScriptBuf \<times> Amount) list \<Rightarrow> Amount \<Rightarrow> AddressType \<Rightarrow> Transaction \<Rightarrow>
   Transaction wact" where
  "exact_outputs env slib total_in outputs spend change_type tx =
     bnd (liftR (pay_outputs (WGeneral ''output amount overflow'') outputs ([], 0))) (\<lambda>(outs, total_out).
     bnd (liftR (exact_spend_change slib total_in total_out spend)) (\<lambda>change.
     if change = 0 then ret (tx\<lparr>tx_output := outs\<rparr>)
     else
       bnd (first_address env change_type) (\<lambda>internal_spk.
       ret (tx\<lparr>tx_output := outs @ [\<lparr>value_of = change, script_pubkey = internal_spk\<rparr>]\<rparr>))))"

fun checked_sum :: "Amount list \<Rightarrow> Amount option" where
  "checked_sum [] = Some 0"
| "checked_sum (v # vs) =
     (case checked_sum vs of None \<Rightarrow> None | Some t \<Rightarrow> checked_add v t)"

fun is_exact :: "SpendTarget \<Rightarrow> bool" where
  "is_exact (ExactSpend _ _ _) = True"
| "is_exact (ToDestination _) = False"

fun target_outputs :: "wallet_env \<Rightarrow> spend_lib \<Rightarrow> nat \<Rightarrow> Amount \<Rightarrow> f64 \<Rightarrow> SpendTarget \<Rightarrow> Transaction \<Rightarrow> Transaction wact" where
  "target_outputs env slib witness_size total_in feerate (ToDestination (SweepTo script)) tx =
     liftR (sweep_outputs slib witness_size total_in feerate script tx)"
| "target_outputs env slib witness_size total_in feerate (ToDestination (Multi outputs data t)) tx =
     multi_outputs env slib witness_size total_in feerate outputs data t tx"
| "target_outputs env slib witness_size total_in feerate (ExactSpend outputs spend t) tx =
     exact_outputs env slib total_in outputs spend t tx"

text \<open>A lock time is a height below 500 million; the height is truncated to 32 bits.\<close>

definition spend_coins_to ::
  "wallet_env \<Rightarrow> spend_lib \<Rightarrow> wallet_coin list \<Rightarrow> SpendTarget \<Rightarrow> f64 \<Rightarrow> Transaction wact" where
  "spend_coins_to env slib coins target feerate =
     bnd (query env (\<lambda>c t. c_block_count c t)) (\<lambda>count.
     let height = count mod (u32_max + 1) in
     seq (liftR (ensure (height < 500000000) WLibrary))
     (bnd (gets (\<lambda>w. gather_inputs (w_lib env) (wstore w) coins ([], 0, 0))) (\<lambda>r.
      bnd (liftR r) (\<lambda>(ins, witness_size, total_in).
      seq (liftR (ensure (\<not> is_unusable_fee_rate feerate) (WGeneral ''feerate must be finite and at least the relay floor'')))
      (bnd (target_outputs env slib witness_size total_in feerate target
              \<lparr>version = 2, lock_time = height, tx_input = ins, tx_output = []\<rparr>) (\<lambda>tx.
       bnd (gets (\<lambda>w. sign_transaction (w_lib env) slib (s_keys (w_sync env))
              (\<lambda>ix. (w_nonce env (wclock w + 2 * ix), w_nonce env (wclock w + 2 * ix + 1)))
              (wstore w) (map snd coins) tx)) (\<lambda>r.
       bnd (liftR r) (\<lambda>tx.
       bnd (liftR (ok_or (checked_sum (map value_of (tx_output tx))) WPanic)) (\<lambda>total_out.
       bnd (liftR (ok_or (checked_sub total_in total_out) WPanic)) (\<lambda>actual_fee.
       seq (on_cond (is_exact target) (liftR (check_exact_spend_fee actual_fee (w_vsize env tx) feerate)))
         (ret tx)))))))))))"

definition spend_coins :: "wallet_env \<Rightarrow> spend_lib \<Rightarrow> wallet_coin list \<Rightarrow> Destination \<Rightarrow> f64 \<Rightarrow> Transaction wact" where
  "spend_coins env slib coins destination feerate = spend_coins_to env slib coins (ToDestination destination) feerate"

fun is_contract_or_bond :: "UTXOSpendInfo \<Rightarrow> bool" where
  "is_contract_or_bond (FidelityBondCoin _ _) = True"
| "is_contract_or_bond (HashlockContract _ _) = True"
| "is_contract_or_bond (TimelockContract _ _) = True"
| "is_contract_or_bond _ = False"

definition spend_from_wallet :: "wallet_env \<Rightarrow> spend_lib \<Rightarrow> f64 \<Rightarrow> Destination \<Rightarrow> wallet_coin list \<Rightarrow> Transaction wact" where
  "spend_from_wallet env slib feerate destination coins_to_spend =
     spend_coins env slib (filter (\<lambda>(_, info). \<not> is_contract_or_bond info) coins_to_spend) destination feerate"

definition mark_bond_spent :: "u32 \<Rightarrow> WalletStore \<Rightarrow> WalletStore" where
  "mark_bond_spent index s =
     s\<lparr>fidelity_bonds := (case position (\<lambda>bond. fb_index bond = index) (fidelity_bonds s) of
         Some i \<Rightarrow> (fidelity_bonds s)[i := (fidelity_bonds s ! i)\<lparr>fb_is_spent := True\<rparr>]
       | None \<Rightarrow> fidelity_bonds s)\<rparr>"

definition redeem_fidelity :: "wallet_env \<Rightarrow> spend_lib \<Rightarrow> u32 \<Rightarrow> f64 \<Rightarrow> AddressType \<Rightarrow> unit wact" where
  "redeem_fidelity env slib index feerate address_type =
     bnd (gets (\<lambda>w. fidelity_bond (fidelity_bonds (wstore w)) index)) (\<lambda>r.
     bnd (liftR r) (\<lambda>bond.
     if fb_is_spent bond then ret ()
     else
       bnd (first_address env address_type) (\<lambda>change_addr.
       bnd (gets (\<lambda>w. find (\<lambda>(_, info). info = FidelityBondCoin index (fb_amount bond))
              (list_fidelity_spend_info (wstore w)))) (\<lambda>found. case found of
         None \<Rightarrow> modify (on_store (mark_bond_spent index))
       | Some (utxo, info) \<Rightarrow>
           bnd (spend_coins env slib [(utxo, info)] (SweepTo change_addr) feerate) (\<lambda>tx.
           bnd (send_raw_transaction env tx) (\<lambda>_.
           modify (on_store (mark_bond_spent index))))))))"

section \<open>Executing a funding plan\<close>

record CreateFundingTxesResult =
  funding_txes :: "Transaction list"
  payment_output_positions :: "u32 list"
  total_miner_fee :: u64

fun planned_coins :: "OutPoint set \<Rightarrow> wallet_coin list \<Rightarrow> OutPoint list \<Rightarrow> wallet_error + wallet_coin list" where
  "planned_coins locked available [] = Inr []"
| "planned_coins locked available (p # ps) =
     (if p \<in> locked then Inl (WGeneral ''planned funding input is locked'')
      else
        res_bind (need (find (\<lambda>(u, _). u_outpoint u = p) available)
                    ''planned funding input is no longer in the wallet'') (\<lambda>coin.
        res_bind (planned_coins locked available ps) (\<lambda>coins. Inr (coin # coins))))"

definition plan_target :: "Amount list option \<Rightarrow> nat \<Rightarrow> SplitPlan \<Rightarrow> ScriptBuf \<Rightarrow> SpendTarget" where
  "plan_target spends i split address =
     (case spends of
        Some amounts \<Rightarrow> ExactSpend [(address, split_value split)] (amounts ! i) P2TR
      | None \<Rightarrow> ToDestination (Multi [(address, split_value split)] None P2TR))"

definition fund_split ::
  "wallet_env \<Rightarrow> spend_lib \<Rightarrow> Amount list option \<Rightarrow> f64 \<Rightarrow> OutPoint set \<Rightarrow> wallet_coin list \<Rightarrow>
   nat \<times> SplitPlan \<times> ScriptBuf \<Rightarrow> CreateFundingTxesResult \<Rightarrow> CreateFundingTxesResult wact" where
  "fund_split env slib spends fee_rate locked available job acc =
     (case job of (i, split, address) \<Rightarrow>
        bnd (liftR (planned_coins locked available (utxos split))) (\<lambda>coins_to_spend.
        bnd (spend_coins_to env slib coins_to_spend (plan_target spends i split address) fee_rate) (\<lambda>funding_tx.
        let input_sum = wrapping_sum (map (\<lambda>(u, _). u_amount u) coins_to_spend);
            output_sum = wrapping_sum (map value_of (tx_output funding_tx)) in
        bnd (liftR (need (checked_sub input_sum output_sum) ''funding tx outputs exceed its inputs'')) (\<lambda>fee.
        ret (acc\<lparr>funding_txes := funding_txes acc @ [funding_tx],
                 payment_output_positions := payment_output_positions acc @ [0],
                 total_miner_fee := wrapping_add (total_miner_fee acc) fee\<rparr>)))))"

definition execute_funding_plan_inner ::
  "wallet_env \<Rightarrow> spend_lib \<Rightarrow> SplitPlan list \<Rightarrow> Amount list option \<Rightarrow> ScriptBuf list \<Rightarrow> f64 \<Rightarrow>
   CreateFundingTxesResult wact" where
  "execute_funding_plan_inner env slib plan spends destinations fee_rate =
     seq (liftR (ensure (plan \<noteq> []) (WGeneral ''cannot execute an empty funding plan'')))
     (seq (liftR (ensure (case spends of Some amounts \<Rightarrow> length amounts = length plan | None \<Rightarrow> True)
             (WGeneral ''an exact funding plan needs one spend per split'')))
     (seq (liftR (ensure (length plan \<le> length destinations) (WGeneral ''funding plan has too few destinations'')))
     (bnd (gets (\<lambda>w. (locked_utxos w,
             list_descriptor_utxo_spend_info (wstore w) @ list_swept_incoming_swap_utxos (wstore w))))
        (\<lambda>(locked, available).
      fold_act (zip [0..<length plan] (zip plan destinations))
        (fund_split env slib spends fee_rate locked available)
        \<lparr>funding_txes = [], payment_output_positions = [], total_miner_fee = 0\<rparr>))))"

definition execute_funding_plan ::
  "wallet_env \<Rightarrow> spend_lib \<Rightarrow> SplitPlan list \<Rightarrow> ScriptBuf list \<Rightarrow> f64 \<Rightarrow> CreateFundingTxesResult wact" where
  "execute_funding_plan env slib plan destinations fee_rate =
     execute_funding_plan_inner env slib plan None destinations fee_rate"

definition execute_exact_funding_plan ::
  "wallet_env \<Rightarrow> spend_lib \<Rightarrow> SplitPlan list \<Rightarrow> Amount list \<Rightarrow> ScriptBuf list \<Rightarrow> f64 \<Rightarrow> CreateFundingTxesResult wact" where
  "execute_exact_funding_plan env slib plan spends destinations fee_rate =
     execute_funding_plan_inner env slib plan (Some spends) destinations fee_rate"

section \<open>What a built transaction spends and pays\<close>

definition coin_total :: "wallet_coin list \<Rightarrow> Amount" where
  "coin_total coins = sum_list (map (\<lambda>(u, _). u_amount u) coins)"

definition witness_total :: "wallet_coin list \<Rightarrow> nat" where
  "witness_total coins = sum_list (map (\<lambda>(_, info). estimate_witness_size info) coins)"

definition own_coin :: "wallet_coin \<Rightarrow> bool" where
  "own_coin coin \<longleftrightarrow> is_seed_coin (snd coin) \<or> is_swept_coin (snd coin)"

lemma own_input:
  "own_coin coin \<Longrightarrow> spend_input lib s coin = Inr (blank_input (u_outpoint (fst coin)) 0, u_amount (fst coin))"
  by (cases coin; cases "snd coin") (auto simp: own_coin_def is_seed_coin_def is_swept_coin_def)

lemma gather_inputs_own:
  assumes "list_all own_coin coins" "gather_inputs lib s coins (ins, ws, t) = Inr (ins', ws', t')"
  shows "ins' = ins @ map (\<lambda>(u, _). blank_input (u_outpoint u) 0) coins \<and>
         ws' = ws + witness_total coins \<and> t' = t + coin_total coins"
  using assms
proof (induction coins arbitrary: ins ws t)
  case (Cons coin coins)
  obtain u info where c: "coin = (u, info)" by (cases coin)
  have "gather_inputs lib s coins (ins @ [blank_input (u_outpoint u) 0], ws + estimate_witness_size info, t + u_amount u) =
      Inr (ins', ws', t')"
    using Cons.prems by (auto simp: c own_input checked_simps result_simps)
  from Cons.IH[OF _ this] Cons.prems(1) show ?case by (simp add: c coin_total_def witness_total_def)
qed (simp add: coin_total_def witness_total_def)

definition paid :: "(ScriptBuf \<times> Amount) list \<Rightarrow> TxOut list" where
  "paid outputs = map (\<lambda>(script, amount). \<lparr>value_of = amount, script_pubkey = script\<rparr>) outputs"

lemma pay_outputs_spec:
  "pay_outputs e outputs (outs, t) = Inr (outs', t') \<Longrightarrow>
   outs' = outs @ paid outputs \<and> t' = t + sum_list (map snd outputs)"
proof (induction outputs arbitrary: outs t)
  case (Cons out outputs)
  obtain script amount where o': "out = (script, amount)" by (cases out)
  have "pay_outputs e outputs (outs @ [\<lparr>value_of = amount, script_pubkey = script\<rparr>], t + amount) = Inr (outs', t')"
    using Cons.prems by (auto simp: o' checked_simps result_simps)
  from Cons.IH[OF this] show ?case by (simp add: o' paid_def)
qed (simp add: paid_def)

text \<open>Signing touches witnesses only.\<close>

lemma sign_seed_input_keeps:
  "sign_seed_input lib slib tx prevouts ix path v t inp = Inr inp' \<Longrightarrow> previous_output inp' = previous_output inp"
  by (cases t) (auto simp: sign_seed_input_def Let_def result_simps)

lemma sign_input_keeps:
  assumes "sign_input lib slib keys rand s tx prevouts ix info inp = Inr inp'"
  shows "previous_output inp' = previous_output inp"
proof (cases info)
  case (TimelockContract script v)
  then obtain signed_tx :: Transaction where "(case tx_input signed_tx of [] \<Rightarrow> Inl WPanic | i # _ \<Rightarrow> Inr (inp\<lparr>witness := witness i\<rparr>)) = Inr inp'"
    using assms by (simp add: result_simps) blast
  then show ?thesis by (cases "tx_input signed_tx") auto
qed (use assms in \<open>auto simp: Let_def result_simps sign_seed_input_keeps\<close>)

lemma sign_inputs_keeps:
  "sign_inputs lib slib keys rand s tx prevouts ix jobs = Inr ins \<Longrightarrow>
   map previous_output ins = map previous_output (map fst jobs)"
proof (induction jobs arbitrary: ix ins)
  case (Cons job jobs)
  then show ?case by (cases job) (auto simp: result_simps sign_input_keeps)
qed simp

lemma sign_transaction_keeps:
  assumes "sign_transaction lib slib keys rand s infos tx = Inr tx'"
  shows "tx_output tx' = tx_output tx \<and> map previous_output (tx_input tx') = map previous_output (tx_input tx)"
proof -
  obtain prevouts ins where l: "length (tx_input tx) = length infos" "tx' = tx\<lparr>tx_input := ins\<rparr>"
    and s: "sign_inputs lib slib keys rand s tx prevouts 0 (zip (tx_input tx) infos) = Inr ins"
    using assms by (auto simp: sign_transaction_def result_simps split: if_splits)
  from sign_inputs_keeps[OF s] l show ?thesis by simp
qed

text \<open>
  A transaction that pays \<open>outputs\<close> from \<open>coins\<close>: it spends exactly those coins, pays every output,
  and of what the fee leaves, nothing is lost but a rest below the dust limit.
\<close>

definition change_output :: "bitcoin_lib \<Rightarrow> ScriptBuf \<Rightarrow> Amount \<Rightarrow> TxOut list" where
  "change_output lib spk rest =
     (if minimal_non_dust lib spk < rest then [\<lparr>value_of = rest, script_pubkey = spk\<rparr>] else [])"

definition pays_exactly ::
  "bitcoin_lib \<Rightarrow> spend_lib \<Rightarrow> f64 \<Rightarrow> wallet_coin list \<Rightarrow> (ScriptBuf \<times> Amount) list \<Rightarrow> Transaction \<Rightarrow> bool" where
  "pays_exactly lib slib rate coins outputs tx \<longleftrightarrow>
     map previous_output (tx_input tx) = map (\<lambda>(u, _). u_outpoint u) coins \<and>
     (\<exists>spk fee rest base.
        tx_output tx = paid outputs @ change_output lib spk rest \<and>
        coin_total coins = sum_list (map snd outputs) + fee + rest \<and>
        tx_output base = paid outputs @ [\<lparr>value_of = 0, script_pubkey = spk\<rparr>] \<and>
        map previous_output (tx_input base) = map (\<lambda>(u, _). u_outpoint u) coins \<and>
        fee_at_rate_sats (div_ceil (base_size slib base * 4 + witness_total coins + 2) 4) rate = Some fee)"

lemma pays_exactlyI:
  assumes "map previous_output (tx_input tx) = map (\<lambda>(u, _). u_outpoint u) coins"
    and "tx_output tx = paid outputs @ change_output lib spk rest"
    and "coin_total coins = sum_list (map snd outputs) + fee + rest"
    and "tx_output base = paid outputs @ [\<lparr>value_of = 0, script_pubkey = spk\<rparr>]"
    and "map previous_output (tx_input base) = map (\<lambda>(u, _). u_outpoint u) coins"
    and "spend_fee slib (witness_total coins) rate base = Inr fee"
  shows "pays_exactly lib slib rate coins outputs tx"
proof -
  have "fee_at_rate_sats (div_ceil (base_size slib base * 4 + witness_total coins + 2) 4) rate = Some fee"
    using assms(6) by (simp add: spend_fee_def need_def result_simps)
  with assms(1-5) show ?thesis unfolding pays_exactly_def by blast
qed

lemma multi_outputs_spec:
  assumes "multi_outputs env slib ws total_in rate outputs None ty tx w = (Inr tx', w')"
  obtains spk fee rest where
    "tx' = tx\<lparr>tx_output := paid outputs @ change_output (w_lib env) spk rest\<rparr>"
    "total_in = sum_list (map snd outputs) + fee + rest"
    "spend_fee slib ws rate (tx\<lparr>tx_output := paid outputs @ [\<lparr>value_of = 0, script_pubkey = spk\<rparr>]\<rparr>) = Inr fee"
proof -
  obtain outs total_out spk fee diff rest where
    p: "pay_outputs WPanic outputs ([], 0) = Inr (outs, total_out)"
    and f: "spend_fee slib ws rate (tx\<lparr>tx_output := outs @ [\<lparr>value_of = 0, script_pubkey = spk\<rparr>]\<rparr>) = Inr fee"
    and d: "checked_sub total_in total_out = Some diff" "checked_sub diff fee = Some rest"
    and t: "tx' = tx\<lparr>tx_output := outs @ change_output (w_lib env) spk rest\<rparr>"
    using assms
    by (auto simp: multi_outputs_def bnd_eq_Inr liftR_def result_simps Let_def change_output_def split: if_splits prod.splits)
  from pay_outputs_spec[OF p] have "outs = paid outputs" "total_out = sum_list (map snd outputs)" by auto
  with f d t show ?thesis by (intro that[of spk rest fee]) (auto simp: checked_simps)
qed

lemma spend_coins_spec:
  assumes "list_all own_coin coins"
    and "spend_coins_to env slib coins (ToDestination (Multi outputs None ty)) rate w = (Inr tx, w')"
  shows "pays_exactly (w_lib env) slib rate coins outputs tx"
proof -
  let ?lib = "w_lib env"
  let ?ins = "map (\<lambda>(u, _). blank_input (u_outpoint u) 0) coins"
  obtain height w1 ins ws total_in w2 tx1 rand s where
    g: "gather_inputs ?lib (wstore w1) coins ([], 0, 0) = Inr (ins, ws, total_in)"
    and m: "multi_outputs env slib ws total_in rate outputs None ty
          \<lparr>version = 2, lock_time = height, tx_input = ins, tx_output = []\<rparr> w1 = (Inr tx1, w2)"
    and s: "sign_transaction ?lib slib (s_keys (w_sync env)) rand s (map snd coins) tx1 = Inr tx"
    using assms(2)
    by (auto simp: spend_coins_to_def bnd_eq_Inr seq_def liftR_def gets_def ret_def on_cond_def Let_def result_simps
        split: prod.splits if_splits)
  from gather_inputs_own[OF assms(1) g]
  have i: "ins = ?ins" "ws = witness_total coins" "total_in = coin_total coins" by auto
  from m obtain spk fee rest where o':
    "tx1 = \<lparr>version = 2, lock_time = height, tx_input = ins, tx_output = paid outputs @ change_output ?lib spk rest\<rparr>"
    "total_in = sum_list (map snd outputs) + fee + rest"
    and f: "spend_fee slib ws rate \<lparr>version = 2, lock_time = height, tx_input = ins,
        tx_output = paid outputs @ [\<lparr>value_of = 0, script_pubkey = spk\<rparr>]\<rparr> = Inr fee"
    by (rule multi_outputs_spec) simp
  have ps: "map previous_output ?ins = map (\<lambda>(u, _). u_outpoint u) coins"
    by (simp add: blank_input_def case_prod_beta')
  show ?thesis
    using sign_transaction_keeps[OF s] ps i o' f
    by (intro pays_exactlyI[of tx coins outputs ?lib spk rest fee _ slib rate, where base = "\<lparr>version = 2,
          lock_time = height, tx_input = ?ins, tx_output = paid outputs @ [\<lparr>value_of = 0, script_pubkey = spk\<rparr>]\<rparr>"])
       simp_all
qed

lemma pays_exactly_no_loss:
  assumes "pays_exactly lib slib rate coins outputs tx"
  shows "sum_list (map value_of (tx_output tx)) \<le> coin_total coins"
  using assms by (auto simp: pays_exactly_def change_output_def paid_def case_prod_beta' comp_def)

section \<open>Funding transactions\<close>

definition available_coins :: "world \<Rightarrow> wallet_coin list" where
  "available_coins w = list_descriptor_utxo_spend_info (wstore w) @ list_swept_incoming_swap_utxos (wstore w)"

lemma available_own: "list_all own_coin (available_coins w)"
  by (auto simp: available_coins_def list_descriptor_utxo_spend_info_def list_swept_incoming_swap_utxos_def
      list_utxos_def own_coin_def list_all_iff)

lemma planned_coins_spec:
  "planned_coins locked available ps = Inr coins \<Longrightarrow>
   map (\<lambda>(u, _). u_outpoint u) coins = ps \<and> set coins \<subseteq> set available \<and> set ps \<inter> locked = {}"
proof (induction ps arbitrary: coins)
  case (Cons p ps)
  then obtain coin rest where c: "p \<notin> locked" "find (\<lambda>(u, _). u_outpoint u = p) available = Some coin"
    "planned_coins locked available ps = Inr rest" "coins = coin # rest"
    by (auto simp: result_simps need_def split: if_splits)
  then have "coin \<in> set available" "(\<lambda>(u, _). u_outpoint u) coin = p"
    by (auto simp: find_Some_iff case_prod_beta')
  then show ?case using Cons.IH[OF c(3)] c by auto
qed simp

text \<open>One split, funded: its own coins, none of them locked, pay its value to its address.\<close>

definition funds_split :: "wallet_env \<Rightarrow> spend_lib \<Rightarrow> f64 \<Rightarrow> world \<Rightarrow> SplitPlan \<Rightarrow> ScriptBuf \<Rightarrow> Transaction \<Rightarrow> bool" where
  "funds_split env slib rate w split address tx \<longleftrightarrow>
     set (utxos split) \<inter> locked_utxos w = {} \<and>
     (\<exists>coins. map (\<lambda>(u, _). u_outpoint u) coins = utxos split \<and> set coins \<subseteq> set (available_coins w) \<and>
        pays_exactly (w_lib env) slib rate coins [(address, split_value split)] tx)"

lemma fund_split_spec:
  assumes "fund_split env slib None rate (locked_utxos w) (available_coins w) (i, split, address) acc v = (Inr acc', v')"
  obtains tx where "funding_txes acc' = funding_txes acc @ [tx]" "funds_split env slib rate w split address tx"
    "payment_output_positions acc' = payment_output_positions acc @ [0]"
proof -
  obtain coins tx where c: "planned_coins (locked_utxos w) (available_coins w) (utxos split) = Inr coins"
    and b: "spend_coins_to env slib coins (ToDestination (Multi [(address, split_value split)] None P2TR)) rate v = (Inr tx, v')"
    and a: "funding_txes acc' = funding_txes acc @ [tx]"
      "payment_output_positions acc' = payment_output_positions acc @ [0]"
    using assms by (auto simp: fund_split_def plan_target_def bnd_eq_Inr liftR_def ret_def Let_def)
  note s = planned_coins_spec[OF c]
  then have "list_all own_coin coins" using available_own[of w] by (auto simp: list_all_iff)
  from spend_coins_spec[OF this b] s have "funds_split env slib rate w split address tx"
    unfolding funds_split_def by blast
  with a show ?thesis by (intro that)
qed

lemma fund_splits_spec:
  assumes "fold_act jobs (fund_split env slib None rate (locked_utxos w) (available_coins w)) acc v = (Inr acc', v')"
  shows "\<exists>txs. funding_txes acc' = funding_txes acc @ txs \<and>
      list_all2 (\<lambda>(_, split, address) tx. funds_split env slib rate w split address tx) jobs txs \<and>
      payment_output_positions acc' = payment_output_positions acc @ replicate (length jobs) 0"
  using assms
proof (induction jobs arbitrary: acc v)
  case Nil
  then show ?case by (simp add: ret_def)
next
  case (Cons job jobs)
  obtain i split address where j: "job = (i, split, address)" by (cases job)
  obtain acc1 v1 where s: "fund_split env slib None rate (locked_utxos w) (available_coins w) (i, split, address) acc v = (Inr acc1, v1)"
    and r: "fold_act jobs (fund_split env slib None rate (locked_utxos w) (available_coins w)) acc1 v1 = (Inr acc', v')"
    using Cons.prems by (auto simp: j bnd_eq_Inr)
  from s obtain tx where "funding_txes acc1 = funding_txes acc @ [tx]" "funds_split env slib rate w split address tx"
    "payment_output_positions acc1 = payment_output_positions acc @ [0]"
    by (rule fund_split_spec)
  moreover from Cons.IH[OF r] obtain txs where "funding_txes acc' = funding_txes acc1 @ txs"
    "list_all2 (\<lambda>(_, split, address) tx. funds_split env slib rate w split address tx) jobs txs"
    "payment_output_positions acc' = payment_output_positions acc1 @ replicate (length jobs) 0" by blast
  ultimately show ?case by (intro exI[of _ "tx # txs"]) (simp add: j)
qed

lemma execute_funding_plan_spec:
  assumes "execute_funding_plan env slib plan destinations rate w = (Inr r, w')"
  shows "length (funding_txes r) = length plan \<and> payment_output_positions r = replicate (length plan) 0 \<and>
    (\<forall>i < length plan. funds_split env slib rate w (plan ! i) (destinations ! i) (funding_txes r ! i))"
proof -
  let ?jobs = "zip [0..<length plan] (zip plan destinations)"
  have l: "length plan \<le> length destinations"
    and f: "fold_act ?jobs (fund_split env slib None rate (locked_utxos w) (available_coins w))
        \<lparr>funding_txes = [], payment_output_positions = [], total_miner_fee = 0\<rparr> w = (Inr r, w')"
    using assms
    by (auto simp: execute_funding_plan_def execute_funding_plan_inner_def seq_def bnd_eq_Inr liftR_def gets_def
        result_simps available_coins_def)
  from fund_splits_spec[OF f] l show ?thesis
    by (auto simp: list_all2_conv_all_nth)
qed

section \<open>What spending leaves alone\<close>

context sync_frame
begin

lemma first_address_R [steps_intros]: "steps R (first_address env a)"
  unfolding first_address_def by (auto split: list.split intro!: steps_intros R_rules)

lemma target_outputs_R [steps_intros]: "steps R (target_outputs env slib ws total_in rate target tx)"
  by (cases "(env, slib, ws, total_in, rate, target, tx)" rule: target_outputs.cases)
     (auto simp: multi_outputs_def exact_outputs_def Let_def split: prod.split intro!: steps_intros R_rules)

lemma spend_coins_to_R [steps_intros]: "steps R (spend_coins_to env slib coins target rate)"
  unfolding spend_coins_to_def Let_def
  by (auto split: prod.split intro!: steps_intros R_rules)

lemma fund_split_R [steps_intros]: "steps R (fund_split env slib spends rate locked available job acc)"
  unfolding fund_split_def Let_def by (auto split: prod.split intro!: steps_intros R_rules)

lemma execute_funding_plan_R [steps_intros]: "steps R (execute_funding_plan env slib plan destinations rate)"
  unfolding execute_funding_plan_def execute_funding_plan_inner_def
  by (auto split: prod.split intro!: steps_intros R_rules)

end

text \<open>An exact spend leaves the miner exactly what it was told to: the spend less the outputs.\<close>

lemma exact_outputs_spec:
  assumes "exact_outputs env slib total_in outputs spend ty tx w = (Inr tx', w')"
  shows "sum_list (map snd outputs) \<le> spend \<and> spend \<le> total_in \<and>
    total_in - sum_list (map value_of (tx_output tx')) = spend - sum_list (map snd outputs) \<and>
    tx_input tx' = tx_input tx"
proof -
  obtain outs total_out change where p: "pay_outputs (WGeneral ''output amount overflow'') outputs ([], 0) = Inr (outs, total_out)"
    and c: "exact_spend_change slib total_in total_out spend = Inr change"
    and r: "(if change = 0 then ret (tx\<lparr>tx_output := outs\<rparr>)
       else bnd (first_address env ty) (\<lambda>internal_spk.
         ret (tx\<lparr>tx_output := outs @ [\<lparr>value_of = change, script_pubkey = internal_spk\<rparr>]\<rparr>))) w = (Inr tx', w')"
    using assms by (auto simp: exact_outputs_def bnd_eq_Inr liftR_def)
  have t: "change = 0 \<and> tx' = tx\<lparr>tx_output := outs\<rparr> \<or>
      (\<exists>spk. tx' = tx\<lparr>tx_output := outs @ [\<lparr>value_of = change, script_pubkey = spk\<rparr>]\<rparr>)"
    using r by (cases "change = 0") (auto simp: bnd_eq_Inr ret_def)
  have "outs = paid outputs" "total_out = sum_list (map snd outputs)" using pay_outputs_spec[OF p] by auto
  moreover have "total_out \<le> spend" "spend \<le> total_in" "change = total_in - spend"
    using c by (auto simp: exact_spend_change_def result_simps checked_simps split: if_splits)
  moreover have "sum_list (map value_of (paid outputs)) = sum_list (map snd outputs)"
    by (simp add: paid_def case_prod_beta' comp_def)
  ultimately show ?thesis using t by auto
qed

text \<open>
  The witness of an incoming swap coin does not depend on the transaction it goes into, except
  for the script of its first output: the other inputs and outputs are not signed.
\<close>

lemma swapcoin_witness_foreign:
  assumes "tx_output tx \<noteq> []" "tx_output tx' \<noteq> []"
    and "script_pubkey (tx_output tx ! 0) = script_pubkey (tx_output tx' ! 0)"
  shows "sign_input lib slib keys rand s tx ps ix (IncomingCoin script) inp =
         sign_input lib slib keys rand s tx' ps' ix (IncomingCoin script) inp"
  using assms by (simp add: swapcoin_witness_def)

text \<open>A wallet that hands out one change address, and a library with a fixed size, for the example.\<close>

definition demo_spend_env :: wallet_env where
  "demo_spend_env = demo_wallet_env\<lparr>w_derive_addresses := (\<lambda>_ _ _ _ _. Inr [[81]])\<rparr>"

definition demo_spend_lib :: spend_lib where
  "demo_spend_lib = \<lparr>base_size = (\<lambda>_. 80), op_return_script = (\<lambda>_. Inr []), p2wpkh_script = (\<lambda>_. Inr []),
     p2tr_key_script = (\<lambda>_. []), p2wpkh_sighash = (\<lambda>_ _ _ _. Inr []), key_sighash_all = (\<lambda>_ _ _. Inr []),
     sign_ecdsa_low_r = (\<lambda>_ _. []), tap_tweak_secret = (\<lambda>k. k), account_point = (\<lambda>_ _. Inr []),
     account_secret = (\<lambda>_ _. Inr []), p2tr_min_non_dust_sats = 330\<rparr>"

definition demo_split :: SplitPlan where
  "demo_split = \<lparr>utxos = [\<lparr>txid = 1, vout = 0\<rparr>], split_value = 20000\<rparr>"

definition demo_funding :: Transaction where
  "demo_funding = \<lparr>version = 2, lock_time = 100,
     tx_input = [\<lparr>previous_output = \<lparr>txid = 1, vout = 0\<rparr>, script_sig = [], sequence = 0, witness = [[1], [2]]\<rparr>],
     tx_output = [\<lparr>value_of = 20000, script_pubkey = [7]\<rparr>, \<lparr>value_of = 29892, script_pubkey = [81]\<rparr>]\<rparr>"

text \<open>
  C7 (funding transactions pay the plan). When the wallet executes a funding plan, the i-th
  transaction spends exactly the coins of the i-th split, all of them coins of the wallet that
  are not locked, and its first output pays the value of the split to the i-th destination. The
  rest of the inputs, less the fee at the given rate for the estimated size, comes back as change
  unless it is at most dust; there is no other output.
\<close>

theorem funding_txs_pay_plan:
  assumes "execute_funding_plan env slib plan destinations rate w = (Inr r, w')"
  shows "length (funding_txes r) = length plan \<and> payment_output_positions r = replicate (length plan) 0 \<and>
    (\<forall>i < length plan. funds_split env slib rate w (plan ! i) (destinations ! i) (funding_txes r ! i))"
  using assms by (rule execute_funding_plan_spec)

theorem funding_txs_pay_plan_witness:
  "funding_txes (projr (fst (execute_funding_plan demo_spend_env demo_spend_lib [demo_split] [[7]] (Fin 1) demo_world))) = [demo_funding] \<and>
   funds_split demo_spend_env demo_spend_lib (Fin 1) demo_world demo_split [7] demo_funding"
proof -
  let ?run = "execute_funding_plan demo_spend_env demo_spend_lib [demo_split] [[7]] (Fin 1) demo_world"
  have fee: "fee_at_rate_sats 108 (Fin 1) = Some 108" using fee_at_rate_int_exact[of 1 108] by simp
  have "\<exists>r w'. ?run = (Inr r, w') \<and> funding_txes r = [demo_funding]"
    by (simp add: execute_funding_plan_def execute_funding_plan_inner_def seq_def bnd_def gets_def modify_def ret_def
        on_cond_def liftR_def ensure_def fund_split_def plan_target_def need_def spend_coins_to_def multi_outputs_def
        first_address_def get_next_internal_addresses_def save_to_disk_def tick_def elapse_def on_store_def query_def
        ask_query_def attempt_def spend_fee_def sign_transaction_def seed_prevout_def sign_seed_input_def library_def
        or_general_def pubkey_of_def list_descriptor_utxo_spend_info_def list_swept_incoming_swap_utxos_def
        list_utxos_def is_seed_coin_def is_swept_coin_def u_outpoint_def blank_input_def div_ceil_def checked_add_def
        checked_sub_def is_unusable_fee_rate_def MIN_RELAY_FEE_RATE_def wrapping_sum_def wrapping_add_def Let_def fee ref_lib_def demo_chain_def
        demo_sync_def demo_split_def demo_world_def demo_store_def demo_utxo_def demo_spend_env_def demo_wallet_env_def
        demo_spend_lib_def demo_funding_def)
  then show ?thesis using funding_txs_pay_plan[of demo_spend_env demo_spend_lib "[demo_split]" "[[7]]" "Fin 1" demo_world] by auto
qed

end
