(* ===== verification/Watcher.thy ===== *)
theory Watcher
  imports CoreRpc
begin

text \<open>
  The watch tower's event loop (\<open>watch_tower/watcher.rs\<close>): commands from the swap threads,
  notifications of the backend, and the retry queues for what failed. A method of \<open>Watcher\<close> is
  a function of its state; the backend's answers depend on the moment of the call, counted by
  \<open>clock\<close>. The Electrum client is a parameter. The shutdown flag, which other threads set, is
  read from the environment at the current moment.
\<close>

section \<open>Backend and state\<close>

record electrum_client =
  el_subscribe :: "nat \<Rightarrow> ScriptBuf \<Rightarrow> OutPoint \<Rightarrow> wallet_error + unit"
  el_may_have_missed :: "nat \<Rightarrow> ScriptBuf \<Rightarrow> bool"
  el_live_spending_transaction :: "nat \<Rightarrow> OutPoint \<Rightarrow> ScriptBuf \<Rightarrow> wallet_error + Transaction option"
  el_is_confirmed_spend :: "nat \<Rightarrow> OutPoint \<Rightarrow> ScriptBuf \<Rightarrow> wallet_error + bool"
  el_tx_block_height :: "nat \<Rightarrow> Txid \<Rightarrow> wallet_error + u64 option"
  el_block_count :: "nat \<Rightarrow> wallet_error + u64"
  el_raw_transaction :: "nat \<Rightarrow> Txid \<Rightarrow> wallet_error + Transaction"
  el_poll_event :: "nat \<Rightarrow> WatchEvent option"

datatype AnyBlockchain = CoreRPC core_rpc | Electrum electrum_client

record watch_env =
  e_lib :: bitcoin_lib
  RUN_DISCOVERY :: bool
  blockchain :: AnyBlockchain
  shutdown :: "nat \<Rightarrow> bool"
  deserialize_tx :: "bytes \<Rightarrow> Transaction option"
  deserialize_block :: "bytes \<Rightarrow> Block option"
  zmq_open :: "nat \<Rightarrow> wallet_error + unit"
  zmq_recv :: "nat \<Rightarrow> zmq_result"

record Watcher =
  registry :: FileRegistry
  pending_subscribes :: "(OutPoint \<times> ScriptBuf) list"
  pending_block_discovery :: "bytes list"
  pending_reconcile :: "OutPoint list"
  tip :: u64
  zmq :: ZmqState
  clock :: nat

definition unsupported :: "wallet_error" where
  "unsupported = WGeneral ''not supported by this backend''"

definition el_ask :: "(nat \<Rightarrow> wallet_error + 'a) \<Rightarrow> 'a query" where
  "el_ask f t = (f t, Suc t)"

fun any_block_count :: "AnyBlockchain \<Rightarrow> u64 query" where
  "any_block_count (CoreRPC core) = get_block_count core"
| "any_block_count (Electrum el) = el_ask (el_block_count el)"

fun any_block_at_height :: "AnyBlockchain \<Rightarrow> u64 \<Rightarrow> Block query" where
  "any_block_at_height (CoreRPC core) h = block_at_height core h"
| "any_block_at_height (Electrum el) h = fail unsupported"

fun any_tx_block_height :: "AnyBlockchain \<Rightarrow> Txid \<Rightarrow> u64 option query" where
  "any_tx_block_height (CoreRPC core) id_tx = tx_block_height core id_tx"
| "any_tx_block_height (Electrum el) id_tx = el_ask (\<lambda>t. el_tx_block_height el t id_tx)"

fun any_is_confirmed_spend :: "AnyBlockchain \<Rightarrow> OutPoint \<Rightarrow> ScriptBuf \<Rightarrow> bool query" where
  "any_is_confirmed_spend (CoreRPC core) outpoint spk = is_confirmed_spend core outpoint"
| "any_is_confirmed_spend (Electrum el) outpoint spk = el_ask (\<lambda>t. el_is_confirmed_spend el t outpoint spk)"

fun any_raw_mempool :: "AnyBlockchain \<Rightarrow> Txid list query" where
  "any_raw_mempool (CoreRPC core) = get_raw_mempool core"
| "any_raw_mempool (Electrum el) = ret []"

fun any_raw_transaction :: "AnyBlockchain \<Rightarrow> Txid \<Rightarrow> Transaction query" where
  "any_raw_transaction (CoreRPC core) id_tx = get_raw_transaction core id_tx"
| "any_raw_transaction (Electrum el) id_tx = el_ask (\<lambda>t. el_raw_transaction el t id_tx)"

fun any_subscribe_script :: "AnyBlockchain \<Rightarrow> ScriptBuf \<Rightarrow> OutPoint \<Rightarrow> unit query" where
  "any_subscribe_script (CoreRPC core) spk outpoint = ret ()"
| "any_subscribe_script (Electrum el) spk outpoint = el_ask (\<lambda>t. el_subscribe el t spk outpoint)"

fun is_electrum :: "AnyBlockchain \<Rightarrow> bool" where
  "is_electrum (CoreRPC core) = False"
| "is_electrum (Electrum el) = True"

text \<open>Programs over the registry and the moment of the next backend call.\<close>

type_synonym 'a chain_act = "(FileRegistry \<times> nat, watcher_error, 'a) act"

definition chain_q :: "'a query \<Rightarrow> 'a chain_act" where
  "chain_q q = (\<lambda>(g, t). case q t of (r, t') \<Rightarrow> (map_err WE_Wallet r, (g, t')))"

definition reg_q :: "'a reg_act \<Rightarrow> 'a chain_act" where
  "reg_q m = (\<lambda>(g, t). case m g of (r, g') \<Rightarrow> (r, (g', t)))"

definition with_chain :: "'a chain_act \<Rightarrow> Watcher \<Rightarrow> (watcher_error + 'a) \<times> Watcher" where
  "with_chain m s = (case m (registry s, clock s) of (r, (g, t)) \<Rightarrow> (r, s\<lparr>registry := g, clock := t\<rparr>))"

definition has_watches :: "Watcher \<Rightarrow> bool" where
  "has_watches s = (case list_watches (registry s) of (Inr ws, _) \<Rightarrow> ws \<noteq> [] | _ \<Rightarrow> False)"

section \<open>Asking the backend about one watch\<close>

datatype Spend =
    Found Transaction bool
  | FoundUnindexed Transaction
  | LeftMempool Transaction
  | NoSpend
  | Unknown

definition lookup_spend :: "bitcoin_lib \<Rightarrow> core_rpc \<Rightarrow> OutPoint \<Rightarrow> Spend query" where
  "lookup_spend lib core outpoint =
     bnd (mempool_spending_transaction core outpoint) (\<lambda>m. case m of
       Some tx \<Rightarrow> bnd (tx_confirmations core (compute_txid lib tx)) (\<lambda>c. case c of
           Some confirmations \<Rightarrow> ret (Found tx (0 < confirmations))
         | None \<Rightarrow> ret (LeftMempool tx))
     | None \<Rightarrow>
       bnd (mined_spending_transaction core outpoint) (\<lambda>m. case m of
         Some tx \<Rightarrow> bnd (tx_confirmations core (compute_txid lib tx)) (\<lambda>c. case c of
             Some confirmations \<Rightarrow> ret (Found tx (0 < confirmations))
           | None \<Rightarrow> ret (FoundUnindexed tx))
       | None \<Rightarrow>
         bnd (get_tx_out core (txid outpoint) (vout outpoint) (Some True)) (\<lambda>unspent.
         if unspent \<noteq> None then ret NoSpend
         else
           bnd (txindex_synced core) (\<lambda>synced.
           bnd (tx_confirmations core (txid outpoint)) (\<lambda>c.
           if (case c of Some n \<Rightarrow> 0 < n | None \<Rightarrow> False) then ret Unknown
           else ret (if synced then NoSpend else Unknown))))))"

text \<open>
  The first half of \<open>reconcile_watch\<close>: what the node says of a spend on record as confirmed.
  \<open>Some b\<close> ends the check with \<open>b\<close>; otherwise the confirmed mark is removed and the search goes on.
\<close>

definition recorded_still_mined :: "core_rpc \<Rightarrow> OutPoint \<Rightarrow> Txid \<Rightarrow> bool option query" where
  "recorded_still_mined core outpoint id_tx =
     bnd (tx_confirmations core id_tx) (\<lambda>c. case c of
       Some n \<Rightarrow> ret (if 0 < n then Some True else None)
     | None \<Rightarrow>
         bnd (txindex_synced core) (\<lambda>synced.
         if synced then ret None
         else bnd (get_tx_out core (txid outpoint) (vout outpoint) (Some False)) (\<lambda>unspent.
           ret (if unspent = None then Some False else None))))"

definition reconcile_spend :: "bitcoin_lib \<Rightarrow> core_rpc \<Rightarrow> WatchRequest \<Rightarrow> bool chain_act" where
  "reconcile_spend lib core w =
     bnd (chain_q (lookup_spend lib core (w_outpoint w))) (\<lambda>sp. case sp of
       Found tx b \<Rightarrow> seq (reg_q (process_transaction lib tx b)) (ret True)
     | FoundUnindexed tx \<Rightarrow> seq (reg_q (process_transaction lib tx True)) (ret False)
     | LeftMempool tx \<Rightarrow> seq (reg_q (process_transaction lib tx False)) (ret False)
     | NoSpend \<Rightarrow> ret True
     | Unknown \<Rightarrow> ret False)"

definition reconcile_watch :: "bitcoin_lib \<Rightarrow> core_rpc \<Rightarrow> WatchRequest \<Rightarrow> bool chain_act" where
  "reconcile_watch lib core w =
     (case spent_tx w of
        Some tx \<Rightarrow>
          if in_block w then
            bnd (chain_q (recorded_still_mined core (w_outpoint w) (compute_txid lib tx))) (\<lambda>r. case r of
              Some b \<Rightarrow> ret b
            | None \<Rightarrow> seq (reg_q (upsert_watch (w\<lparr>in_block := False\<rparr>))) (reconcile_spend lib core w))
          else reconcile_spend lib core w
      | None \<Rightarrow> reconcile_spend lib core w)"

definition recheck_electrum_watch :: "bitcoin_lib \<Rightarrow> electrum_client \<Rightarrow> WatchRequest \<Rightarrow> Transaction option chain_act" where
  "recheck_electrum_watch lib el w =
     bnd (chain_q (el_ask (\<lambda>t. el_live_spending_transaction el t (w_outpoint w) (w_script_pubkey w)))) (\<lambda>spend.
     case spend of
       Some tx \<Rightarrow> seq (reg_q (process_transaction lib tx False)) (ret spend)
     | None \<Rightarrow> ret spend)"

section \<open>The retry queues\<close>

text \<open>
  \<open>Vec::retain\<close> with a check that may stop the pass: an element is dropped when its check
  succeeds and kept when it fails; once stopped, or on shutdown, the rest is kept unchecked.
\<close>

datatype verdict = Drop | Keep | Stop

fun retain_until ::
  "('s \<Rightarrow> bool) \<Rightarrow> ('x \<Rightarrow> 's \<Rightarrow> verdict \<times> 's) \<Rightarrow> bool \<Rightarrow> 'x list \<Rightarrow> 's \<Rightarrow> ('x list \<times> bool) \<times> 's" where
  "retain_until down f stopped [] s = (([], stopped), s)"
| "retain_until down f stopped (x # xs) s =
     (if stopped \<or> down s then
        (case retain_until down f stopped xs s of ((ys, st), s') \<Rightarrow> ((x # ys, st), s'))
      else
        (case f x s of
           (Drop, s') \<Rightarrow> retain_until down f stopped xs s'
         | (Keep, s') \<Rightarrow> (case retain_until down f stopped xs s' of ((ys, st), s'') \<Rightarrow> ((x # ys, st), s''))
         | (Stop, s') \<Rightarrow> (case retain_until down f True xs s' of ((ys, st), s'') \<Rightarrow> ((x # ys, st), s''))))"

definition reconcile_check :: "watch_env \<Rightarrow> WatchRequest list \<Rightarrow> OutPoint \<Rightarrow> FileRegistry \<times> nat \<Rightarrow> verdict \<times> (FileRegistry \<times> nat)" where
  "reconcile_check env ws outpoint st =
     (case find (\<lambda>w. w_outpoint w = outpoint) ws of
        None \<Rightarrow> (Drop, st)
      | Some w \<Rightarrow>
          (case (case blockchain env of
                   CoreRPC core \<Rightarrow> reconcile_watch (e_lib env) core w st
                 | Electrum el \<Rightarrow> bnd (recheck_electrum_watch (e_lib env) el w) (\<lambda>_. ret True) st) of
             (Inr True, st') \<Rightarrow> (Drop, st')
           | (_, st') \<Rightarrow> (Stop, st')))"

definition reconcile_watches :: "watch_env \<Rightarrow> Watcher \<Rightarrow> Watcher" where
  "reconcile_watches env s =
     (if pending_reconcile s = [] then s
      else case list_watches (registry s) of
        (Inl e, _) \<Rightarrow> s
      | (Inr ws, _) \<Rightarrow>
          (case retain_until (\<lambda>(g, t). shutdown env t) (reconcile_check env ws) False
                  (pending_reconcile s) (registry s, clock s) of
             ((kept, stopped), (g, t)) \<Rightarrow>
               s\<lparr>registry := g, clock := t,
                 pending_reconcile := (if stopped then rotate1 kept else kept)\<rparr>))"

definition subscribe_check :: "watch_env \<Rightarrow> OutPoint \<times> ScriptBuf \<Rightarrow> nat \<Rightarrow> verdict \<times> nat" where
  "subscribe_check env x t =
     (case any_subscribe_script (blockchain env) (snd x) (fst x) t of
        (Inr _, t') \<Rightarrow> (Drop, t')
      | (Inl _, t') \<Rightarrow> (Stop, t'))"

definition discovery_check :: "watch_env \<Rightarrow> core_rpc \<Rightarrow> bytes \<Rightarrow> FileRegistry \<times> nat \<Rightarrow> verdict \<times> (FileRegistry \<times> nat)" where
  "discovery_check env core h st =
     (case chain_q (block_height core h) st of
        (Inl e, st) \<Rightarrow> (Keep, st)
      | (Inr height, st) \<Rightarrow>
          (case chain_q (block_at_height core height) st of
             (Inl e, st) \<Rightarrow> (Keep, st)
           | (Inr block, st) \<Rightarrow>
               if block_hash block \<noteq> h then (Drop, st)
               else (case reg_q (process_block (e_lib env) (RUN_DISCOVERY env) block (Some height)) st of
                       (Inr _, st) \<Rightarrow> (Drop, st)
                     | (Inl e, st) \<Rightarrow> (Keep, st))))"

definition retry_pending_work :: "watch_env \<Rightarrow> Watcher \<Rightarrow> Watcher" where
  "retry_pending_work env s =
     (if shutdown env (clock s) then s
      else
        let s = reconcile_watches env s;
            s = (case retain_until (shutdown env) (subscribe_check env) False (pending_subscribes s) (clock s) of
                   ((kept, stopped), t) \<Rightarrow>
                     s\<lparr>clock := t, pending_subscribes := (if stopped then rotate1 kept else kept)\<rparr>)
        in if \<not> RUN_DISCOVERY env then s
           else case blockchain env of
             Electrum el \<Rightarrow> s
           | CoreRPC core \<Rightarrow>
               (case retain_until (\<lambda>(g, t). shutdown env t) (discovery_check env core) False
                       (pending_block_discovery s) (registry s, clock s) of
                  ((kept, _), (g, t)) \<Rightarrow> s\<lparr>registry := g, clock := t, pending_block_discovery := kept\<rparr>))"

section \<open>Events\<close>

definition queue_reconcile :: "OutPoint \<Rightarrow> Watcher \<Rightarrow> Watcher" where
  "queue_reconcile outpoint s =
     (if outpoint \<in> set (pending_reconcile s) then s
      else s\<lparr>pending_reconcile := pending_reconcile s @ [outpoint]\<rparr>)"

text \<open>\<open>list_watches\<close>, then a re-check of the watches that satisfy \<open>P\<close>.\<close>

definition queue_watches :: "(WatchRequest \<Rightarrow> bool) \<Rightarrow> Watcher \<Rightarrow> Watcher" where
  "queue_watches P s =
     (case list_watches (registry s) of
        (Inr ws, _) \<Rightarrow> fold queue_reconcile (map w_outpoint (filter P ws)) s
      | (Inl e, _) \<Rightarrow> s)"

definition scan_connected :: "watch_env \<Rightarrow> Block \<Rightarrow> u64 option \<Rightarrow> Watcher \<Rightarrow> Watcher" where
  "scan_connected env block height s =
     snd (with_chain (reg_q (process_block (e_lib env) (RUN_DISCOVERY env) block height)) s)"

definition block_connected :: "watch_env \<Rightarrow> BlockRef \<Rightarrow> Watcher \<Rightarrow> Watcher" where
  "block_connected env b s =
     (let s = (if 0 < br_height b \<and> has_watches s then s\<lparr>tip := br_height b\<rparr> else s) in
      if length (br_hash b) = 32 then s
      else case deserialize_block env (br_hash b) of
        None \<Rightarrow> s
      | Some block \<Rightarrow>
          if \<not> RUN_DISCOVERY env then scan_connected env block None s
          else if 0 < br_height b then scan_connected env block (Some (br_height b)) s
          else case blockchain env of
            Electrum el \<Rightarrow> scan_connected env block None s
          | CoreRPC core \<Rightarrow>
              (case with_chain (chain_q (block_height core (block_hash block))) s of
                 (Inr height, s) \<Rightarrow> scan_connected env block (Some height) s
               | (Inl e, s) \<Rightarrow>
                   let s = snd (with_chain (reg_q (for_each (txdata block)
                             (\<lambda>tx. process_transaction (e_lib env) tx True))) s) in
                   if block_hash block \<in> set (pending_block_discovery s) then s
                   else s\<lparr>pending_block_discovery := pending_block_discovery s @ [block_hash block]\<rparr>))"

fun handle_event :: "watch_env \<Rightarrow> WatchEvent \<Rightarrow> Watcher \<Rightarrow> Watcher" where
  "handle_event env Unreachable s = s\<lparr>tip := 0\<rparr>"
| "handle_event env Missed s = queue_watches (\<lambda>_. True) s"
| "handle_event env (Unfetched spk) s = queue_watches (\<lambda>w. w_script_pubkey w = spk) s"
| "handle_event env (TxSeen raw_tx) s =
     (case deserialize_tx env raw_tx of
        Some tx \<Rightarrow> snd (with_chain (reg_q (process_transaction (e_lib env) tx False)) s)
      | None \<Rightarrow> s)"
| "handle_event env (BlockConnected b) s = block_connected env b s"

definition poll_event :: "watch_env \<Rightarrow> Watcher \<Rightarrow> WatchEvent option \<times> Watcher" where
  "poll_event env s =
     (case blockchain env of
        Electrum el \<Rightarrow> (el_poll_event el (clock s), s\<lparr>clock := Suc (clock s)\<rparr>)
      | CoreRPC core \<Rightarrow>
          (case core_poll_event (zmq_open env (clock s)) (zmq_recv env (clock s)) (zmq s) of
             (e, z) \<Rightarrow> (e, s\<lparr>zmq := z, clock := Suc (clock s)\<rparr>)))"

text \<open>The drain runs until nothing is pending; \<open>None\<close> is a drain that never ends.\<close>

partial_function (option) drain_events :: "watch_env \<Rightarrow> Watcher \<Rightarrow> Watcher option" where
  "drain_events env s =
     (if shutdown env (clock s) then Some s
      else case poll_event env s of
        (None, s) \<Rightarrow> Some s
      | (Some event, s) \<Rightarrow>
          if event = Unreachable then Some (handle_event env event s)
          else drain_events env (handle_event env event s))"

fun mempool_scan :: "watch_env \<Rightarrow> Txid list \<Rightarrow> unit chain_act" where
  "mempool_scan env [] = ret ()"
| "mempool_scan env (id_tx # ids) =
     bnd (gets (\<lambda>(g, t). shutdown env t)) (\<lambda>down.
     if down then ret ()
     else bnd (attempt (chain_q (any_raw_transaction (blockchain env) id_tx))) (\<lambda>r. case r of
       Inl e \<Rightarrow> mempool_scan env ids
     | Inr tx \<Rightarrow> seq (reg_q (process_transaction (e_lib env) tx False)) (mempool_scan env ids)))"

definition process_mempool :: "watch_env \<Rightarrow> unit chain_act" where
  "process_mempool env = bnd (chain_q (any_raw_mempool (blockchain env))) (mempool_scan env)"

section \<open>Rescanning blocks\<close>

fun scan_heights :: "watch_env \<Rightarrow> u64 list \<Rightarrow> unit chain_act" where
  "scan_heights env [] = ret ()"
| "scan_heights env (h # hs) =
     bnd (gets (\<lambda>(g, t). shutdown env t)) (\<lambda>down.
     if down then ret ()
     else
       bnd (chain_q (any_block_at_height (blockchain env) h)) (\<lambda>block.
       seq (reg_q (process_block (e_lib env) (RUN_DISCOVERY env) block (Some h)))
       (scan_heights env hs)))"

definition scan_blocks :: "watch_env \<Rightarrow> u64 \<Rightarrow> unit chain_act" where
  "scan_blocks env from_h =
     bnd (chain_q (any_block_count (blockchain env))) (\<lambda>top. scan_heights env [from_h..<Suc top])"

text \<open>The lowest funding height of the rebuilt watches; \<open>None\<close> when shutdown cut the search short.\<close>

fun oldest_funding :: "watch_env \<Rightarrow> (OutPoint \<times> ScriptBuf) list \<Rightarrow> u64 option \<Rightarrow> u64 option option chain_act" where
  "oldest_funding env [] oldest = ret (Some oldest)"
| "oldest_funding env ((outpoint, spk) # ws) oldest =
     bnd (gets (\<lambda>(g, t). shutdown env t)) (\<lambda>down.
     if down then ret None
     else bnd (attempt (chain_q (any_tx_block_height (blockchain env) (txid outpoint)))) (\<lambda>r. case r of
       Inr (Some height) \<Rightarrow>
         oldest_funding env ws (Some (case oldest of None \<Rightarrow> height | Some old \<Rightarrow> min old height))
     | Inr None \<Rightarrow> oldest_funding env ws oldest
     | Inl e \<Rightarrow> oldest_funding env ws oldest))"

definition rescan_for_missed_spends :: "watch_env \<Rightarrow> (OutPoint \<times> ScriptBuf) list \<Rightarrow> unit chain_act" where
  "rescan_for_missed_spends env ws =
     bnd (oldest_funding env ws None) (\<lambda>r. case r of
       Some (Some from_h) \<Rightarrow> scan_blocks env from_h
     | _ \<Rightarrow> ret ())"

section \<open>Commands\<close>

datatype WatcherEvent = UtxoSpent OutPoint "Transaction option" | NoOutpoint | ErrorReply string

datatype WatcherCommand =
    RegisterWatchRequest OutPoint ScriptBuf
  | RebuildWatches "(OutPoint \<times> ScriptBuf) list"
  | QueryWatch OutPoint
  | Unwatch OutPoint ScriptBuf
  | Shutdown

text \<open>What a command's reply channel receives.\<close>

datatype reply = Event WatcherEvent | Rebuilt

definition seed_tip :: "watch_env \<Rightarrow> Watcher \<Rightarrow> Watcher" where
  "seed_tip env s =
     (if has_watches s \<and> is_electrum (blockchain env) \<and> tip s = 0 then
        (case with_chain (chain_q (any_block_count (blockchain env))) s of
           (Inr height, s) \<Rightarrow> s\<lparr>tip := height\<rparr>
         | (Inl e, s) \<Rightarrow> s)
      else s)"

definition is_blind :: "watch_env \<Rightarrow> WatchRequest \<Rightarrow> Watcher \<Rightarrow> bool" where
  "is_blind env w s =
     (case blockchain env of
        Electrum el \<Rightarrow> w_outpoint w \<in> set (pending_reconcile s) \<or> el_may_have_missed el (clock s) (w_script_pubkey w)
      | CoreRPC core \<Rightarrow> False)"

definition check_blind_watch ::
  "watch_env \<Rightarrow> WatchRequest \<Rightarrow> Watcher \<Rightarrow> (watcher_error + Transaction option) \<times> Watcher" where
  "check_blind_watch env w s =
     (case blockchain env of
        CoreRPC core \<Rightarrow> (Inr (spent_tx w), s)
      | Electrum el \<Rightarrow>
          (case with_chain (recheck_electrum_watch (e_lib env) el w) s of
             (Inl e, s) \<Rightarrow> (Inl e, s)
           | (Inr _, s) \<Rightarrow>
               let s = s\<lparr>pending_reconcile := filter (\<lambda>p. p \<noteq> w_outpoint w) (pending_reconcile s)\<rparr> in
               (case list_watches (registry s) of
                  (Inl e, _) \<Rightarrow> (Inl e, s)
                | (Inr ws, _) \<Rightarrow>
                    (Inr (Option.bind (find (\<lambda>v. w_outpoint v = w_outpoint w) ws) spent_tx), s))))"

definition confirm_recorded_spend :: "watch_env \<Rightarrow> OutPoint \<Rightarrow> ScriptBuf \<Rightarrow> Watcher \<Rightarrow> bool \<times> Watcher" where
  "confirm_recorded_spend env outpoint spk s =
     (case with_chain (chain_q (any_is_confirmed_spend (blockchain env) outpoint spk)) s of
        (Inr still_there, s) \<Rightarrow> (still_there, s)
      | (Inl e, s) \<Rightarrow> (True, s))"

text \<open>The answer for one matching watch: its reply, or an error that ends the command.\<close>

definition answer_watch ::
  "watch_env \<Rightarrow> WatchRequest \<Rightarrow> Watcher \<Rightarrow> (watcher_error + Transaction option) \<times> Watcher" where
  "answer_watch env w s =
     (if is_blind env w s then
        (case check_blind_watch env w s of
           (Inr spend, s) \<Rightarrow> (Inr spend, s)
         | (Inl e, s) \<Rightarrow> (if spent_tx w \<noteq> None then Inr (spent_tx w) else Inl e, s))
      else (Inr (spent_tx w), s))"

fun serve_query ::
  "watch_env \<Rightarrow> OutPoint \<Rightarrow> WatchRequest list \<Rightarrow> bool \<Rightarrow> reply list \<Rightarrow> Watcher \<Rightarrow> bool \<times> reply list \<times> Watcher" where
  "serve_query env outpoint [] spent out s =
     (True, if spent then out else out @ [Event NoOutpoint], s)"
| "serve_query env outpoint (w # ws) spent out s =
     (if shutdown env (clock s) then (False, out, s)
      else if w_outpoint w \<noteq> outpoint then serve_query env outpoint ws spent out s
      else
        (case (if in_block w then confirm_recorded_spend env outpoint (w_script_pubkey w) s else (True, s)) of
           (False, s) \<Rightarrow>
             serve_query env outpoint ws spent out
               (snd (with_chain (reg_q (upsert_watch (w\<lparr>spent_tx := None, in_block := False\<rparr>))) s))
         | (True, s) \<Rightarrow>
             (case answer_watch env w s of
                (Inl e, s) \<Rightarrow> (True, out @ [Event (ErrorReply ''spend unknown'')], s)
              | (Inr spending_tx, s) \<Rightarrow>
                  serve_query env outpoint ws True
                    (out @ [Event (UtxoSpent (w_outpoint w) spending_tx)]) s)))"

definition arm_watch :: "watch_env \<Rightarrow> OutPoint \<Rightarrow> ScriptBuf \<Rightarrow> Watcher \<Rightarrow> bool \<times> Watcher" where
  "arm_watch env outpoint spk s =
     (let s = snd (with_chain (reg_q (register_watch outpoint spk)) s) in
      case with_chain (chain_q (any_subscribe_script (blockchain env) spk outpoint)) s of
        (Inr _, s) \<Rightarrow> (True, s)
      | (Inl e, s) \<Rightarrow>
          (False, queue_reconcile outpoint (s\<lparr>pending_subscribes := pending_subscribes s @ [(outpoint, spk)]\<rparr>)))"

text \<open>The registrations of a rebuild: whether shutdown cut them short, and whether one was armed.\<close>

fun arm_all :: "watch_env \<Rightarrow> (OutPoint \<times> ScriptBuf) list \<Rightarrow> bool \<Rightarrow> Watcher \<Rightarrow> bool \<times> bool \<times> Watcher" where
  "arm_all env [] armed s = (False, armed, s)"
| "arm_all env ((outpoint, spk) # ws) armed s =
     (if shutdown env (clock s) then (True, armed, s)
      else case arm_watch env outpoint spk s of (b, s) \<Rightarrow> arm_all env ws (armed \<or> b) s)"

partial_function (option) rescan_until_done ::
  "watch_env \<Rightarrow> (OutPoint \<times> ScriptBuf) list \<Rightarrow> Watcher \<Rightarrow> Watcher option" where
  "rescan_until_done env ws s =
     (if shutdown env (clock s) then Some s
      else case with_chain (rescan_for_missed_spends env ws) s of
        (Inr _, s) \<Rightarrow> Some s
      | (Inl e, s) \<Rightarrow> rescan_until_done env ws s)"

definition rebuild_watches :: "watch_env \<Rightarrow> (OutPoint \<times> ScriptBuf) list \<Rightarrow> Watcher \<Rightarrow> (bool \<times> reply list \<times> Watcher) option" where
  "rebuild_watches env ws s =
     (case arm_all env ws False s of
        (True, _, s) \<Rightarrow> Some (False, [Rebuilt], s)
      | (False, armed, s) \<Rightarrow>
          Option.bind (if is_electrum (blockchain env) then Some s else rescan_until_done env ws s) (\<lambda>s.
          Some (True, [Rebuilt], if armed then seed_tip env s else s)))"

definition query_watch :: "watch_env \<Rightarrow> OutPoint \<Rightarrow> Watcher \<Rightarrow> (bool \<times> reply list \<times> Watcher) option" where
  "query_watch env outpoint s =
     Option.bind (drain_events env s) (\<lambda>s.
     case list_watches (registry s) of
       (Inl e, _) \<Rightarrow> Some (True, [Event (ErrorReply ''registry lock poisoned'')], s)
     | (Inr ws, _) \<Rightarrow> Some (serve_query env outpoint ws False [] s))"

definition unwatch :: "watch_env \<Rightarrow> OutPoint \<Rightarrow> Watcher \<Rightarrow> Watcher" where
  "unwatch env outpoint s =
     (let s = snd (with_chain (reg_q (remove_watch outpoint)) s);
          s = s\<lparr>pending_subscribes := filter (\<lambda>(p, _). p \<noteq> outpoint) (pending_subscribes s)\<rparr>
      in if has_watches s then s else s\<lparr>tip := 0\<rparr>)"

fun handle_command :: "watch_env \<Rightarrow> WatcherCommand \<Rightarrow> Watcher \<Rightarrow> (bool \<times> reply list \<times> Watcher) option" where
  "handle_command env (RegisterWatchRequest outpoint spk) s =
     (case arm_watch env outpoint spk s of
        (True, s) \<Rightarrow> Some (True, [], seed_tip env s)
      | (False, s) \<Rightarrow> Some (True, [], s))"
| "handle_command env (RebuildWatches ws) s = rebuild_watches env ws s"
| "handle_command env (QueryWatch outpoint) s = query_watch env outpoint s"
| "handle_command env (Unwatch outpoint spk) s = Some (True, [], unwatch env outpoint s)"
| "handle_command env Shutdown s = Some (False, [], s)"

text \<open>
  One pass of the event loop with the commands it receives: \<open>False\<close> leaves the loop. A command
  after the first is read only while the shutdown flag is clear.
\<close>

fun run_commands :: "watch_env \<Rightarrow> WatcherCommand list \<Rightarrow> Watcher \<Rightarrow> (bool \<times> reply list \<times> Watcher) option" where
  "run_commands env [] s = Some (True, [], s)"
| "run_commands env (cmd # cmds) s =
     (case handle_command env cmd s of
        None \<Rightarrow> None
      | Some (False, out, s) \<Rightarrow> Some (False, out, s)
      | Some (True, out, s) \<Rightarrow>
          if shutdown env (clock s) then Some (True, out, s)
          else (case run_commands env cmds s of
                  None \<Rightarrow> None
                | Some (b, out', s) \<Rightarrow> Some (b, out @ out', s)))"

definition loop_pass :: "watch_env \<Rightarrow> WatcherCommand list \<Rightarrow> Watcher \<Rightarrow> (bool \<times> reply list \<times> Watcher) option" where
  "loop_pass env cmds s =
     (if shutdown env (clock s) then Some (False, [], s)
      else case run_commands env cmds s of
        None \<Rightarrow> None
      | Some (False, out, s) \<Rightarrow> Some (False, out, s)
      | Some (True, out, s) \<Rightarrow>
          Option.bind (drain_events env s) (\<lambda>s. Some (True, out, retry_pending_work env s)))"

end
