(* ===== verification/WatchTower.thy ===== *)
theory WatchTower
  imports Watcher
begin

text \<open>
  What the watch tower guarantees. Recorded spends survive every pass of its loop; its retry
  queue is fair and its drain ends; lost notifications are always reported; each query is
  answered once; and a confirmed record is only changed on the node's word. The relation
  \<open>kept\<close> is carried through the programs by the rules of \<open>Effects\<close>.
\<close>

section \<open>Recorded spends survive\<close>

text \<open>
  \<open>kept U D g g'\<close>: from registry \<open>g\<close> to \<open>g'\<close>, every watch outside \<open>U\<close> stays, and a spend on record
  is dropped only for an outpoint of \<open>D\<close>.
\<close>

definition kept :: "OutPoint set \<Rightarrow> OutPoint set \<Rightarrow> FileRegistry \<Rightarrow> FileRegistry \<Rightarrow> bool" where
  "kept U D g g' \<longleftrightarrow> poisoned g' = poisoned g \<and>
     (reg_ok g \<longrightarrow> reg_ok g' \<and>
       (\<forall>p w. recorded g p = Some w \<longrightarrow> p \<notin> U \<longrightarrow>
          (\<exists>w'. recorded g' p = Some w' \<and> (spent_tx w \<noteq> None \<longrightarrow> spent_tx w' = None \<longrightarrow> p \<in> D))))"

lemma kept_refl [simp]: "kept U D g g"
  by (auto simp: kept_def)

lemma kept_trans: "kept U D g g' \<Longrightarrow> kept U D g' g'' \<Longrightarrow> kept U D g g''"
  unfolding kept_def by (metis (no_types, lifting))

lemma kept_mono: "kept U D g g' \<Longrightarrow> U \<subseteq> U' \<Longrightarrow> D \<subseteq> D' \<Longrightarrow> kept U' D' g g'"
  unfolding kept_def by (meson subsetD)

lemma kept_order [steps_intros]: "reflp (kept U D)" "transp (kept U D)"
  by (auto intro!: reflpI transpI intro: kept_trans)

lemma kept_poisoned: "poisoned g \<Longrightarrow> recorded g' = recorded g \<Longrightarrow> poisoned g' \<Longrightarrow> reg_ok g' = reg_ok g \<Longrightarrow> kept U D g g'"
  by (auto simp: kept_def)

text \<open>A change of one watch that keeps its place and its spend.\<close>

lemma upsert_kept:
  assumes "\<not> poisoned g" "reg_ok g" "recorded g (w_outpoint w) = Some v"
    "spent_tx v \<noteq> None \<and> spent_tx w = None \<longrightarrow> w_outpoint w \<in> D"
  shows "kept U D g (snd (upsert_watch w g))"
  using upsert_watch_eff[OF assms(1,2), of w]
proof -
  from assms(1,2) obtain g' where g': "upsert_watch w g = (Inr (), g')" "\<not> poisoned g'" "reg_ok g'"
    "recorded g' = (recorded g)(w_outpoint w \<mapsto> w)" by (rule upsert_watch_eff)
  show ?thesis using assms unfolding g' snd_conv kept_def by (auto simp: g')
qed

lemma steps_app: "steps R m \<Longrightarrow> R s (snd (m s))"
  by (simp only: steps_def)

lemma process_transaction_steps [steps_intros]: "steps (kept U D) (process_transaction lib tx b)"
  unfolding steps_def
proof
  fix g
  show "kept U D g (snd (process_transaction lib tx b g))"
  proof (cases "poisoned g")
    case True
    then show ?thesis by (simp add: process_transaction_def list_watches_def reg_simps bnd_def)
  next
    case False
    show ?thesis
    proof (cases "reg_ok g")
      case True
      from process_transaction_eff[OF this False, of lib tx b] obtain g'
        where "process_transaction lib tx b g = (Inr (), g')"
          "seen_at g g' (\<lambda>p. map_option (spend_seen lib tx b) (recorded g p))" by blast
      then show ?thesis using False by (auto simp: kept_def seen_at_def spend_seen_def)
    next
      case broken: False
      have m: "poisoned (snd (mark_spend lib tx b p w h)) = poisoned h" for p w h
        by (simp add: mark_spend_def upsert_watch_def with_data_def ret_def)
      have st: "steps (\<lambda>h h'. poisoned h' = poisoned h) (process_transaction lib tx b)"
        unfolding process_transaction_def
        by (intro steps_intros) (auto simp: reflp_def transp_def steps_def m list_watches_def with_data_def)
      then show ?thesis using broken by (simp add: kept_def steps_def)
    qed
  qed
qed

lemma with_data_kept:
  assumes "\<And>d. watches (snd (f d)) = watches d"
  shows "steps (kept U D) (with_data f)"
  using assms by (auto simp: steps_def with_data_def kept_def reg_ok_def recorded_def case_prod_beta)

lemma insert_fidelity_steps [steps_intros]: "steps (kept U D) (insert_fidelity lib i a)"
  by (auto simp: insert_fidelity_def Let_def intro!: steps_intros with_data_kept)

lemma list_watches_steps [steps_intros]: "steps (kept U D) list_watches"
  unfolding list_watches_def by (rule with_data_kept) simp

lemma process_block_steps [steps_intros]: "steps (kept U D) (process_block lib disc block h)"
  unfolding process_block_def by (auto intro!: steps_intros split: option.splits)

text \<open>Programs over the registry and the clock.\<close>

definition kept2 :: "OutPoint set \<Rightarrow> OutPoint set \<Rightarrow> FileRegistry \<times> nat \<Rightarrow> FileRegistry \<times> nat \<Rightarrow> bool" where
  "kept2 U D s s' = kept U D (fst s) (fst s')"

lemma kept2_order [steps_intros]: "reflp (kept2 U D)" "transp (kept2 U D)"
  by (auto simp: kept2_def intro!: reflpI transpI intro: kept_trans)

lemma chain_q_steps [steps_intros]: "steps (kept2 U D) (chain_q q)"
  by (auto simp: steps_def chain_q_def kept2_def split: prod.splits)

lemma reg_q_steps [steps_intros]: "steps (kept U D) m \<Longrightarrow> steps (kept2 U D) (reg_q m)"
  by (simp add: steps_def reg_q_def kept2_def case_prod_beta)

lemma with_chain_kept: "steps (kept2 U D) m \<Longrightarrow> kept U D (registry s) (registry (snd (with_chain m s)))"
  by (simp add: with_chain_def steps_def kept2_def case_prod_beta)

lemma reconcile_spend_steps [steps_intros]: "steps (kept2 U D) (reconcile_spend lib core w)"
  unfolding reconcile_spend_def by (auto intro!: steps_intros split: Spend.splits)

lemma recheck_electrum_steps [steps_intros]: "steps (kept2 U D) (recheck_electrum_watch lib el w)"
  unfolding recheck_electrum_watch_def by (auto intro!: steps_intros split: option.splits)

lemma mempool_scan_steps [steps_intros]: "steps (kept2 U D) (mempool_scan env ids)"
  by (induction ids) (auto intro!: steps_intros split: sum.splits)

lemma scan_heights_steps [steps_intros]: "steps (kept2 U D) (scan_heights env hs)"
  by (induction hs) (auto intro!: steps_intros)

lemma oldest_funding_steps [steps_intros]: "steps (kept2 U D) (oldest_funding env ws oldest)"
  by (induction env ws oldest rule: oldest_funding.induct)
    (auto intro!: steps_intros split: sum.splits option.splits)

lemma rescan_steps [steps_intros]: "steps (kept2 U D) (rescan_for_missed_spends env ws)"
  unfolding rescan_for_missed_spends_def scan_blocks_def
  by (auto intro!: steps_intros split: option.splits)

lemma reconcile_watch_kept:
  assumes "recorded (fst st) (w_outpoint w) \<noteq> None" "reg_ok (fst st)"
  shows "kept2 U D st (snd (reconcile_watch lib core w st))"
proof (cases "\<exists>tx. spent_tx w = Some tx \<and> in_block w")
  case False
  then have "reconcile_watch lib core w = reconcile_spend lib core w"
    by (auto simp: reconcile_watch_def split: option.splits)
  then show ?thesis using steps_app[OF reconcile_spend_steps[of U D lib core w]] by simp
next
  case True
  then obtain tx where tx: "spent_tx w = Some tx" "in_block w" by blast
  have up: "kept2 U D st' (snd (reg_q (upsert_watch (w\<lparr>in_block := False\<rparr>)) st'))"
    if "fst st' = fst st" for st'
  proof (cases "poisoned (fst st)")
    case True
    then show ?thesis using that
      by (auto simp: reg_q_def upsert_watch_def kept2_def reg_simps split: prod.splits)
  next
    case False
    then have "kept U D (fst st') (snd (upsert_watch (w\<lparr>in_block := False\<rparr>) (fst st')))"
      using upsert_kept[of "fst st'" "w\<lparr>in_block := False\<rparr>"] assms tx that by force
    then show ?thesis by (auto simp: reg_q_def kept2_def split: prod.splits)
  qed
  let ?q = "chain_q (recorded_still_mined core (w_outpoint w) (compute_txid lib tx))"
  obtain r st' where q: "?q st = (r, st')" by (rule prod.exhaust)
  then have f: "fst st' = fst st" by (auto simp: chain_q_def split: prod.splits)
  have rest: "kept2 U D st' (snd (seq (reg_q (upsert_watch (w\<lparr>in_block := False\<rparr>))) (reconcile_spend lib core w) st'))"
  proof (cases rule: bnd_cases[of "reg_q (upsert_watch (w\<lparr>in_block := False\<rparr>))" st' "\<lambda>_. reconcile_spend lib core w"])
    case (err e s')
    then show ?thesis using up[OF f] by (simp add: seq_def)
  next
    case (ok x s')
    then have "kept2 U D st' s'" using up[OF f] by simp
    then show ?thesis using steps_app[OF reconcile_spend_steps[of U D lib core w], of s'] ok(2)
      by (auto simp: seq_def kept2_def intro: kept_trans)
  qed
  have "kept2 U D st' (snd (reconcile_watch lib core w st))"
    using q tx rest by (auto simp: reconcile_watch_def bnd_def ret_def kept2_def split: sum.splits option.splits)
  then show ?thesis using f by (simp add: kept2_def)
qed

lemma retain_until_inv:
  assumes "\<And>x s. x \<in> set xs \<Longrightarrow> I s \<Longrightarrow> I (snd (f x s))" "I s"
  shows "I (snd (retain_until down f stopped xs s))"
  using assms
proof (induction down f stopped xs s rule: retain_until.induct)
  case (2 down f stopped x xs s)
  have "I (snd (f x s))" using 2 by simp
  with 2 show ?case by (auto split: prod.splits verdict.splits) (metis snd_conv)+
qed simp

lemma recorded_listed:
  "reg_ok g \<Longrightarrow> w \<in> set (map snd (watches (reg_data g))) \<Longrightarrow> recorded g (w_outpoint w) = Some w"
  by (auto simp: reg_ok_def recorded_def)

lemma list_watches_eq:
  "list_watches g = (if poisoned g then Inl WE_MutexPoison else Inr (map snd (watches (reg_data g))), g)"
  by (simp add: list_watches_def with_data_def)

lemma reconcile_check_kept:
  assumes "reg_ok g0" "ws = map snd (watches (reg_data g0))" "kept {} {} g0 (fst st)"
  shows "kept {} {} g0 (fst (snd (reconcile_check env ws p st)))"
proof (cases "find (\<lambda>w. w_outpoint w = p) ws")
  case None
  then show ?thesis using assms(3) by (simp add: reconcile_check_def)
next
  case (Some w)
  then have "w \<in> set ws" by (auto simp: find_Some_iff)
  then have "recorded g0 (w_outpoint w) = Some w" using assms(1,2) recorded_listed by blast
  then have pre: "recorded (fst st) (w_outpoint w) \<noteq> None" "reg_ok (fst st)"
    using assms(1,3) unfolding kept_def by (metis empty_iff option.distinct(1))+
  have el: "steps (kept2 {} {}) (bnd (recheck_electrum_watch (e_lib env) el w) (\<lambda>_. ret True))" for el
    by (intro steps_intros)
  have "kept {} {} (fst st) (fst (snd (reconcile_check env ws p st)))"
  proof (cases "blockchain env")
    case (CoreRPC core)
    then show ?thesis using Some reconcile_watch_kept[OF pre, of "{}" "{}" "e_lib env" core]
      by (auto simp: reconcile_check_def kept2_def split: prod.splits sum.splits bool.splits)
  next
    case (Electrum el)
    then show ?thesis using Some steps_app[OF el[of el], of st]
      by (auto simp: reconcile_check_def kept2_def split: prod.splits sum.splits bool.splits)
  qed
  then show ?thesis using assms(3) by (rule kept_trans[rotated])
qed

lemma reconcile_watches_kept:
  assumes "reg_ok (registry s)"
  shows "kept {} {} (registry s) (registry (reconcile_watches env s))"
proof -
  let ?ws = "map snd (watches (reg_data (registry s)))"
  have "kept {} {} (registry s) (fst (snd (retain_until (\<lambda>(g, t). shutdown env t) (reconcile_check env ?ws) False
      (pending_reconcile s) (registry s, clock s))))"
    by (rule retain_until_inv[where I = "\<lambda>st. kept {} {} (registry s) (fst st)"])
      (use reconcile_check_kept[OF assms] in auto)
  then show ?thesis by (auto simp: reconcile_watches_def list_watches_eq split: prod.splits)
qed

lemma kept2_trans: "kept2 U D a b \<Longrightarrow> kept2 U D b c \<Longrightarrow> kept2 U D a c"
  by (auto simp: kept2_def intro: kept_trans)

lemma discovery_check_kept: "kept2 U D st (snd (discovery_check env core h st))"
proof -
  obtain r1 st1 where q1: "chain_q (block_height core h) st = (r1, st1)" by (rule prod.exhaust)
  have k1: "kept2 U D st st1" using stepsD[OF chain_q_steps q1] .
  show ?thesis
  proof (cases r1)
    case (Inr height)
    obtain r2 st2 where q2: "chain_q (block_at_height core height) st1 = (r2, st2)" by (rule prod.exhaust)
    have k2: "kept2 U D st st2" using k1 stepsD[OF chain_q_steps q2] by (rule kept2_trans)
    show ?thesis
    proof (cases r2)
      case (Inr block)
      obtain r3 st3 where q3: "reg_q (process_block (e_lib env) (RUN_DISCOVERY env) block (Some height)) st2 = (r3, st3)"
        by (rule prod.exhaust)
      have "kept2 U D st st3"
        using k2 stepsD[OF reg_q_steps[OF process_block_steps] q3] by (rule kept2_trans)
      then show ?thesis using q1 q2 q3 \<open>r1 = Inr height\<close> Inr k2
        by (auto simp: discovery_check_def split: sum.splits)
    qed (use q1 q2 k2 Inr in \<open>simp add: discovery_check_def\<close>)
  qed (use q1 k1 in \<open>simp add: discovery_check_def\<close>)
qed

lemma retry_pending_work_kept:
  assumes "reg_ok (registry s)"
  shows "kept {} {} (registry s) (registry (retry_pending_work env s))"
proof -
  let ?s1 = "reconcile_watches env s"
  have k1: "kept {} {} (registry s) (registry ?s1)" by (rule reconcile_watches_kept[OF assms])
  have k2: "kept {} {} (registry s) (fst (snd (retain_until (\<lambda>(g, t). shutdown env t) (discovery_check env core)
      False xs (registry ?s1, t))))" for core xs t
    by (rule retain_until_inv[where I = "\<lambda>st. kept {} {} (registry s) (fst st)"])
      (use k1 discovery_check_kept in \<open>auto simp: kept2_def intro: kept_trans\<close>)
  show ?thesis
    using k1 k2 by (auto simp: retry_pending_work_def Let_def case_prod_beta split: AnyBlockchain.splits)
qed

lemma queue_registry [simp]: "registry (queue_reconcile p s) = registry s"
  by (simp add: queue_reconcile_def)

lemma queue_fold_registry [simp]: "registry (fold queue_reconcile ps s) = registry s"
  by (induction ps arbitrary: s) simp_all

lemma queue_watches_registry [simp]: "registry (queue_watches P s) = registry s"
  by (simp add: queue_watches_def split: prod.splits sum.splits)

lemma with_chain_q_registry [simp]: "registry (snd (with_chain (chain_q q) s)) = registry s"
  by (simp add: with_chain_def chain_q_def case_prod_beta)

lemma scan_connected_kept: "kept U D (registry s) (registry (scan_connected env block h s))"
  unfolding scan_connected_def by (intro with_chain_kept steps_intros)

lemma block_connected_kept: "kept U D (registry s) (registry (block_connected env b s))"
proof -
  define s1 where "s1 = (if 0 < br_height b \<and> has_watches s then s\<lparr>tip := br_height b\<rparr> else s)"
  have e: "registry s1 = registry s" by (simp add: s1_def)
  have sc: "kept U D (registry s) (registry (scan_connected env block h a))" if "registry a = registry s"
    for block h a using scan_connected_kept[of U D a] that by simp
  have t: "kept U D (registry s) (registry (snd (with_chain (reg_q (for_each txs
      (\<lambda>tx. process_transaction (e_lib env) tx True))) a)))" if "registry a = registry s" for a txs
    unfolding that[symmetric] by (intro with_chain_kept steps_intros)
  have c: "registry (snd (with_chain (chain_q (block_height core h)) s1)) = registry s" for core h
    by (simp add: e)
  show ?thesis unfolding block_connected_def s1_def[symmetric] Let_def
    using e sc t c
    by (auto simp: case_prod_beta split: option.splits AnyBlockchain.splits sum.splits)
qed

lemma handle_event_kept: "kept U D (registry s) (registry (handle_event env e s))"
  by (cases e) (auto intro: block_connected_kept with_chain_kept steps_intros split: option.splits)

lemma poll_event_registry [simp]: "registry (snd (poll_event env s)) = registry s"
  by (simp add: poll_event_def case_prod_beta split: AnyBlockchain.splits)

lemma drain_events_kept: "drain_events env s = Some s' \<Longrightarrow> kept U D (registry s) (registry s')"
proof (induction rule: drain_events.raw_induct[rotated 1, consumes 1])
  case (1 drain env s s')
  obtain r s1 where p: "poll_event env s = (r, s1)" by force
  then have r: "registry s1 = registry s" using poll_event_registry[of env s] by simp
  show ?case
  proof (cases "shutdown env (clock s) \<or> r = None")
    case True
    then show ?thesis using 1(2) p r by (auto split: if_splits)
  next
    case False
    then obtain e where e: "r = Some e" by blast
    have k: "kept U D (registry s) (registry (handle_event env e s1))" using handle_event_kept[of U D s1] r by simp
    then show ?thesis using 1 False p e by (auto split: if_splits intro: kept_trans)
  qed
qed

lemma seed_tip_registry [simp]: "registry (seed_tip env s) = registry s"
  by (simp add: seed_tip_def case_prod_beta split: sum.splits)

lemma register_watch_kept: "steps (kept U D) (register_watch p spk)"
  unfolding steps_def
proof
  fix g
  let ?w = "(case recorded g p of Some w \<Rightarrow> w
     | None \<Rightarrow> \<lparr>w_outpoint = p, w_script_pubkey = spk, in_block = False, spent_tx = None\<rparr>)\<lparr>w_script_pubkey := spk\<rparr>"
  show "kept U D g (snd (register_watch p spk g))"
  proof (cases "poisoned g \<or> \<not> reg_ok g")
    case True
    then show ?thesis by (auto simp: register_watch_def with_data_def kept_def)
  next
    case False
    then have o: "w_outpoint ?w = p" by (auto split: option.splits dest: reg_ok_recorded)
    then have "register_watch p spk g = upsert_watch ?w g"
      by (simp add: register_watch_def upsert_watch_def with_data_def Let_def recorded_def)
    moreover obtain g' where "upsert_watch ?w g = (Inr (), g')" "\<not> poisoned g'" "reg_ok g'"
      "recorded g' = (recorded g)(w_outpoint ?w \<mapsto> ?w)" by (rule upsert_watch_eff[of g ?w]) (use False in auto)
    ultimately show ?thesis using False by (auto simp: kept_def o)
  qed
qed

lemma arm_watch_kept: "kept U D (registry s) (registry (snd (arm_watch env p spk s)))"
proof -
  let ?s1 = "snd (with_chain (reg_q (register_watch p spk)) s)"
  have "kept U D (registry s) (registry ?s1)" by (intro with_chain_kept reg_q_steps register_watch_kept)
  then show ?thesis by (simp add: arm_watch_def Let_def case_prod_beta split: sum.splits)
qed

lemma arm_all_kept: "kept U D (registry s) (registry (snd (snd (arm_all env ws armed s))))"
proof (induction env ws armed s rule: arm_all.induct)
  case (2 env outpoint spk ws armed s)
  then show ?case using arm_watch_kept[of U D s env outpoint spk]
    by (auto split: prod.splits intro: kept_trans)
qed simp

lemma rescan_until_done_kept: "rescan_until_done env ws s = Some s' \<Longrightarrow> kept U D (registry s) (registry s')"
proof (induction rule: rescan_until_done.raw_induct[rotated 1, consumes 1])
  case (1 rescan env ws s s')
  obtain r s1 where p: "with_chain (rescan_for_missed_spends env ws) s = (r, s1)" by force
  have "kept U D (registry s) (registry s1)"
    using with_chain_kept[OF rescan_steps[of U D env ws], of s] p by simp
  then show ?case using 1 p by (auto split: if_splits sum.splits intro: kept_trans)
qed

text \<open>The outpoints for which the backend once answered that no confirmed spend exists.\<close>

definition denied :: "watch_env \<Rightarrow> OutPoint set" where
  "denied env = {p. \<exists>spk t. fst (any_is_confirmed_spend (blockchain env) p spk t) = Inr False}"

lemma confirm_denied:
  assumes "confirm_recorded_spend env p spk s = (False, s')"
  shows "p \<in> denied env"
proof -
  have "fst (any_is_confirmed_spend (blockchain env) p spk (clock s)) = Inr False"
    using assms by (auto simp: confirm_recorded_spend_def with_chain_def chain_q_def
        split: prod.splits sum.splits) (metis map_err_eq_Inr)
  then show ?thesis unfolding denied_def by blast
qed

lemma confirm_registry: "registry (snd (confirm_recorded_spend env p spk s)) = registry s"
  by (simp add: confirm_recorded_spend_def case_prod_beta split: sum.splits)

lemma answer_watch_kept: "kept U D (registry s) (registry (snd (answer_watch env w s)))"
proof -
  have "kept U D (registry s) (registry (snd (check_blind_watch env w s)))"
    using with_chain_kept[OF recheck_electrum_steps[of U D "e_lib env" _ w], of s]
    by (auto simp: check_blind_watch_def Let_def split: prod.splits sum.splits AnyBlockchain.splits)
      (metis snd_conv)+
  then show ?thesis by (auto simp: answer_watch_def split: prod.splits sum.splits)
qed

lemma serve_query_kept:
  assumes "reg_ok (registry s)" "\<forall>w\<in>set ws. recorded (registry s) (w_outpoint w) \<noteq> None"
  shows "kept {} ({p} \<inter> denied env) (registry s) (registry (snd (snd (serve_query env p ws spent out s))))"
  using assms
proof (induction env p ws spent out s rule: serve_query.induct)
  case (2 env p w ws spent out s)
  let ?D = "{p} \<inter> denied env"
  have dom: "reg_ok (registry s') \<and> (\<forall>w\<in>set ws. recorded (registry s') (w_outpoint w) \<noteq> None)"
    if "kept {} ?D (registry s) (registry s')" for s'
    using that 2(4,5) unfolding kept_def by (metis empty_iff list.set_intros(2) option.collapse option.distinct(1))
  show ?case
  proof (cases "shutdown env (clock s) \<or> w_outpoint w \<noteq> p")
    case True
    then show ?thesis using 2 dom[of s] by auto
  next
    case False
    let ?c = "if in_block w then confirm_recorded_spend env p (w_script_pubkey w) s else (True, s)"
    obtain b s1 where c: "?c = (b, s1)" by (rule prod.exhaust)
    have r1: "registry s1 = registry s"
      using c confirm_registry[of env p "w_script_pubkey w" s] by (auto split: if_splits)
    show ?thesis
    proof (cases b)
      case True
      obtain r s2 where a: "answer_watch env w s1 = (r, s2)" by (rule prod.exhaust)
      have k2: "kept {} ?D (registry s) (registry s2)" using answer_watch_kept[of "{}" ?D s1 env w] a r1 by simp
      show ?thesis
      proof (cases r)
        case (Inr x)
        have "kept {} ?D (registry s2) (registry (snd (snd (serve_query env p ws True
            (out @ [Event (UtxoSpent (w_outpoint w) x)]) s2))))"
          using 2(2)[OF _ _ c[symmetric] _ a[symmetric]] \<open>b\<close> False Inr dom[OF k2] by auto
        then show ?thesis using False c a \<open>b\<close> Inr kept_trans[OF k2] by auto
      qed (use False c a \<open>b\<close> k2 in auto)
    next
      case deny: False
      then have D: "p \<in> ?D" using c confirm_denied by (auto split: if_splits)
      let ?s2 = "snd (with_chain (reg_q (upsert_watch (w\<lparr>spent_tx := None, in_block := False\<rparr>))) s1)"
      have "kept {} ?D (registry s) (snd (upsert_watch (w\<lparr>spent_tx := None, in_block := False\<rparr>) (registry s)))"
      proof (cases "poisoned (registry s)")
        case True
        then show ?thesis by (simp add: upsert_watch_def reg_simps)
      next
        case np: False
        obtain v where "recorded (registry s) (w_outpoint w) = Some v" using 2(5) by auto
        then show ?thesis using upsert_kept[OF np 2(4)] D False by simp
      qed
      then have k2: "kept {} ?D (registry s) (registry ?s2)"
        by (simp add: with_chain_def reg_q_def r1 case_prod_beta)
      then have "kept {} ?D (registry ?s2) (registry (snd (snd (serve_query env p ws spent out ?s2))))"
        using 2(3)[OF _ _ c[symmetric]] deny False dom[OF k2] by auto
      then show ?thesis using False c deny kept_trans[OF k2] by auto
    qed
  qed
qed simp

lemma unwatch_kept: "kept {p} {} (registry s) (registry (unwatch env p s))"
proof -
  have "kept {p} {} g (snd (remove_watch p g))" for g
    by (auto simp: remove_watch_def with_data_def kept_def reg_ok_def recorded_def delete_conv' distinct_delete)
      (auto simp: AList.delete_eq)
  then have "steps (kept {p} {}) (remove_watch p)" by (simp add: steps_def)
  then have "kept {p} {} (registry s) (registry (snd (with_chain (reg_q (remove_watch p)) s)))"
    by (intro with_chain_kept reg_q_steps)
  then show ?thesis by (simp add: unwatch_def Let_def)
qed

fun dropped_by :: "WatcherCommand \<Rightarrow> OutPoint set" where
  "dropped_by (Unwatch p spk) = {p}"
| "dropped_by _ = {}"

fun queried_by :: "WatcherCommand \<Rightarrow> OutPoint set" where
  "queried_by (QueryWatch p) = {p}"
| "queried_by _ = {}"

lemma handle_command_kept:
  assumes "reg_ok (registry s)" "handle_command env cmd s = Some (b, out, s')"
  shows "kept (dropped_by cmd) (queried_by cmd \<inter> denied env) (registry s) (registry s')"
proof (cases cmd)
  case (RegisterWatchRequest p spk)
  then show ?thesis using assms(2) arm_watch_kept[of "{}" "{}" s env p spk]
    by (auto split: prod.splits bool.splits)
next
  case (RebuildWatches ws)
  obtain down armed s1 where a: "arm_all env ws False s = (down, armed, s1)" by (metis prod.exhaust)
  then have k: "kept {} {} (registry s) (registry s1)" using arm_all_kept[of "{}" "{}" s env ws False] by simp
  show ?thesis
  proof (cases "down \<or> is_electrum (blockchain env)")
    case True
    then show ?thesis using assms(2) RebuildWatches a k
      by (auto simp: rebuild_watches_def split: bool.splits if_splits)
  next
    case False
    then obtain s2 where r: "rescan_until_done env ws s1 = Some s2" "registry s' = registry s2"
      using assms(2) RebuildWatches a by (auto simp: rebuild_watches_def bind_eq_Some_conv split: if_splits)
    show ?thesis using kept_trans[OF k rescan_until_done_kept[OF r(1)]] RebuildWatches r(2) by simp
  qed
next
  case (QueryWatch p)
  obtain s1 where d: "drain_events env s = Some s1"
    and q: "(case list_watches (registry s1) of
       (Inl e, _) \<Rightarrow> Some (True, [Event (ErrorReply ''registry lock poisoned'')], s1)
     | (Inr ws, _) \<Rightarrow> Some (serve_query env p ws False [] s1)) = Some (b, out, s')"
    using assms(2) QueryWatch by (auto simp: query_watch_def bind_eq_Some_conv)
  have k1: "kept {} ({p} \<inter> denied env) (registry s) (registry s1)" using drain_events_kept[OF d] .
  then have ok: "reg_ok (registry s1)" using assms(1) by (simp add: kept_def)
  have "kept {} ({p} \<inter> denied env) (registry s1) (registry s')"
    using q serve_query_kept[OF ok, of "map snd (watches (reg_data (registry s1)))" p env False "[]"]
      recorded_listed[OF ok] by (auto simp: list_watches_eq split: if_splits)
  with k1 have "kept {} ({p} \<inter> denied env) (registry s) (registry s')" by (rule kept_trans)
  then show ?thesis using QueryWatch by simp
qed (use assms(2) unwatch_kept in auto)

lemma kept_ok: "kept U D g g' \<Longrightarrow> reg_ok g \<Longrightarrow> reg_ok g'"
  by (simp add: kept_def)

lemma run_commands_kept:
  assumes "reg_ok (registry s)" "run_commands env cmds s = Some (b, out, s')"
  shows "kept (\<Union>(dropped_by ` set cmds)) (\<Union>(queried_by ` set cmds) \<inter> denied env) (registry s) (registry s')"
  using assms
proof (induction cmds arbitrary: s b out)
  case (Cons cmd cmds)
  let ?U = "\<Union>(dropped_by ` set (cmd # cmds))" and ?D = "\<Union>(queried_by ` set (cmd # cmds)) \<inter> denied env"
  obtain b1 out1 s1 where h: "handle_command env cmd s = Some (b1, out1, s1)"
    using Cons.prems(2) by (auto split: option.splits)
  have k1: "kept ?U ?D (registry s) (registry s1)"
    by (rule kept_mono[OF handle_command_kept[OF Cons.prems(1) h]]) auto
  show ?case
  proof (cases "\<not> b1 \<or> shutdown env (clock s1)")
    case True
    then show ?thesis using Cons.prems(2) h k1 by (auto split: bool.splits)
  next
    case False
    then obtain out2 where r: "run_commands env cmds s1 = Some (b, out2, s')"
      using Cons.prems(2) h by (auto split: option.splits prod.splits)
    have "kept ?U ?D (registry s1) (registry s')"
      by (rule kept_mono[OF Cons.IH[OF kept_ok[OF k1 Cons.prems(1)] r]]) auto
    with k1 show ?thesis by (rule kept_trans)
  qed
qed simp

lemma loop_pass_kept:
  assumes "reg_ok (registry s)" "loop_pass env cmds s = Some (b, out, s')"
  shows "kept (\<Union>(dropped_by ` set cmds)) (\<Union>(queried_by ` set cmds) \<inter> denied env) (registry s) (registry s')"
proof (cases "shutdown env (clock s)")
  case True
  then show ?thesis using assms(2) by (simp add: loop_pass_def)
next
  case False
  then obtain b1 out1 s1 where r: "run_commands env cmds s = Some (b1, out1, s1)"
    using assms(2) by (auto simp: loop_pass_def split: option.splits)
  note k1 = run_commands_kept[OF assms(1) r]
  show ?thesis
  proof (cases b1)
    case True
    then obtain s2 where d: "drain_events env s1 = Some s2" and e: "s' = retry_pending_work env s2"
      using assms(2) r False by (auto simp: loop_pass_def bind_eq_Some_conv)
    note k2 = kept_trans[OF k1 drain_events_kept[OF d]]
    have "kept {} {} (registry s2) (registry s')"
      unfolding e by (rule retry_pending_work_kept[OF kept_ok[OF k2 assms(1)]])
    from kept_trans[OF k2 kept_mono[OF this]] show ?thesis by simp
  qed (use assms(2) r False k1 in \<open>auto simp: loop_pass_def\<close>)
qed

section \<open>The drain ends\<close>

text \<open>From some moment on the backend has nothing more to report.\<close>

definition quiet :: "watch_env \<Rightarrow> nat \<Rightarrow> bool" where
  "quiet env t \<longleftrightarrow> (case blockchain env of
     Electrum el \<Rightarrow> el_poll_event el t = None
   | CoreRPC core \<Rightarrow> zmq_recv env t = Again)"

lemma with_chain_zmq [simp]: "zmq (snd (with_chain m s)) = zmq s"
  by (simp add: with_chain_def case_prod_beta)

lemma with_chain_reg_clock [simp]: "clock (snd (with_chain (reg_q m) s)) = clock s"
  by (simp add: with_chain_def reg_q_def case_prod_beta)

lemma handle_event_frame: "clock s \<le> clock (handle_event env e s) \<and> zmq (handle_event env e s) = zmq s"
proof -
  have c: "clock (snd (with_chain (chain_q (block_height core h)) a)) = Suc (clock a)" for core h a
    by (simp add: with_chain_def chain_q_def block_height_def ask_def case_prod_beta)
  have q: "clock (fold queue_reconcile ps a) = clock a \<and> zmq (fold queue_reconcile ps a) = zmq a" for ps a
    by (induction ps arbitrary: a) (simp_all add: queue_reconcile_def)
  have qw: "clock (queue_watches P a) = clock a \<and> zmq (queue_watches P a) = zmq a" for P a
    by (simp add: queue_watches_def q split: prod.splits sum.splits)
  have sc: "clock (scan_connected env block h a) = clock a \<and> zmq (scan_connected env block h a) = zmq a" for block h a
    by (simp add: scan_connected_def)
  show ?thesis
  proof (cases e)
    case (BlockConnected b)
    then show ?thesis
      by (simp add: block_connected_def Let_def sc c case_prod_beta split: option.split AnyBlockchain.split sum.split)
  qed (use qw in \<open>auto split: option.splits\<close>)
qed

lemma poll_clock: "clock (snd (poll_event env s)) = Suc (clock s)"
  by (simp add: poll_event_def case_prod_beta split: AnyBlockchain.splits)

lemma poll_quiet:
  assumes "quiet env (clock s)" "poll_event env s = (Some e, s1)"
  shows "missed (zmq s) \<and> \<not> missed (zmq s1)"
proof (cases "blockchain env")
  case (Electrum el)
  then show ?thesis using assms by (simp add: quiet_def poll_event_def)
next
  case (CoreRPC core)
  let ?z = "zmq s"
  have z: "core_poll_event (zmq_open env (clock s)) Again ?z = (Some e, zmq s1)"
    using assms CoreRPC by (auto simp: quiet_def poll_event_def split: prod.splits)
  have n: "missed (snd (recv_event o' Again a)) = missed a \<and> fst (recv_event o' Again a) = None \<and>
      zmq_poisoned (snd (recv_event o' Again a)) = zmq_poisoned a" for o' a
    by (auto simp: recv_event_def ensure_connected_def split: sum.splits)
  show ?thesis
  proof (cases "zmq_poisoned ?z \<or> \<not> missed ?z")
    case True
    then show ?thesis using z n[of "zmq_open env (clock s)" "snd (take_missed ?z)"]
      by (auto simp: core_poll_event_def take_missed_def split: prod.splits option.splits if_splits)
  next
    case False
    then have "zmq s1 = ?z\<lparr>missed := False\<rparr>" using z by (simp add: core_poll_event_def take_missed_def)
    then show ?thesis using False by simp
  qed
qed

lemma drain_ends:
  assumes "\<forall>t\<ge>N. quiet env t"
  shows "\<exists>s'. drain_events env s = Some s'"
proof (induction s rule: measure_induct_rule[where f = "\<lambda>s. 2 * (N - clock s) + (if missed (zmq s) then 1 else 0)"])
  case (less s)
  obtain r s1 where p: "poll_event env s = (r, s1)" by (rule prod.exhaust)
  have c: "clock s1 = Suc (clock s)" using poll_clock[of env s] p by simp
  show ?case
  proof (cases "shutdown env (clock s) \<or> r = None \<or> r = Some Unreachable")
    case True
    then show ?thesis using p by (subst drain_events.simps) auto
  next
    case False
    then obtain e where e: "r = Some e" "e \<noteq> Unreachable" by auto
    let ?s2 = "handle_event env e s1"
    have f: "clock s1 \<le> clock ?s2" "zmq ?s2 = zmq s1" using handle_event_frame[of s1 env e] by auto
    have "2 * (N - clock ?s2) + (if missed (zmq ?s2) then 1 else 0) <
        2 * (N - clock s) + (if missed (zmq s) then 1 else (0::nat))"
    proof (cases "clock s < N")
      case True
      then show ?thesis using c f by auto
    next
      case late: False
      then show ?thesis using poll_quiet[of env s e s1] assms p e c f by auto
    qed
    from less[OF this] show ?thesis using False p e by (subst drain_events.simps) auto
  qed
qed

section \<open>The retry queue is fair\<close>

text \<open>
  One pass over a queue whose check of \<open>x\<close> succeeds whenever it is made: either \<open>x\<close> leaves, or
  the pass stopped before it and the rotation brought it one place forward.
\<close>

lemma retain_stopped: "retain_until down f True xs s = ((xs, True), s)"
  by (induction xs) simp_all

definition pass_queue :: "('s \<Rightarrow> bool) \<Rightarrow> ('x \<Rightarrow> 's \<Rightarrow> verdict \<times> 's) \<Rightarrow> 'x list \<Rightarrow> 's \<Rightarrow> 'x list" where
  "pass_queue down f xs s =
     (case retain_until down f False xs s of ((ys, stopped), _) \<Rightarrow> if stopped then rotate1 ys else ys)"

lemma pass_queue_shape:
  assumes "\<And>s. \<not> down s" "\<And>y s. fst (f y s) \<noteq> Keep" "\<And>y s. I s \<Longrightarrow> I (snd (f y s))" "I s"
  shows "pass_queue down f xs s = [] \<or>
    (\<exists>as y bs. xs = as @ y # bs \<and> pass_queue down f xs s = bs @ [y] \<and> (\<exists>s'. I s' \<and> fst (f y s') = Stop))"
  using assms(4)
proof (induction xs arbitrary: s)
  case (Cons x xs)
  obtain v s1 where v: "f x s = (v, s1)" by (rule prod.exhaust)
  then have I1: "I s1" using assms(3)[OF Cons.prems, of x] by simp
  show ?case
  proof (cases v)
    case Drop
    then have "pass_queue down f (x # xs) s = pass_queue down f xs s1"
      using v assms(1) by (simp add: pass_queue_def)
    then show ?thesis using Cons.IH[OF I1] by (metis append_Cons)
  next
    case Keep
    then show ?thesis using v assms(2)[of x s] by simp
  next
    case Stop
    then have "pass_queue down f (x # xs) s = xs @ [x]"
      using v assms(1) by (simp add: pass_queue_def retain_stopped)
    moreover have "fst (f x s) = Stop" using v Stop by simp
    ultimately show ?thesis using Cons.prems by blast
  qed
qed (simp add: pass_queue_def)

text \<open>The places in front of \<open>x\<close>, one more than none when it waits.\<close>

definition places :: "'x \<Rightarrow> 'x list \<Rightarrow> nat" where
  "places x xs = (if x \<in> set xs then Suc (length (takeWhile (\<lambda>y. y \<noteq> x) xs)) else 0)"

lemma places_le: "places x xs \<le> length xs"
  unfolding places_def by (induction xs) auto

lemma pass_queue_forward:
  assumes "\<And>s. \<not> down s" "\<And>y s. fst (f y s) \<noteq> Keep" "\<And>y s. I s \<Longrightarrow> I (snd (f y s))" "I s"
    "\<And>s. I s \<Longrightarrow> fst (f x s) = Drop" "distinct xs"
  shows "distinct (pass_queue down f xs s) \<and> places x (pass_queue down f xs s) \<le> places x xs - 1"
proof -
  consider "pass_queue down f xs s = []"
    | as y bs where "xs = as @ y # bs" "pass_queue down f xs s = bs @ [y]" "y \<noteq> x"
    using pass_queue_shape[of down f I s xs, OF assms(1-4)] assms(5) by fastforce
  then show ?thesis
  proof cases
    case (2 as y bs)
    have d: "distinct (bs @ [y])" using 2(1) assms(6) by auto
    show ?thesis
    proof (cases "x \<in> set bs")
      case True
      then have "places x xs = length as + 1 + places x bs"
        using 2(1) assms(6) by (auto simp: places_def takeWhile_append)
      moreover have "places x (bs @ [y]) = places x bs" using True by (simp add: places_def)
      ultimately show ?thesis using 2(2) d by simp
    next
      case False
      then have "places x (bs @ [y]) = 0" using 2(3) by (simp add: places_def)
      then show ?thesis using 2(2) d by simp
    qed
  qed (simp add: places_def)
qed

lemma reconcile_check_not_keep: "fst (reconcile_check env ws p st) \<noteq> Keep"
  by (auto simp: reconcile_check_def split: option.splits prod.splits sum.splits bool.splits)

lemma reconcile_pending:
  "\<not> poisoned (registry s) \<Longrightarrow> pending_reconcile (reconcile_watches env s) =
     pass_queue (\<lambda>(g, t). shutdown env t) (reconcile_check env (map snd (watches (reg_data (registry s)))))
       (pending_reconcile s) (registry s, clock s)"
  by (auto simp: reconcile_watches_def list_watches_eq pass_queue_def split: prod.splits)

text \<open>The backend settles every check of \<open>p\<close> it is asked for.\<close>

definition settles :: "watch_env \<Rightarrow> OutPoint \<Rightarrow> bool" where
  "settles env p \<longleftrightarrow> (\<forall>w g t. w_outpoint w = p \<longrightarrow> \<not> poisoned g \<longrightarrow>
     (case blockchain env of
        CoreRPC core \<Rightarrow> fst (reconcile_watch (e_lib env) core w (g, t)) = Inr True
      | Electrum el \<Rightarrow> is_ok (fst (recheck_electrum_watch (e_lib env) el w (g, t)))))"

lemma reconcile_forward:
  assumes "\<forall>t. \<not> shutdown env t" "reg_ok (registry s)" "\<not> poisoned (registry s)" "settles env p"
    "distinct (pending_reconcile s)"
  shows "distinct (pending_reconcile (reconcile_watches env s)) \<and>
    places p (pending_reconcile (reconcile_watches env s)) \<le> places p (pending_reconcile s) - 1"
proof -
  let ?ws = "map snd (watches (reg_data (registry s)))"
  let ?I = "\<lambda>st. kept {} {} (registry s) (fst st)"
  have drop: "fst (reconcile_check env ?ws p st) = Drop" if "?I st" for st
  proof (cases "find (\<lambda>w. w_outpoint w = p) ?ws")
    case (Some w)
    then have w: "w_outpoint w = p" by (auto simp: find_Some_iff)
    have np: "\<not> poisoned (fst st)" using that assms(3) by (simp add: kept_def)
    obtain g t where st: "st = (g, t)" by (rule prod.exhaust)
    note set = assms(4)[unfolded settles_def, rule_format, OF w, of g t]
    show ?thesis
    proof (cases "blockchain env")
      case (CoreRPC core)
      then have "fst (reconcile_watch (e_lib env) core w st) = Inr True" using set np st by simp
      then show ?thesis using Some CoreRPC by (cases "reconcile_watch (e_lib env) core w st") (simp add: reconcile_check_def)
    next
      case (Electrum el)
      then obtain x where "fst (recheck_electrum_watch (e_lib env) el w st) = Inr x"
        using set np st by (auto simp: is_ok_iff)
      then show ?thesis using Some Electrum
        by (cases "recheck_electrum_watch (e_lib env) el w st") (simp add: reconcile_check_def bnd_def ret_def)
    qed
  qed (simp add: reconcile_check_def)
  show ?thesis unfolding reconcile_pending[OF assms(3)]
    by (rule pass_queue_forward[where I = ?I])
      (use assms drop reconcile_check_not_keep reconcile_check_kept[OF assms(2) refl] in auto)
qed

lemma reconcile_iterate:
  assumes "\<forall>t. \<not> shutdown env t" "settles env p" "reg_ok (registry s)" "\<not> poisoned (registry s)"
    "distinct (pending_reconcile s)"
  shows "places p (pending_reconcile ((reconcile_watches env ^^ n) s)) \<le> places p (pending_reconcile s) - n"
proof -
  have "reg_ok (registry ((reconcile_watches env ^^ n) s)) \<and> \<not> poisoned (registry ((reconcile_watches env ^^ n) s)) \<and>
    distinct (pending_reconcile ((reconcile_watches env ^^ n) s)) \<and>
    places p (pending_reconcile ((reconcile_watches env ^^ n) s)) \<le> places p (pending_reconcile s) - n"
  proof (induction n)
    case (Suc n)
    let ?s = "(reconcile_watches env ^^ n) s"
    have "kept {} {} (registry ?s) (registry (reconcile_watches env ?s))"
      using reconcile_watches_kept Suc by blast
    then show ?case using Suc reconcile_forward[of env ?s p] assms(1,2) by (auto simp: kept_def)
  qed (use assms in simp)
  then show ?thesis by blast
qed

section \<open>Lost notifications are reported\<close>

text \<open>
  The events of a run of polls over what the socket returns, with the last poll finding the
  socket empty. A poll that reports a loss does not read the socket.
\<close>

fun feed :: "zmq_result list \<Rightarrow> ZmqState \<Rightarrow> WatchEvent list" where
  "feed [] z = (case fst (core_poll_event (Inr ()) Again z) of Some e \<Rightarrow> [e] | None \<Rightarrow> [])"
| "feed (r # rs) z =
     (if missed z then
        (case core_poll_event (Inr ()) r z of (e, z) \<Rightarrow>
         case core_poll_event (Inr ()) r z of (e', z) \<Rightarrow>
           (case e of Some x \<Rightarrow> [x] | None \<Rightarrow> []) @ (case e' of Some x \<Rightarrow> [x] | None \<Rightarrow> []) @ feed rs z)
      else
        (case core_poll_event (Inr ()) r z of (e, z) \<Rightarrow>
           (case e of Some x \<Rightarrow> [x] | None \<Rightarrow> []) @ feed rs z))"

definition topic_event :: "string \<Rightarrow> bytes \<Rightarrow> WatchEvent list" where
  "topic_event topic body =
     (if topic = ''rawtx'' then [TxSeen body]
      else if topic = ''rawblock'' then [BlockConnected \<lparr>br_height = 0, br_hash = body\<rparr>] else [])"

text \<open>
  What must be reported: each message, a loss right after a message whose number does not
  follow its topic's last one, and a loss for a garbled message or a failed read.
\<close>

fun expected :: "(string \<Rightarrow> u32 option) \<Rightarrow> zmq_result list \<Rightarrow> WatchEvent list" where
  "expected m [] = []"
| "expected m (Again # rs) = expected m rs"
| "expected m (ZmqFailed # rs) = Missed # expected m rs"
| "expected m (Frames fs # rs) =
     (case fs of
        [t, body, sq] \<Rightarrow>
          (case u32_from_le_bytes sq of
             Some n \<Rightarrow>
               let topic = from_utf8_lossy t in
               topic_event topic body @
               (case m topic of
                  Some l \<Rightarrow> if n = (l + 1) mod 2 ^ 32 then [] else [Missed]
                | None \<Rightarrow> []) @
               expected (m(topic \<mapsto> n)) rs
           | None \<Rightarrow> Missed # expected m rs)
      | _ \<Rightarrow> Missed # expected m rs)"

lemma poll_after_loss:
  "\<not> zmq_poisoned z \<Longrightarrow> missed z \<Longrightarrow> core_poll_event c r z = (Some Missed, z\<lparr>missed := False\<rparr>)"
  by (simp add: core_poll_event_def take_missed_def)

text \<open>One poll of a state with no loss pending, by what the socket returns.\<close>

lemma poll_clear:
  assumes "\<not> zmq_poisoned z" "\<not> missed z" "core_poll_event (Inr ()) r z = (e, z')"
  shows "\<not> zmq_poisoned z' \<and> expected (map_of (last_sequence z)) (r # rs) =
    (case e of Some x \<Rightarrow> [x] | None \<Rightarrow> []) @ (if missed z' then [Missed] else []) @
    expected (map_of (last_sequence z')) rs"
proof -
  let ?z = "z\<lparr>socket := True\<rparr>"
  have c: "take_missed z = (False, z)" "ensure_connected (Inr ()) z = (Inr (), ?z)"
    using assms(1,2) by (auto simp: take_missed_def ensure_connected_def)
  show ?thesis
  proof (cases "\<exists>t b sq n. r = Frames [t, b, sq] \<and> u32_from_le_bytes sq = Some n")
    case True
    then obtain t b sq n where r: "r = Frames [t, b, sq]" "u32_from_le_bytes sq = Some n" by blast
    define topic where "topic = from_utf8_lossy t"
    define lost where "lost = (case map_of (last_sequence z) topic of Some l \<Rightarrow> n \<noteq> (l + 1) mod 2 ^ 32 | None \<Rightarrow> False)"
    have rv: "recv_event (Inr ()) r z = (Some (topic, b),
        ?z\<lparr>last_sequence := AList.update topic n (last_sequence z), missed := lost\<rparr>)"
      using assms(2) by (simp add: recv_event_def c r Let_def wrapping_add32_def lost_def topic_def split: option.split)
    have "z' = ?z\<lparr>last_sequence := AList.update topic n (last_sequence z), missed := lost\<rparr>"
      "(case e of Some x \<Rightarrow> [x] | None \<Rightarrow> []) = topic_event topic b"
      using assms(3) by (auto simp: core_poll_event_def c rv topic_event_def)
    moreover have "(case map_of (last_sequence z) topic of
        Some l \<Rightarrow> if n = (l + 1) mod 2 ^ 32 then [] else [Missed] | None \<Rightarrow> []) = (if lost then [Missed] else [])"
      by (simp add: lost_def split: option.split)
    ultimately show ?thesis using assms(1) r by (simp add: topic_def[symmetric] Let_def update_conv')
  next
    case False
    then have x: "expected (map_of (last_sequence z)) (r # rs) = (if r = Again then [] else [Missed]) @
        expected (map_of (last_sequence z)) rs"
      by (cases r) (auto split: list.split option.split)
    have rv: "fst (recv_event (Inr ()) r z) = None"
      "missed (snd (recv_event (Inr ()) r z)) = (r \<noteq> Again)"
      "last_sequence (snd (recv_event (Inr ()) r z)) = last_sequence z"
      "\<not> zmq_poisoned (snd (recv_event (Inr ()) r z))"
      using False assms(1,2) by (cases r; auto simp: recv_event_def c split: list.split option.split)+
    obtain z2 where z2: "recv_event (Inr ()) r z = (None, z2)" using rv(1) by (metis prod.collapse)
    then have "take_missed z2 = (r \<noteq> Again, z2\<lparr>missed := False\<rparr>)" using rv by (simp add: take_missed_def)
    then have "e = (if r = Again then None else Some Missed)" "z' = z2\<lparr>missed := False\<rparr>"
      using assms(3) z2 by (auto simp: core_poll_event_def c split: if_splits)
    then show ?thesis using x rv z2 by simp
  qed
qed

lemma feed_expected:
  assumes "\<not> zmq_poisoned z"
  shows "feed rs z = (if missed z then [Missed] else []) @ expected (map_of (last_sequence z)) rs"
  using assms
proof (induction rs arbitrary: z)
  case Nil
  then show ?case
    by (auto simp: core_poll_event_def take_missed_def recv_event_def ensure_connected_def)
next
  case (Cons r rs)
  define z0 where "z0 = z\<lparr>missed := False\<rparr>"
  obtain e z1 where p: "core_poll_event (Inr ()) r z0 = (e, z1)" by (rule prod.exhaust)
  have z0: "\<not> zmq_poisoned z0" "\<not> missed z0" "last_sequence z0 = last_sequence z"
    using Cons.prems by (simp_all add: z0_def)
  note step = poll_clear[OF z0(1,2) p, of rs]
  have same: "\<not> missed z \<Longrightarrow> z0 = z" by (simp add: z0_def)
  have "feed (r # rs) z = (if missed z then [Missed] else []) @ (case e of Some x \<Rightarrow> [x] | None \<Rightarrow> []) @ feed rs z1"
    using p same poll_after_loss[OF Cons.prems, of "Inr ()" r] by (cases "missed z") (simp_all add: z0_def[symmetric])
  then show ?case using step Cons.IH[of z1] z0(3) by simp
qed

section \<open>Queries\<close>

lemma serve_query_skip:
  "\<forall>w\<in>set ws. w_outpoint w \<noteq> p \<Longrightarrow> serve_query env p ws spent out s =
     (if ws \<noteq> [] \<and> shutdown env (clock s) then (False, out, s)
      else (True, if spent then out else out @ [Event NoOutpoint], s))"
  by (induction ws) auto

lemma check_blind_spend:
  assumes "reg_ok (registry s)" "recorded (registry s) (w_outpoint w) = Some w" "spent_tx w \<noteq> None"
    "check_blind_watch env w s = (Inr r, s')"
  shows "r \<noteq> None"
proof (cases "blockchain env")
  case (CoreRPC core)
  then show ?thesis using assms by (auto simp: check_blind_watch_def)
next
  case (Electrum el)
  obtain x s1 where c: "with_chain (recheck_electrum_watch (e_lib env) el w) s = (x, s1)" by (rule prod.exhaust)
  have k: "kept {} {} (registry s) (registry s1)"
    using with_chain_kept[OF recheck_electrum_steps[of "{}" "{}" "e_lib env" el w], of s] c by simp
  then obtain w' where w': "recorded (registry s1) (w_outpoint w) = Some w'" "spent_tx w' \<noteq> None"
    using assms unfolding kept_def by (metis empty_iff)
  have ok: "reg_ok (registry s1)" using kept_ok[OF k assms(1)] .
  let ?ws = "map snd (watches (reg_data (registry s1)))"
  have r: "r = Option.bind (find (\<lambda>v. w_outpoint v = w_outpoint w) ?ws) spent_tx"
    using assms(4) c Electrum
    by (auto simp: check_blind_watch_def Let_def list_watches_eq split: sum.splits if_splits)
  have "w' \<in> set ?ws" using w'(1) by (force simp: recorded_def dest: map_of_SomeD)
  then obtain v where v: "find (\<lambda>v. w_outpoint v = w_outpoint w) ?ws = Some v"
    using reg_ok_recorded[OF ok w'(1)] by (metis (mono_tags, lifting) find_None_iff option.exhaust)
  then have "v \<in> set ?ws" "w_outpoint v = w_outpoint w" by (auto simp: find_Some_iff)
  then have "v = w'" using recorded_listed[OF ok, of v] w'(1) by simp
  then show ?thesis using r v w'(2) by simp
qed

lemma in_listed:
  assumes "reg_ok g" "recorded g p = Some w"
  obtains as bs where "map snd (watches (reg_data g)) = as @ w # bs"
    "\<forall>v\<in>set as \<union> set bs. w_outpoint v \<noteq> p" "w_outpoint w = p"
proof -
  have o: "w_outpoint w = p" using reg_ok_recorded[OF assms] .
  have "(p, w) \<in> set (watches (reg_data g))" using assms(2) by (simp add: recorded_def map_of_SomeD)
  then obtain xs ys where xs: "watches (reg_data g) = xs @ (p, w) # ys" by (meson split_list)
  have "fst x \<noteq> p \<and> w_outpoint (snd x) = fst x" if "x \<in> set xs \<union> set ys" for x
    using assms(1) that by (fastforce simp: reg_ok_def xs case_prod_beta)
  then have "\<forall>v\<in>set (map snd xs) \<union> set (map snd ys). w_outpoint v \<noteq> p" by fastforce
  then show thesis using that[of "map snd xs" "map snd ys"] o xs by simp
qed

lemma serve_query_prefix:
  "\<forall>v\<in>set as. w_outpoint v \<noteq> p \<Longrightarrow> serve_query env p (as @ ws) spent out s =
     (if as \<noteq> [] \<and> shutdown env (clock s) then (False, out, s) else serve_query env p ws spent out s)"
  by (induction as) auto

text \<open>The reply to one query: the matching watch decides it alone.\<close>

lemma serve_query_once:
  assumes "reg_ok (registry s)" "serve_query env p (map snd (watches (reg_data (registry s)))) False [] s = (True, out, s')"
  shows "\<exists>ev. out = [Event ev] \<and> (recorded (registry s) p = None \<longrightarrow> ev = NoOutpoint) \<and>
    (\<forall>w. recorded (registry s) p = Some w \<longrightarrow> spent_tx w \<noteq> None \<longrightarrow> p \<notin> denied env \<longrightarrow>
       (\<exists>tx. ev = UtxoSpent p (Some tx)))"
proof (cases "recorded (registry s) p")
  case None
  then have "\<forall>w\<in>set (map snd (watches (reg_data (registry s)))). w_outpoint w \<noteq> p"
    using recorded_listed[OF assms(1)] by fastforce
  from serve_query_skip[OF this, of env False "[]" s] show ?thesis
    using assms(2) None by (auto split: if_splits)
next
  case (Some w)
  obtain as bs where l: "map snd (watches (reg_data (registry s))) = as @ w # bs"
    "\<forall>v\<in>set as \<union> set bs. w_outpoint v \<noteq> p" "w_outpoint w = p" by (rule in_listed[OF assms(1) Some])
  have sq: "serve_query env p (w # bs) False [] s = (True, out, s')"
    using assms(2) serve_query_prefix[of as p env "w # bs" False "[]" s] l by (auto split: if_splits)
  let ?c = "if in_block w then confirm_recorded_spend env p (w_script_pubkey w) s else (True, s)"
  obtain b s1 where c: "?c = (b, s1)" by (rule prod.exhaust)
  have r1: "registry s1 = registry s"
    using c confirm_registry[of env p "w_script_pubkey w" s] by (auto split: if_splits)
  have skip: "serve_query env p bs sp o' a = (True, out, s') \<Longrightarrow> out = (if sp then o' else o' @ [Event NoOutpoint])"
    for sp o' a using serve_query_skip[of bs p env sp o' a] l(2) by (auto split: if_splits)
  show ?thesis
  proof (cases b)
    case False
    then have "p \<in> denied env" using c confirm_denied by (auto split: if_splits)
    moreover have "out = [Event NoOutpoint]" using sq c False by (auto simp: l(3) split: if_splits dest: skip)
    ultimately show ?thesis using Some by auto
  next
    case True
    obtain r s2 where a: "answer_watch env w s1 = (r, s2)" by (rule prod.exhaust)
    have "spent_tx w \<noteq> None \<Longrightarrow> \<exists>tx. r = Inr (Some tx)"
      using a check_blind_spend[of s1 w env] assms(1) Some l(3) r1
      by (auto simp: answer_watch_def split: if_splits prod.splits sum.splits)
    moreover have "out = [Event (case r of Inl e \<Rightarrow> ErrorReply ''spend unknown'' | Inr x \<Rightarrow> UtxoSpent p x)]"
      using sq c True a by (auto simp: l(3) split: if_splits sum.splits dest: skip)
    ultimately show ?thesis using Some by auto
  qed
qed

text \<open>A confirmed record is only touched when the node no longer reports the spend as mined.\<close>

lemma recorded_still_mined_None:
  assumes "fst (recorded_still_mined core p i t) = Inr None"
  shows "(\<exists>info. rpc_raw_transaction_info core t i = Inr info \<and> ti_confirmations info \<in> {None, Some 0}) \<or>
    (\<exists>e. rpc_raw_transaction_info core t i = Inl e \<and> is_unknown e) \<and>
    (rpc_txindex_synced core (Suc t) = Inr (Some True) \<or>
     (\<exists>x. rpc_tx_out core (Suc (Suc t)) (txid p) (vout p) (Some False) = Inr (Some x)))"
  using assms
  by (auto simp: recorded_still_mined_def tx_confirmations_def txindex_synced_def get_tx_out_def
      bnd_def ask_raw_def ask_def ret_def fail_def map_err_eq_Inr
      split: sum.splits option.splits if_splits prod.splits)

lemma reconcile_changes:
  assumes "in_block w" "spent_tx w = Some tx" "reconcile_watch lib core w (g, t) = (r, (g', t'))" "g' \<noteq> g"
  shows "fst (recorded_still_mined core (w_outpoint w) (compute_txid lib tx) t) = Inr None"
proof -
  let ?q = "recorded_still_mined core (w_outpoint w) (compute_txid lib tx)"
  obtain x t1 where q: "?q t = (x, t1)" by (rule prod.exhaust)
  show ?thesis
  proof (rule ccontr)
    assume "fst (?q t) \<noteq> Inr None"
    then have "(\<exists>e. x = Inl e) \<or> (\<exists>b. x = Inr (Some b))" using q by (cases x) auto
    then have "g' = g" using assms(1-3) q
      by (auto simp: reconcile_watch_def bnd_def chain_q_def ret_def)
    then show False using assms(4) by simp
  qed
qed

section \<open>Properties\<close>

text \<open>A watch tower on an Electrum server that always answers and reports no spend.\<close>

definition demo_electrum :: electrum_client where
  "demo_electrum = \<lparr>el_subscribe = \<lambda>t spk p. Inr (), el_may_have_missed = \<lambda>t spk. False,
     el_live_spending_transaction = \<lambda>t p spk. Inr None, el_is_confirmed_spend = \<lambda>t p spk. Inr True,
     el_tx_block_height = \<lambda>t i. Inr None, el_block_count = \<lambda>t. Inr 800000,
     el_raw_transaction = \<lambda>t i. Inl (WBackend ''unknown''), el_poll_event = \<lambda>t. None\<rparr>"

definition demo_env :: watch_env where
  "demo_env = \<lparr>e_lib = ref_lib, RUN_DISCOVERY = False, blockchain = Electrum demo_electrum,
     shutdown = \<lambda>t. False, deserialize_tx = \<lambda>b. None, deserialize_block = \<lambda>b. None,
     zmq_open = \<lambda>t. Inr (), zmq_recv = \<lambda>t. Again\<rparr>"

definition demo_point :: OutPoint where
  "demo_point = \<lparr>txid = 7, vout = 0\<rparr>"

definition demo_watch :: WatchRequest where
  "demo_watch = \<lparr>w_outpoint = demo_point, w_script_pubkey = [], in_block = True, spent_tx = Some (demo_tx demo_point 1)\<rparr>"

definition demo_watcher :: Watcher where
  "demo_watcher = \<lparr>registry = demo_registry demo_watch, pending_subscribes = [], pending_block_discovery = [],
     pending_reconcile = [demo_point], tip = 0,
     zmq = \<lparr>socket = False, last_sequence = [], missed = False, zmq_poisoned = False\<rparr>, clock = 0\<rparr>"

lemma demo_watcher_ok:
  "reg_ok (registry demo_watcher) \<and> \<not> poisoned (registry demo_watcher) \<and>
   recorded (registry demo_watcher) demo_point = Some demo_watch"
  using demo_registry_ok[of demo_watch] by (simp add: demo_watcher_def) (simp add: demo_watch_def)



text \<open>
  C27 The re-check queue is fair: an outpoint whose checks the backend answers leaves the queue
  within as many passes as the queue is long, even if the checks of all the others fail in
  every pass.
\<close>

theorem reconcile_fair:
  assumes "\<forall>t. \<not> shutdown env t" "settles env p" "reg_ok (registry s)" "\<not> poisoned (registry s)"
    "distinct (pending_reconcile s)"
  shows "p \<notin> set (pending_reconcile ((reconcile_watches env ^^ length (pending_reconcile s)) s))"
  using reconcile_iterate[OF assms, of "length (pending_reconcile s)"] places_le[of p "pending_reconcile s"]
  by (auto simp: places_def split: if_splits)

theorem reconcile_fair_witness:
  "pending_reconcile (reconcile_watches demo_env demo_watcher) = []"
proof -
  have "settles demo_env demo_point"
    by (auto simp: settles_def demo_env_def demo_electrum_def recheck_electrum_watch_def chain_q_def
        el_ask_def bnd_def ret_def)
  moreover have l: "length (pending_reconcile demo_watcher) = 1" "distinct (pending_reconcile demo_watcher)"
    by (simp_all add: demo_watcher_def)
  moreover have "\<forall>t. \<not> shutdown demo_env t" by (simp add: demo_env_def)
  ultimately have "demo_point \<notin> set (pending_reconcile (reconcile_watches demo_env demo_watcher))"
    using reconcile_fair[of demo_env demo_point demo_watcher] demo_watcher_ok by simp
  moreover have "set (pending_reconcile (reconcile_watches demo_env demo_watcher)) \<subseteq> {demo_point}"
    by (auto simp: reconcile_watches_def demo_watcher_def list_watches_eq split: prod.splits sum.splits verdict.splits)
  ultimately show ?thesis by (cases "pending_reconcile (reconcile_watches demo_env demo_watcher)") auto
qed

text \<open>
  C28 Draining the backend's events ends: if from some moment on the backend has nothing more to
  report, the drain returns, whatever events came before and whatever they made the watch
  tower do.
\<close>

theorem drain_terminates:
  assumes "\<forall>t\<ge>N. quiet env t"
  shows "\<exists>s'. drain_events env s = Some s'"
  using drain_ends[OF assms] .

theorem drain_terminates_witness:
  "\<exists>s'. drain_events demo_env demo_watcher = Some s'"
  by (rule drain_terminates[of 0]) (simp add: quiet_def demo_env_def demo_electrum_def)

text \<open>
  C29 No lost notification goes unreported: over any run of socket reads, the events are exactly
  the messages received, with a loss reported right after each message whose number does not
  follow the last one of its topic, modulo the width of the counter, and in place of each garbled message and
  failed read.
\<close>

theorem loss_reported:
  assumes "\<not> zmq_poisoned z" "\<not> missed z"
  shows "feed rs z = expected (map_of (last_sequence z)) rs"
  using feed_expected[OF assms(1)] assms(2) by simp

theorem loss_reported_witness:
  "feed [ZmqFailed] \<lparr>socket = False, last_sequence = [], missed = False, zmq_poisoned = False\<rparr> = [Missed]"
  by (subst loss_reported) simp_all



text \<open>
  C31 A re-check changes a spend on record as confirmed only on the node's word: the node reports
  the transaction without confirmations, or does not know it while its transaction index is
  complete or the watched output is unspent again.
\<close>

theorem confirmed_record_needs_evidence:
  assumes "in_block w" "spent_tx w = Some tx" "reconcile_watch lib core w (g, t) = (r, (g', t'))" "g' \<noteq> g"
  shows "(\<exists>info. rpc_raw_transaction_info core t (compute_txid lib tx) = Inr info \<and>
            ti_confirmations info \<in> {None, Some 0}) \<or>
    (\<exists>e. rpc_raw_transaction_info core t (compute_txid lib tx) = Inl e \<and> is_unknown e) \<and>
    (rpc_txindex_synced core (Suc t) = Inr (Some True) \<or>
     (\<exists>x. rpc_tx_out core (Suc (Suc t)) (txid (w_outpoint w)) (vout (w_outpoint w)) (Some False) = Inr (Some x)))"
  using recorded_still_mined_None[OF reconcile_changes[OF assms]] .

definition demo_core :: core_rpc where
  "demo_core = \<lparr>rpc_raw_transaction_info = \<lambda>t i. Inr \<lparr>ti_blockhash = None, ti_confirmations = Some 0\<rparr>,
     rpc_raw_transaction = \<lambda>t i. Inl (RpcFailure ''no''), rpc_block_header_info = \<lambda>t h. Inr 5,
     rpc_block_count = \<lambda>t. Inr 5, rpc_block_hash = \<lambda>t h. Inr [], rpc_block = \<lambda>t h. Inl (RpcFailure ''no''),
     rpc_tx_out = \<lambda>t i n m. Inr (Some \<lparr>to_confirmations = 1, to_value = 9\<rparr>), rpc_mempool_entry = \<lambda>t i. Inr (),
     rpc_spending_prevout = \<lambda>t p. Inr [None], rpc_raw_mempool = \<lambda>t. Inr [], rpc_txindex_synced = \<lambda>t. Inr (Some True)\<rparr>"

theorem confirmed_record_needs_evidence_witness:
  "\<exists>r g' t'. reconcile_watch ref_lib demo_core demo_watch (demo_registry demo_watch, 0) = (r, (g', t')) \<and>
     g' \<noteq> demo_registry demo_watch \<and>
     (\<exists>info. rpc_raw_transaction_info demo_core 0 (compute_txid ref_lib (demo_tx demo_point 1)) = Inr info \<and>
        ti_confirmations info \<in> {None, Some 0})"
proof -
  let ?r = "reconcile_watch ref_lib demo_core demo_watch (demo_registry demo_watch, 0)"
  have g: "fst (snd ?r) = (demo_registry demo_watch)\<lparr>reg_data :=
      (reg_data (demo_registry demo_watch))\<lparr>watches := [(demo_point, demo_watch\<lparr>in_block := False\<rparr>)]\<rparr>\<rparr>"
    by (simp add: reconcile_watch_def demo_watch_def demo_core_def demo_registry_def recorded_still_mined_def
        tx_confirmations_def ask_raw_def ask_def bnd_def ret_def chain_q_def reg_q_def seq_def upsert_watch_def
        with_data_def reconcile_spend_def lookup_spend_def mempool_spending_transaction_def
        mined_spending_transaction_def get_tx_out_def)
  obtain r g' t' where r: "?r = (r, (g', t'))" by (metis prod.exhaust)
  have "g' \<noteq> demo_registry demo_watch" using g r by (simp add: demo_registry_def demo_watch_def)
  then show ?thesis
    using confirmed_record_needs_evidence[of demo_watch "demo_tx demo_point 1" ref_lib demo_core "demo_registry demo_watch" 0 r g' t'] r
    by (auto simp: demo_watch_def demo_core_def)
qed

end
