(* ===== verification/Bonds.thy ===== *)
theory Bonds
  imports Announce
begin

text \<open>
  Correctness of the bond code: the base-32 decoder against the number it should compute, the
  announcement round trip, the restore scan, and the two sides of a bond proof.
\<close>

section \<open>Base-32 numbers\<close>

definition num32 :: "bytes \<Rightarrow> nat" where
  "num32 label = foldl (\<lambda>n b. 32 * n + (case base32_value b of Some v \<Rightarrow> unat v | None \<Rightarrow> 0)) 0 label"

definition num256 :: "bytes \<Rightarrow> nat" where
  "num256 bs = foldl (\<lambda>n b. 256 * n + unat b) 0 bs"

definition base32_label :: "bytes \<Rightarrow> bool" where
  "base32_label label \<longleftrightarrow> list_all (\<lambda>b. base32_value b \<noteq> None) label"

lemma base32_value_lt: "base32_value b = Some v \<Longrightarrow> unat v < 32"
  by (auto simp: base32_value_def word_le_nat_alt unat_sub unat_word_ariths split: if_splits)

lemma num256_snoc: "num256 (bs @ [b]) = 256 * num256 bs + unat b"
  by (simp add: num256_def)

lemma buffer_shift:
  fixes buffer :: "16 word" and v :: byte
  assumes "unat buffer < 2 ^ 7" "unat v < 32"
  shows "unat (or (push_bit 5 buffer) (ucast v)) = 32 * unat buffer + unat v"
proof -
  have s: "unat (push_bit 5 buffer) = push_bit 5 (unat buffer)"
    unfolding unsigned_push_bit_eq using assms(1)
    by (simp add: take_bit_nat_eq_self push_bit_eq_mult)
  have v: "unat (ucast v :: 16 word) = unat v"
    using assms(2) by (simp add: unsigned_ucast_eq take_bit_nat_eq_self)
  have "take_bit 5 (unat v) = unat v" using assms(2) by (simp add: take_bit_nat_eq_self)
  then have "\<not> bit (unat v) n" if "5 \<le> n" for n using that by (metis bit_take_bit_iff not_le)
  then have "and (push_bit 5 (unat buffer)) (unat v) = 0"
    by (intro bit_eqI) (auto simp: bit_and_iff bit_push_bit_iff)
  from disjunctive_add_eq_or[OF this] show ?thesis
    unfolding unsigned_or_eq s v by (simp add: push_bit_eq_mult mult.commute)
qed

lemma buffer_top:
  fixes buffer :: "16 word"
  assumes "unat buffer < 2 ^ (k + 8)"
  shows "unat (ucast (drop_bit k buffer) :: byte) = unat buffer div 2 ^ k"
proof -
  have "unat buffer div 2 ^ k < 256" using assms by (simp add: less_mult_imp_div_less power_add mult.commute)
  moreover have "unat buffer < 2 ^ 16" using unsigned_less[of buffer] by simp
  ultimately show ?thesis
    by (simp only: unsigned_ucast_eq unsigned_drop_bit_eq)
      (simp add: take_bit_nat_eq_self drop_bit_eq_div)
qed

lemma buffer_rest:
  fixes buffer :: "16 word"
  shows "unat (and buffer (push_bit k 1 - 1)) = unat buffer mod 2 ^ k"
proof -
  have "and buffer (push_bit k 1 - 1) = take_bit k buffer"
    by (simp add: take_bit_eq_mask mask_eq_exp_minus_1 push_bit_eq_mult)
  then have "unat (and buffer (push_bit k 1 - 1)) = take_bit k (unat buffer)"
    by (simp only: unsigned_take_bit_eq)
  then show ?thesis by (simp only: take_bit_eq_mod)
qed

lemma onion_decode_spec:
  assumes "base32_label label" "unat buffer < 2 ^ bits" "bits < 8"
  shows "\<exists>out. onion_decode buffer bits decoded label = Some ((bits + 5 * length label) mod 8, out) \<and>
    length out = length decoded + (bits + 5 * length label) div 8 \<and>
    num256 out = foldl (\<lambda>n b. 32 * n + (case base32_value b of Some v \<Rightarrow> unat v | None \<Rightarrow> 0))
       (num256 decoded * 2 ^ bits + unat buffer) label div 2 ^ ((bits + 5 * length label) mod 8)"
  using assms
proof (induction label arbitrary: buffer bits decoded)
  case Nil
  then show ?case by (simp add: div_mult_self3)
next
  case (Cons b label)
  obtain v where v: "base32_value b = Some v" using Cons.prems(1) by (auto simp: base32_label_def)
  have label: "base32_label label" using Cons.prems(1) by (simp add: base32_label_def)
  have v32: "unat v < 32" using base32_value_lt[OF v] .
  define w where "w = or (push_bit 5 buffer) (ucast v :: 16 word)"
  have "unat buffer < 2 ^ 7" using Cons.prems(2,3) power_increasing[of bits 7 "2::nat"] by simp
  then have w: "unat w = 32 * unat buffer + unat v" unfolding w_def by (rule buffer_shift[OF _ v32])
  have wlt: "unat w < 2 ^ (bits + 5)" using w v32 Cons.prems(2) by (simp add: power_add)
  show ?case
  proof (cases "8 \<le> bits + 5")
    case True
    define k where "k = bits + 5 - 8"
    have k: "k < 8" "bits + 5 = k + 8" using True Cons.prems(3) by (simp_all add: k_def)
    define out where "out = decoded @ [ucast (drop_bit k w)]"
    define r where "r = and w (push_bit k 1 - 1)"
    have r: "unat r = unat w mod 2 ^ k" unfolding r_def by (rule buffer_rest)
    have top: "unat (ucast (drop_bit k w) :: byte) = unat w div 2 ^ k"
      by (rule buffer_top) (use wlt k(2) in simp)
    have val: "num256 out * 2 ^ k + unat r = 32 * (num256 decoded * 2 ^ bits + unat buffer) + unat v"
    proof -
      have "num256 out * 2 ^ k + unat r = num256 decoded * 2 ^ (k + 8) + (unat w div 2 ^ k * 2 ^ k + unat w mod 2 ^ k)"
        by (simp add: out_def num256_snoc top r power_add algebra_simps)
      also have "\<dots> = num256 decoded * 2 ^ (bits + 5) + unat w"
        by (simp only: k(2) div_mult_mod_eq)
      finally show ?thesis by (simp add: w power_add)
    qed
    have step: "onion_decode buffer bits decoded (b # label) = onion_decode r k out label"
      using True by (simp add: v w_def[symmetric] k_def[symmetric] r_def out_def Let_def)
    have len: "bits + 5 * length (b # label) = (k + 5 * length label) + 8" using k(2) by simp
    have "unat r < 2 ^ k" by (simp add: r)
    from Cons.IH[OF label this k(1), of out] show ?thesis
      unfolding step len val using v by (simp add: out_def)
  next
    case False
    have step: "onion_decode buffer bits decoded (b # label) = onion_decode w (bits + 5) decoded label"
      using False by (simp add: v w_def[symmetric] Let_def)
    have len: "bits + 5 * length (b # label) = bits + 5 + 5 * length label" by simp
    have val: "num256 decoded * 2 ^ (bits + 5) + unat w = 32 * (num256 decoded * 2 ^ bits + unat buffer) + unat v"
      by (simp add: w power_add)
    from Cons.IH[OF label wlt, of decoded] False
    show ?thesis unfolding step len val using v by simp
  qed
qed

lemma digits_inj:
  assumes "length xs = length ys" "list_all (\<lambda>d. d < B) xs" "list_all (\<lambda>d. d < B) ys"
    and "foldl (\<lambda>n d. B * n + d) (0::nat) xs = foldl (\<lambda>n d. B * n + d) 0 ys"
  shows "xs = ys"
  using assms
proof (induction xs arbitrary: ys rule: rev_induct)
  case (snoc x xs)
  obtain y ys' where ys: "ys = ys' @ [y]" using snoc.prems(1) by (cases ys rule: rev_cases) auto
  define m n where "m = foldl (\<lambda>n d. B * n + d) 0 xs" and "n = foldl (\<lambda>n d. B * n + d) 0 ys'"
  have lt: "x < B" "y < B" using snoc.prems(2,3) ys by simp_all
  have "B * m + x = B * n + y" using snoc.prems(4) by (simp add: ys m_def n_def)
  moreover have "x = (B * m + x) mod B" "y = (B * n + y) mod B" using lt by simp_all
  ultimately have "x = y" by simp
  with \<open>B * m + x = B * n + y\<close> lt have "m = n" by simp
  with snoc.IH[of ys'] snoc.prems(1-3) \<open>x = y\<close> show ?case by (simp add: ys m_def n_def)
qed simp

lemma num256_map: "num256 bs = foldl (\<lambda>n d. 256 * n + d) 0 (map unat bs)"
  by (simp add: num256_def foldl_map)

lemma num256_inj: "length a = length b \<Longrightarrow> num256 a = num256 b \<Longrightarrow> a = b"
proof -
  assume "length a = length b" "num256 a = num256 b"
  moreover have "list_all (\<lambda>d. d < 256) (map unat bs)" for bs :: bytes
  proof -
    have "unat b < 256" for b :: byte using unsigned_less[of b] by simp
    then show ?thesis by (simp add: list_all_iff)
  qed
  ultimately have "map unat a = map unat b"
    using digits_inj[of "map unat a" "map unat b" 256] by (simp add: num256_map)
  then show ?thesis by (metis injI inj_map_eq_map unsigned_word_eqI)
qed

lemma base32_value_nat:
  "base32_value b = Some v \<Longrightarrow> (97 \<le> unat b \<and> unat b \<le> 122 \<and> unat v = unat b - 97) \<or>
     (50 \<le> unat b \<and> unat b \<le> 55 \<and> unat v = unat b - 24)"
  by (auto simp: base32_value_def word_le_nat_alt unat_sub unat_word_ariths split: if_splits)

lemma base32_value_inj: "base32_value a = Some v \<Longrightarrow> base32_value b = Some w \<Longrightarrow> unat v = unat w \<Longrightarrow> a = b"
  using base32_value_nat[of a v] base32_value_nat[of b w] unfolding word_unat_eq_iff by linarith

lemma num32_inj: "inj_on num32 {label. length label = 56 \<and> base32_label label}"
proof (rule inj_onI, clarify)
  fix a b :: bytes
  assume a: "length a = 56" "length b = 56" "base32_label a" "base32_label b" "num32 a = num32 b"
  let ?v = "\<lambda>c. case base32_value c of Some v \<Rightarrow> unat v | None \<Rightarrow> 0"
  have "list_all (\<lambda>d. d < 32) (map ?v l)" for l
    using base32_value_lt by (auto simp: list_all_iff split: option.splits)
  then have eq: "map ?v a = map ?v b"
    using digits_inj[of "map ?v a" "map ?v b" 32] a by (simp add: num32_def foldl_map)
  have digit: "x = y" if "x \<in> set a" "y \<in> set b" "?v x = ?v y" for x y
    using that a(3,4) base32_value_inj by (auto simp: base32_label_def list_all_iff split: option.splits)
  show "a = b"
  proof (rule nth_equalityI)
    fix i assume i: "i < length a"
    then have "?v (a ! i) = ?v (b ! i)" using arg_cong[OF eq, of "\<lambda>l. l ! i"] a(1,2) by simp
    then show "a ! i = b ! i" using digit[of "a ! i" "b ! i"] i a(1,2) by simp
  qed (simp add: a(1,2))
qed

lemma onion_decode_None: "\<not> base32_label label \<Longrightarrow> onion_decode buffer bits out label = None"
  by (induction label arbitrary: buffer bits out) (auto simp: base32_label_def Let_def split: option.splits)

lemma onion_decode_56:
  assumes "length label = 56"
  shows "onion_decode 0 0 [] label = Some (bits, out) \<longleftrightarrow>
    base32_label label \<and> bits = 0 \<and> length out = 35 \<and> num256 out = num32 label"
proof (cases "base32_label label")
  case True
  from onion_decode_spec[OF True, of 0 0 "[]"] assms obtain out' where
    "onion_decode 0 0 [] label = Some (0, out')" "length out' = 35" "num256 out' = num32 label"
    by (auto simp: num32_def num256_def)
  then show ?thesis using True num256_inj[of out out'] by auto
qed (simp add: onion_decode_None)

lemma maker_address_iff:
  assumes "\<And>x. length (sha3_256 lib x) = 32"
  shows "is_valid_maker_address lib addr \<longleftrightarrow>
    (\<exists>label key. addr = label @ ''.onion'' \<and> length label = 56 \<and> base32_label (str_bytes label) \<and>
       length key = 32 \<and> num32 (str_bytes label) = num256 (key @
         take 2 (sha3_256 lib (str_bytes ''.onion checksum'' @ key @ [3])) @ [3]))"
    (is "_ \<longleftrightarrow> ?R")
proof
  assume "is_valid_maker_address lib addr"
  then obtain label bits d where l: "strip_suffix ''.onion'' addr = Some label" "length label = 56"
      "onion_decode 0 0 [] (str_bytes label) = Some (bits, d)" "length d = 35" "d ! 34 = 3"
      "slice 32 34 d = take 2 (sha3_256 lib (str_bytes ''.onion checksum'' @ take 32 d @ [d ! 34]))"
    by (auto simp: is_valid_maker_address_def split: option.splits prod.splits if_splits)
  have "d = take 32 d @ slice 32 34 d @ [d ! 34]"
    using l(4) by (intro nth_equalityI) (auto simp: nth_append slice_def not_less le_Suc_eq numeral_eq_Suc less_Suc_eq)
  then have d: "d = take 32 d @ take 2 (sha3_256 lib (str_bytes ''.onion checksum'' @ take 32 d @ [3])) @ [3]"
    using l(5,6) by simp
  have "base32_label (str_bytes label)" "num256 d = num32 (str_bytes label)"
    using l(2,3) onion_decode_56[of "str_bytes label" bits d] by (simp_all add: str_bytes_def)
  then show ?R using l(1,2,4) d by (auto simp: strip_suffix_eq_Some intro!: exI[of _ "take 32 d"])
next
  assume ?R
  then obtain label key where l: "addr = label @ ''.onion''" "length label = 56"
      "base32_label (str_bytes label)" "length key = 32"
      "num32 (str_bytes label) = num256 (key @ take 2 (sha3_256 lib (str_bytes ''.onion checksum'' @ key @ [3])) @ [3])"
    by blast
  define cs where "cs = take 2 (sha3_256 lib (str_bytes ''.onion checksum'' @ key @ [3]))"
  have cs: "length cs = 2" using assms by (simp add: cs_def)
  have "onion_decode 0 0 [] (str_bytes label) = Some (0, key @ cs @ [3])"
    using l cs by (subst onion_decode_56) (simp_all add: str_bytes_def cs_def)
  then show "is_valid_maker_address lib addr"
    using l(1,2,4) cs by (simp add: is_valid_maker_address_def nth_append slice_def cs_def)
qed

section \<open>Announcement round trip\<close>

lemma utf8_ascii: "list_all (\<lambda>b. b < 128) bs \<Longrightarrow> utf8_valid bs"
  by (induction bs) auto

lemma unat_of_char: "unat (of_char c :: byte) = of_char c"
proof -
  have "unat (of_nat (of_char c) :: byte) = of_char c" by (simp add: unat_of_nat)
  then show ?thesis by (simp add: of_nat_of_char)
qed

lemma from_utf8_ascii:
  assumes "list_all (\<lambda>c. of_char c < (128::nat)) s"
  shows "from_utf8 (str_bytes s) = Some s"
  using assms utf8_ascii[of "map of_char s"]
  by (simp add: from_utf8_def str_bytes_def comp_def list_all_iff unat_of_char)

lemma base32_chars:
  assumes "base32_label (str_bytes label)" "c \<in> set label"
  shows "of_char c < (128::nat) \<and> c \<noteq> CHR ''#'' \<and> c \<noteq> CHR ''.''"
proof -
  have "base32_value (of_char c) \<noteq> None"
    using assms by (auto simp: base32_label_def str_bytes_def list_all_iff)
  then have "50 \<le> (of_char c :: nat) \<and> (of_char c :: nat) \<le> 122"
    by (auto simp: base32_value_def word_le_nat_alt unat_of_char split: if_splits)
  then show ?thesis by auto
qed

lemma onion_suffix_chars: "base32_label (str_bytes label) \<Longrightarrow> \<not> suffix ''.onion'' label"
  using base32_chars[of label "CHR ''.''"] by (auto simp: suffix_def)

lemma digit_ascii: "ascii_digit c \<Longrightarrow> of_char c < (128::nat)"
  by (simp add: ascii_digit_def)

lemma announcement_read:
  assumes "\<And>x. length (sha3_256 lib x) = 32" "is_valid_maker_address lib addr" "is_height lock"
  shows "\<exists>data. encode_fidelity_op_return addr lock = Inr data \<and>
    extract_op_return_data (106 # of_nat (length data) # data) = Some data \<and>
    parse_fidelity_op_return lib data = Some \<lparr>onion = addr, expires_at_height = lock\<rparr>"
proof -
  obtain label where l: "addr = label @ ''.onion''" "length label = 56" "base32_label (str_bytes label)"
    using assms(2) maker_address_iff[OF assms(1)] by blast
  define payload where "payload = label @ ''#'' @ show_nat lock"
  define data where "data = str_bytes payload"
  have digits: "list_all ascii_digit (show_nat lock)" "show_nat lock \<noteq> []" using show_nat_digits by auto
  have enc: "encode_fidelity_op_return addr lock = Inr data"
    using assms(3) by (simp add: encode_fidelity_op_return_def l(1) data_def payload_def)
  have "length (show_nat lock) \<le> 9"
    using assms(3) length_show_nat[of lock 8] by (simp add: is_height_def)
  then have len: "1 \<le> length data" "length data \<le> 66"
    using l(2) by (simp_all add: data_def payload_def str_bytes_def)
  then have ext: "extract_op_return_data (106 # of_nat (length data) # data) = Some data"
    by (simp add: extract_op_return_data_def MAX_FIDELITY_ANNOUNCEMENT_BYTES_def unat_of_nat)
  have utf: "from_utf8 data = Some payload"
    unfolding data_def
    by (rule from_utf8_ascii)
      (use base32_chars[OF l(3)] digits(1) digit_ascii in \<open>auto simp: payload_def list_all_iff\<close>)
  have split: "split_once CHR ''#'' payload = Some (label, show_nat lock)"
    using base32_chars[OF l(3)] split_once_append[of "CHR ''#''" label "show_nat lock"]
    by (auto simp: payload_def)
  have zero: "\<not> (1 < length (show_nat lock) \<and> hd (show_nat lock) = CHR ''0'')"
    using hd_show_nat[of lock] by (cases "lock = 0") (auto simp: show_nat.simps[of 0])
  have norm: "normalize_onion_address lib label = Some addr"
    using assms(2) onion_suffix_chars[OF l(3)] by (simp add: normalize_onion_address_def l(1))
  have "lock \<le> u32_max" using assms(3) by (simp add: is_height_def)
  then show ?thesis using enc ext digits zero
    by (intro exI[of _ data]) (auto simp: parse_fidelity_op_return_def utf split norm)
qed

section \<open>The bond scan\<close>

text \<open>
  \<open>settled probe taken i\<close>: index \<open>i\<close> is known or holds no bond. \<open>grew\<close> relates the state of a
  scan to a later one.
\<close>

definition settled :: "(u32 \<Rightarrow> wallet_error + FidelityBond option) \<Rightarrow> u32 list \<Rightarrow> u32 \<Rightarrow> bool" where
  "settled probe taken i \<longleftrightarrow> i \<in> set taken \<or> probe i = Inr None"

definition grew ::
  "(u32 \<Rightarrow> wallet_error + FidelityBond option) \<Rightarrow> u32 list \<Rightarrow> FidelityBond list \<Rightarrow> u32 list \<Rightarrow>
   FidelityBond list \<Rightarrow> bool" where
  "grew probe taken bonds taken' bonds' \<longleftrightarrow>
     (\<exists>new. bonds' = bonds @ new \<and> set taken' = set taken \<union> fb_index ` set new \<and>
        distinct (map fb_index new) \<and> fb_index ` set new \<inter> set taken = {} \<and>
        (\<forall>b\<in>set new. probe (fb_index b) = Inr (Some b)))"

lemma settled_mono: "settled probe taken i \<Longrightarrow> grew probe taken bonds taken' bonds' \<Longrightarrow> settled probe taken' i"
  by (auto simp: settled_def grew_def)

lemma grew_refl: "grew probe taken bonds taken bonds"
  by (simp add: grew_def)

lemma grew_trans:
  assumes "grew probe t1 b1 t2 b2" "grew probe t2 b2 t3 b3"
  shows "grew probe t1 b1 t3 b3"
proof -
  obtain n1 where n1: "b2 = b1 @ n1" "set t2 = set t1 \<union> fb_index ` set n1" "distinct (map fb_index n1)"
      "fb_index ` set n1 \<inter> set t1 = {}" "\<forall>b\<in>set n1. probe (fb_index b) = Inr (Some b)"
    using assms(1) by (auto simp: grew_def)
  obtain n2 where n2: "b3 = b2 @ n2" "set t3 = set t2 \<union> fb_index ` set n2" "distinct (map fb_index n2)"
      "fb_index ` set n2 \<inter> set t2 = {}" "\<forall>b\<in>set n2. probe (fb_index b) = Inr (Some b)"
    using assms(2) by (auto simp: grew_def)
  show ?thesis unfolding grew_def using n1 n2 by (intro exI[of _ "n1 @ n2"]) auto
qed

lemma grew_one:
  assumes "probe i = Inr (Some b)" "fb_index b = i" "i \<notin> set taken"
  shows "grew probe taken bonds (i # taken) (bonds @ [b])"
  using assms by (auto simp: grew_def)

definition window_ok ::
  "(u32 \<Rightarrow> wallet_error + FidelityBond option) \<Rightarrow> u32 \<Rightarrow> u32 \<Rightarrow> u32 \<Rightarrow> u32 list \<Rightarrow> FidelityBond list \<Rightarrow>
   u32 \<Rightarrow> u32 list \<Rightarrow> FidelityBond list \<Rightarrow> bool" where
  "window_ok probe gap index stop taken bonds stop' taken' bonds' \<longleftrightarrow>
     stop \<le> stop' \<and> grew probe taken bonds taken' bonds' \<and>
     (\<forall>i. index \<le> i \<and> i < stop' \<longrightarrow> settled probe taken' i) \<and>
     (\<forall>i. i \<in> set taken' \<and> i \<notin> set taken \<longrightarrow>
        index \<le> i \<and> saturating_add32 (saturating_add32 i 1) gap \<le> stop')"

lemma window_skip:
  assumes "window_ok probe gap (index + 1) stop taken bonds stop' taken' bonds'"
    and "settled probe taken index"
  shows "window_ok probe gap index stop taken bonds stop' taken' bonds'"
proof -
  have g: "grew probe taken bonds taken' bonds'" using assms(1) by (simp add: window_ok_def)
  have "settled probe taken' i" if "index \<le> i" "i < stop'" for i
  proof (cases "i = index")
    case True
    then show ?thesis using settled_mono[OF assms(2) g] by simp
  next
    case False
    then show ?thesis using that assms(1) by (simp add: window_ok_def)
  qed
  then show ?thesis using assms(1) by (auto simp: window_ok_def)
qed

lemma window_hit:
  assumes "window_ok probe gap (index + 1)
      (max stop (saturating_add32 (saturating_add32 index 1) gap)) (index # taken) (bonds @ [b])
      stop' taken' bonds'"
    and "probe index = Inr (Some b)" "fb_index b = index" "index \<notin> set taken"
  shows "window_ok probe gap index stop taken bonds stop' taken' bonds'"
proof -
  have g: "grew probe (index # taken) (bonds @ [b]) taken' bonds'"
    using assms(1) by (simp add: window_ok_def)
  have "settled probe taken' index" using settled_mono[OF _ g, of index] by (simp add: settled_def)
  then have "settled probe taken' i" if "index \<le> i" "i < stop'" for i
    using that assms(1) by (cases "i = index") (auto simp: window_ok_def)
  moreover have "grew probe taken bonds taken' bonds'"
    by (rule grew_trans[OF grew_one[of probe index b, OF assms(2-4)] g])
  moreover have "index \<le> i \<and> saturating_add32 (saturating_add32 i 1) gap \<le> stop'"
    if "i \<in> set taken'" "i \<notin> set taken" for i
    using that assms(1) by (cases "i = index") (auto simp: window_ok_def)
  ultimately show ?thesis using assms(1) by (simp add: window_ok_def)
qed

lemma scan_window_ok:
  assumes "\<And>i b. probe i = Inr (Some b) \<Longrightarrow> fb_index b = i"
    and "scan_window probe gap index stop taken bonds = Inr (stop', taken', bonds')"
  shows "window_ok probe gap index stop taken bonds stop' taken' bonds'"
  using assms
proof (induction probe gap index stop taken bonds rule: scan_window.induct)
  case (1 probe gap index stop taken bonds)
  note unfold = scan_window.simps[of probe gap index stop taken bonds]
  show ?case
  proof (cases "index < stop")
    case False
    then show ?thesis using 1(5) by (auto simp: unfold window_ok_def grew_refl)
  next
    case lt: True
    show ?thesis
    proof (cases "index \<in> set taken")
      case True
      with 1(5) lt have "scan_window probe gap (index + 1) stop taken bonds = Inr (stop', taken', bonds')"
        by (simp add: unfold)
      from window_skip[OF 1(1)[OF lt True 1(4) this]] True show ?thesis by (simp add: settled_def)
    next
      case False
      show ?thesis
      proof (cases "probe index")
        case (Inl e)
        then show ?thesis using 1(5) lt False by (simp add: unfold)
      next
        case (Inr r)
        show ?thesis
        proof (cases r)
          case None
          with 1(5) lt False Inr
          have "scan_window probe gap (index + 1) stop taken bonds = Inr (stop', taken', bonds')"
            by (simp add: unfold)
          from window_skip[OF 1(2)[OF lt False Inr None 1(4) this]] Inr None show ?thesis
            by (simp add: settled_def)
        next
          case (Some b)
          with 1(5) lt False Inr
          have "scan_window probe gap (index + 1)
              (max stop (saturating_add32 (saturating_add32 index 1) gap)) (index # taken) (bonds @ [b])
              = Inr (stop', taken', bonds')"
            by (simp add: unfold)
          from window_hit[OF 1(3)[OF lt False Inr Some 1(4) this]] Inr Some False 1(4)
          show ?thesis by simp
        qed
      qed
    qed
  qed
qed

text \<open>
  After the windows of all \<open>starts\<close>, every index within the gap of a start or of a bond found is
  settled. \<open>from\<close> is the last start scanned.
\<close>

lemma scan_starts_ok:
  assumes "\<And>i b. probe i = Inr (Some b) \<Longrightarrow> fb_index b = i"
    and "scan_starts probe gap starts scanned_to taken bonds = Inr bonds'"
    and "sorted (last_start # starts)" "\<forall>i. last_start \<le> i \<and> i < scanned_to \<longrightarrow> settled probe taken i"
  shows "\<exists>taken'. grew probe taken bonds taken' bonds' \<and>
    (\<forall>s i. s \<in> set starts \<and> s \<le> i \<and> i < saturating_add32 s gap \<longrightarrow> settled probe taken' i) \<and>
    (\<forall>j i. j \<in> set taken' \<and> j \<notin> set taken \<and> j < i \<and>
       i < saturating_add32 (saturating_add32 j 1) gap \<longrightarrow> settled probe taken' i)"
  using assms(2-4)
proof (induction starts arbitrary: scanned_to taken bonds last_start)
  case Nil
  then show ?case by (auto intro: exI[of _ taken] grew_refl)
next
  case (Cons start starts)
  let ?index = "max start scanned_to"
  obtain stop taken1 bonds1 where win:
      "scan_window probe gap ?index (saturating_add32 start gap) taken bonds = Inr (stop, taken1, bonds1)"
    and rest: "scan_starts probe gap starts (max scanned_to stop) taken1 bonds1 = Inr bonds'"
    using Cons.prems(1) by (auto simp: result_simps)
  have ok: "window_ok probe gap ?index (saturating_add32 start gap) taken bonds stop taken1 bonds1"
    by (rule scan_window_ok[OF assms(1) win])
  have g1: "grew probe taken bonds taken1 bonds1" using ok by (simp add: window_ok_def)
  have window: "settled probe taken1 i" if "start \<le> i" "i < max scanned_to stop" for i
  proof (cases "i < scanned_to")
    case True
    then have "settled probe taken i" using Cons.prems(2,3) that(1) by auto
    then show ?thesis using settled_mono[OF _ g1] by blast
  next
    case False
    then show ?thesis using that ok by (auto simp: window_ok_def)
  qed
  have sorted: "sorted (start # starts)" using Cons.prems(2) by simp
  have inv: "\<forall>i. start \<le> i \<and> i < max scanned_to stop \<longrightarrow> settled probe taken1 i"
    using window by blast
  obtain taken' where g2: "grew probe taken1 bonds1 taken' bonds'"
    and starts: "\<forall>s i. s \<in> set starts \<and> s \<le> i \<and> i < saturating_add32 s gap \<longrightarrow> settled probe taken' i"
    and hits: "\<forall>j i. j \<in> set taken' \<and> j \<notin> set taken1 \<and> j < i \<and>
       i < saturating_add32 (saturating_add32 j 1) gap \<longrightarrow> settled probe taken' i"
    using Cons.IH[OF rest sorted inv] by blast
  have "settled probe taken' i" if "start \<le> i" "i < saturating_add32 start gap" for i
    using settled_mono[OF window g2] that ok by (auto simp: window_ok_def)
  moreover have "settled probe taken' i"
    if "j \<in> set taken'" "j \<notin> set taken" "j < i" "i < saturating_add32 (saturating_add32 j 1) gap" for j i
  proof (cases "j \<in> set taken1")
    case True
    then have "?index \<le> j" "saturating_add32 (saturating_add32 j 1) gap \<le> stop"
      using that(2) ok by (auto simp: window_ok_def)
    then show ?thesis using settled_mono[OF window g2, of i] that(3,4) by auto
  next
    case False
    then show ?thesis using that hits by blast
  qed
  moreover have "settled probe taken' i" if "s \<in> set starts" "s \<le> i" "i < saturating_add32 s gap" for s i
    using that starts by blast
  ultimately show ?case using grew_trans[OF g1 g2]
    by (intro exI[of _ taken'] conjI) (simp, metis set_ConsD, blast)
qed

text \<open>\<open>pays\<close>: a bond record describes an output of one of the transactions, locked for its key.\<close>

definition pays :: "bitcoin_lib \<Rightarrow> keyring \<Rightarrow> Transaction list \<Rightarrow> FidelityBond \<Rightarrow> bool" where
  "pays lib keys txs bond \<longleftrightarrow>
     (\<exists>tx\<in>set txs. \<exists>secret out. fidelity_key keys (fb_index bond) = Inr secret \<and>
        fb_pubkey bond = pubkey_of lib secret \<and> txid (fb_outpoint bond) = compute_txid lib tx \<and>
        vout (fb_outpoint bond) < length (tx_output tx) \<and>
        tx_output tx ! vout (fb_outpoint bond) = out \<and> value_of out = fb_amount bond \<and>
        script_pubkey out = to_p2wsh lib (fb_redeem_script lib bond) \<and> fb_tx bond = Some tx \<and>
        \<not> fb_is_spent bond \<and> fb_conf_height bond = None)"

lemma position_SomeD: "position P xs = Some i \<Longrightarrow> i < length xs \<and> P (xs ! i)"
  by (induction xs arbitrary: i) (auto split: if_splits)

lemma find_bond_ok:
  assumes "find_bond lib keys index locks txs = Inr (Some b)"
  shows "fb_index b = index \<and> pays lib keys txs b \<and> fb_lock_time b \<in> set locks"
proof -
  obtain secret where secret: "fidelity_key keys index = Inr secret"
    using assms by (auto simp: find_bond_def result_simps)
  define mk where "mk = (\<lambda>lock tx i. \<lparr>fb_outpoint = \<lparr>txid = compute_txid lib tx, vout = i\<rparr>,
           fb_amount = value_of (tx_output tx ! i), fb_lock_time = lock, fb_pubkey = pubkey_of lib secret,
           fb_conf_height = None, fb_is_spent = False, fb_index = index, fb_tx = Some tx\<rparr>)"
  have "find_map (\<lambda>lock. find_map (\<lambda>tx. map_option (mk lock tx)
      (position (\<lambda>out. script_pubkey out = to_p2wsh lib (fidelity_redeemscript lib lock (pubkey_of lib secret)))
        (tx_output tx))) txs) locks = Some b"
    using assms by (simp add: find_bond_def secret mk_def Let_def)
  then obtain lock tx i where "lock \<in> set locks" "tx \<in> set txs" "b = mk lock tx i"
      "position (\<lambda>out. script_pubkey out = to_p2wsh lib (fidelity_redeemscript lib lock (pubkey_of lib secret)))
        (tx_output tx) = Some i"
    by (auto dest!: find_map_SomeD)
  then show ?thesis
    using secret position_SomeD by (force simp: mk_def pays_def fb_redeem_script_def)
qed

lemma try_hints_ok:
  assumes "try_hints lib keys txs hints taken bonds = Inr (taken', bonds')"
  shows "\<exists>new. bonds' = bonds @ new \<and> set taken' = set taken \<union> fb_index ` set new \<and>
    distinct (map fb_index new) \<and> fb_index ` set new \<inter> set taken = {} \<and>
    (\<forall>b\<in>set new. pays lib keys txs b)"
  using assms
proof (induction hints arbitrary: taken bonds)
  case (Cons hint hints)
  show ?case
  proof (cases "hint_index hint \<in> set taken \<or> 2147483648 \<le> hint_index hint")
    case True
    then show ?thesis using Cons by auto
  next
    case False
    then obtain found where found: "find_bond lib keys (hint_index hint) [hint_locktime hint] txs = Inr found"
      and rest: "(case found of
          Some bond \<Rightarrow> try_hints lib keys txs hints (hint_index hint # taken) (bonds @ [bond])
        | None \<Rightarrow> try_hints lib keys txs hints taken bonds) = Inr (taken', bonds')"
      using Cons.prems by (auto simp: result_simps)
    show ?thesis
    proof (cases found)
      case None
      then show ?thesis using Cons.IH[of taken bonds] rest by simp
    next
      case (Some bond)
      obtain new where "bonds' = (bonds @ [bond]) @ new"
        "set taken' = set (hint_index hint # taken) \<union> fb_index ` set new" "distinct (map fb_index new)"
        "fb_index ` set new \<inter> set (hint_index hint # taken) = {}" "\<forall>b\<in>set new. pays lib keys txs b"
        using Cons.IH[of "hint_index hint # taken" "bonds @ [bond]"] rest Some by auto
      then show ?thesis using find_bond_ok[of lib keys "hint_index hint" "[hint_locktime hint]" txs bond]
          found Some False
        by (intro exI[of _ "bond # new"]) auto
    qed
  qed
qed simp

lemma scan_all_ok:
  assumes probe: "\<And>i b. probe i = Inr (Some b) \<Longrightarrow> fb_index b = i"
    and "scan_starts probe gap (sort (0 # map (\<lambda>i. saturating_add32 i 1) taken)) 0 taken bonds = Inr bonds'"
  shows "\<exists>taken'. grew probe taken bonds taken' bonds' \<and>
    (\<forall>i. i < u32_max \<and> (i < gap \<or> (\<exists>j\<in>set taken'. j < i \<and> i \<le> j + gap)) \<longrightarrow> settled probe taken' i)"
proof -
  let ?starts = "sort (0 # map (\<lambda>i. saturating_add32 i 1) taken)"
  have srt: "sorted (0 # ?starts)" by (simp only: sorted_simps sorted_sort) simp
  have vac: "\<forall>i. 0 \<le> i \<and> i < 0 \<longrightarrow> settled probe taken i" by simp
  obtain taken' where grew: "grew probe taken bonds taken' bonds'"
    and starts: "\<forall>s i. s \<in> set ?starts \<and> s \<le> i \<and> i < saturating_add32 s gap \<longrightarrow> settled probe taken' i"
    and hits: "\<forall>j i. j \<in> set taken' \<and> j \<notin> set taken \<and> j < i \<and>
       i < saturating_add32 (saturating_add32 j 1) gap \<longrightarrow> settled probe taken' i"
    using scan_starts_ok[of probe, OF probe assms(2) srt vac] by blast
  have start: "settled probe taken' i"
    if "s = 0 \<or> (\<exists>j\<in>set taken. s = saturating_add32 j 1)" "s \<le> i" "i < saturating_add32 s gap" for s i
  proof -
    have "s \<in> set ?starts" unfolding set_sort using that(1) by auto
    then show ?thesis using starts that(2,3) by blast
  qed
  have "settled probe taken' i" if "i < u32_max" "i < gap" for i
    using start[of 0 i] that by (simp add: saturating_add32_def)
  moreover have "settled probe taken' i" if "i < u32_max" "j \<in> set taken'" "j < i" "i \<le> j + gap" for i j
  proof -
    have near: "saturating_add32 j 1 \<le> i" "i < saturating_add32 (saturating_add32 j 1) gap"
      using that by (auto simp: saturating_add32_def)
    show ?thesis
    proof (cases "j \<in> set taken")
      case True
      then show ?thesis using start[OF _ near] by blast
    next
      case False
      then show ?thesis using that(2,3) near(2) hits by blast
    qed
  qed
  ultimately show ?thesis using grew by blast
qed

lemma find_bonds_ok:
  assumes "find_bonds lib keys (Some options) stored txs = Inr found"
  shows "distinct (map fb_index found) \<and> sorted (map fb_index found) \<and>
    (\<forall>b\<in>set found. pays lib keys txs b \<and> fb_index b \<notin> fb_index ` set stored) \<and>
    (\<forall>i. i < u32_max \<and> (i < bond_gap options \<or>
        (\<exists>j\<in>fb_index ` (set stored \<union> set found). j < i \<and> i \<le> j + bond_gap options)) \<longrightarrow>
       i \<in> fb_index ` (set stored \<union> set found) \<or>
       find_bond lib keys i (announced_locks lib txs) txs = Inr None)"
proof -
  let ?probe = "\<lambda>i. find_bond lib keys i (announced_locks lib txs) txs"
  obtain taken hinted bonds where
    hints: "try_hints lib keys txs (bond_hints options) (remdups (map fb_index stored)) [] = Inr (taken, hinted)"
    and scan: "scan_starts ?probe (bond_gap options) (sort (0 # map (\<lambda>i. saturating_add32 i 1) taken)) 0
      taken hinted = Inr bonds"
    and found: "found = sort_key fb_index bonds"
    using assms by (auto simp: find_bonds_def result_simps Let_def)
  have h: "set taken = fb_index ` set stored \<union> fb_index ` set hinted" "distinct (map fb_index hinted)"
      "fb_index ` set hinted \<inter> fb_index ` set stored = {}" "\<forall>b\<in>set hinted. pays lib keys txs b"
    using try_hints_ok[OF hints] by auto
  have probe: "fb_index b = i" if "?probe i = Inr (Some b)" for i b using find_bond_ok[OF that] by blast
  obtain taken' where "grew ?probe taken hinted taken' bonds" and complete: "\<forall>i. i < u32_max \<and>
      (i < bond_gap options \<or> (\<exists>j\<in>set taken'. j < i \<and> i \<le> j + bond_gap options)) \<longrightarrow>
      settled ?probe taken' i"
    using scan_all_ok[of ?probe, OF probe scan] by blast
  then obtain new where new: "bonds = hinted @ new" "set taken' = set taken \<union> fb_index ` set new"
      "distinct (map fb_index new)" "fb_index ` set new \<inter> set taken = {}"
      "\<forall>b\<in>set new. ?probe (fb_index b) = Inr (Some b)"
    by (auto simp: grew_def)
  have known: "set taken' = fb_index ` (set stored \<union> set found)"
    by (simp add: found new(1,2) h(1) image_Un Un_assoc)
  have "distinct (map fb_index bonds)" using h(1,2) new(1,3,4) by auto
  then have "distinct (map fb_index found)" "sorted (map fb_index found)"
    by (simp_all add: found distinct_map)
  moreover have "pays lib keys txs b \<and> fb_index b \<notin> fb_index ` set stored" if "b \<in> set hinted" for b
    using that h(3,4) by auto
  moreover have "pays lib keys txs b \<and> fb_index b \<notin> fb_index ` set stored" if "b \<in> set new" for b
    using that find_bond_ok[OF new(5)[rule_format, OF that]] new(4) h(1) by blast
  moreover have "set found = set hinted \<union> set new" by (simp add: found new(1))
  ultimately show ?thesis using complete unfolding known settled_def by blast
qed

section \<open>Properties\<close>

text \<open>A maker's keys, a bond and its transaction for the examples.\<close>

definition demo_keys :: keyring where
  "demo_keys = \<lparr>tweak_key = Inr (replicate 32 1, []),
     fidelity_key = (\<lambda>i. Inr (map2 (+) (replicate 32 1) (replicate 32 (of_nat (2 + i)))))\<rparr>"

definition demo_bond :: FidelityBond where
  "demo_bond = \<lparr>fb_outpoint = \<lparr>txid = 1, vout = 0\<rparr>, fb_amount = 20000, fb_lock_time = 813000,
     fb_pubkey = pubkey_of ref_lib (replicate 32 3), fb_conf_height = None, fb_is_spent = False,
     fb_index = 0, fb_tx = None\<rparr>"

definition demo_bond_tx :: Transaction where
  "demo_bond_tx = \<lparr>version = 2, lock_time = 800000, tx_input = [],
     tx_output = [\<lparr>value_of = 20000, script_pubkey = to_p2wsh ref_lib (fb_redeem_script ref_lib demo_bond)\<rparr>]\<rparr>"



text \<open>
  C21 (bond proofs, generated). The proof a maker generates for a live bond of its own is
  accepted by every taker that sees the bond output on chain while the lock time lies in the
  window. The hypotheses on the library are those of BIP32 and ECDSA: a public child key is the
  key of the private child, and a signature verifies under the key that made it.
\<close>

theorem fidelity_proof_accepted:
  assumes "\<And>h. verify_ecdsa lib h (sign_ecdsa lib h secret) (secret_point lib secret) = Inr ()"
    and "derive_pub lib (secret_point lib tweak) chain_code [2, index] = Inr (secret_point lib secret)"
    and "tweak_key keys = Inr (tweak, chain_code)" "fidelity_key keys index = Inr secret"
    and "fidelity_bond bonds index = Inr bond" "\<not> fb_is_spent bond" "fb_pubkey bond = pubkey_of lib secret"
    and "redeemscript_to_scriptpubkey lib (fb_redeem_script lib bond) = Inr spk"
    and "vout (fb_outpoint bond) < length (tx_output tx)"
    and "tx_output tx ! vout (fb_outpoint bond) = \<lparr>value_of = fb_amount bond, script_pubkey = spk\<rparr>"
    and "conf + MIN_FIDELITY_TIMELOCK \<le> fb_lock_time bond" "fb_lock_time bond \<le> conf + MAX_FIDELITY_TIMELOCK"
    and "current_height \<le> fb_lock_time bond" "fb_lock_time bond < 500000000"
  shows "\<exists>fp. generate_fidelity_proof lib keys bonds index addr = Inr fp \<and>
    verify_fidelity_checks lib fp addr tx current_height conf (pubkey_of lib tweak) chain_code = Inr ()"
proof -
  have idx: "fb_index bond = index"
    using assms(5) by (auto simp: fidelity_bond_def result_simps find_Some_iff)
  define fp where "fp = \<lparr>proof_bond = bond\<lparr>fb_tx := None\<rparr>,
      proof_cert_hash = generate_cert_hash lib bond addr (pubkey_of lib tweak),
      proof_cert_sig = sign_ecdsa lib (generate_cert_hash lib bond addr (pubkey_of lib tweak)) secret\<rparr>"
  have "generate_fidelity_proof lib keys bonds index addr = Inr fp"
    using assms by (simp add: generate_fidelity_proof_def fp_def Let_def)
  moreover have "generate_cert_hash lib (bond\<lparr>fb_tx := None\<rparr>) addr p = generate_cert_hash lib bond addr p" for p
    by (simp add: generate_cert_hash_def cert_message_def)
  moreover have "fb_redeem_script lib (bond\<lparr>fb_tx := None\<rparr>) = fb_redeem_script lib bond"
    by (simp add: fb_redeem_script_def)
  moreover have "current_height mod (u32_max + 1) = current_height" using assms(13,14) by simp
  moreover have "conf \<le> fb_lock_time bond" "MIN_FIDELITY_TIMELOCK \<le> fb_lock_time bond - conf"
    "fb_lock_time bond - conf \<le> MAX_FIDELITY_TIMELOCK" "\<not> fb_lock_time bond < current_height"
    "current_height < 500000000"
    using assms(11-14) by linarith+
  ultimately show ?thesis using assms idx
    by (intro exI[of _ fp])
      (simp add: fp_def verify_fidelity_checks_def Let_def pubkey_of_def checked_sub_def ensure_def
        is_height_def fb_redeem_script_def)
qed

theorem fidelity_proof_accepted_witness:
  "\<exists>fp. generate_fidelity_proof ref_lib demo_keys [demo_bond] 0 ''m.onion'' = Inr fp \<and>
     verify_fidelity_checks ref_lib fp ''m.onion'' demo_bond_tx 800100 800000
       (pubkey_of ref_lib (replicate 32 1)) [] = Inr ()"
proof -
  have spk: "redeemscript_to_scriptpubkey ref_lib (fb_redeem_script ref_lib demo_bond)
      = Inr (to_p2wsh ref_lib (fb_redeem_script ref_lib demo_bond))"
    by (simp add: redeemscript_to_scriptpubkey_def ref_lib_def)
  show ?thesis
    by (rule fidelity_proof_accepted[where secret = "replicate 32 3" and bond = demo_bond, OF _ _ _ _ _ _ _ spk])
      (simp_all add: demo_keys_def demo_bond_def demo_bond_tx_def fidelity_bond_def fb_redeem_script_def
        MIN_FIDELITY_TIMELOCK_def MAX_FIDELITY_TIMELOCK_def, simp_all add: ref_lib_def numeral_eq_Suc)
qed

text \<open>
  C22 (onion addresses). The decoding loop computes the base-32 number of the label, and an
  address is accepted exactly when it is the label of some 32-byte key with that key's checksum
  and the version byte; two labels of the same key are equal.
\<close>

theorem maker_address_exact:
  assumes "\<And>x. length (sha3_256 lib x) = 32"
  shows "(is_valid_maker_address lib addr \<longleftrightarrow>
    (\<exists>label key. addr = label @ ''.onion'' \<and> length label = 56 \<and> base32_label (str_bytes label) \<and>
       length key = 32 \<and> num32 (str_bytes label) = num256 (key @
         take 2 (sha3_256 lib (str_bytes ''.onion checksum'' @ key @ [3])) @ [3]))) \<and>
    inj_on num32 {label. length label = 56 \<and> base32_label label}"
  using maker_address_iff[of lib addr, OF assms] num32_inj by blast

theorem maker_address_exact_witness:
  "\<not> is_valid_maker_address ref_lib ''abc.onion''"
proof -
  have len: "length (sha3_256 ref_lib x) = 32" for x by (simp add: ref_lib_def ref_hash_def)
  have "length label \<noteq> 56" if "''abc.onion'' = label @ ''.onion''" for label
    using arg_cong[OF that, of length] by simp
  then show ?thesis using maker_address_exact[OF len, of "''abc.onion''"] by blast
qed

text \<open>
  C23 (announcements). What a maker with a valid address encodes for a height-based lock time
  fits the OP_RETURN limit, and the watch tower reads back exactly that address and height.
\<close>

theorem announcement_round_trip:
  assumes "\<And>x. length (sha3_256 lib x) = 32" "is_valid_maker_address lib addr" "is_height lock"
  shows "\<exists>data. encode_fidelity_op_return addr lock = Inr data \<and>
    extract_op_return_data (106 # of_nat (length data) # data) = Some data \<and>
    parse_fidelity_op_return lib data = Some \<lparr>onion = addr, expires_at_height = lock\<rparr>"
  using announcement_read[of lib addr lock] assms by blast

theorem announcement_round_trip_witness:
  "\<exists>data. encode_fidelity_op_return (replicate 55 CHR ''a'' @ ''d.onion'') 813000 = Inr data \<and>
     parse_fidelity_op_return ref_lib data =
       Some \<lparr>onion = replicate 55 CHR ''a'' @ ''d.onion'', expires_at_height = 813000\<rparr>"
proof -
  let ?label = "replicate 55 CHR ''a'' @ ''d''"
  have len: "length (sha3_256 ref_lib x) = 32" "take 2 (sha3_256 ref_lib x) = [0, 0]" for x
    by (simp_all add: ref_lib_def ref_hash_def, simp add: numeral_2_eq_2)
  have digit: "base32_value 97 = Some 0" "base32_value 100 = Some 3" by (simp_all add: base32_value_def)
  have zero: "foldl (\<lambda>n b. 32 * n + (case base32_value b of Some v \<Rightarrow> unat v | None \<Rightarrow> 0)) 0 (replicate k 97) = 0"
    "foldl (\<lambda>n (b :: byte). 256 * n + unat b) 0 (replicate k 0) = 0" for k
    by (induction k) (simp_all add: base32_value_def)
  have label: "base32_label (str_bytes ?label)" "num32 (str_bytes ?label) = 3"
    using digit by (simp_all add: base32_label_def str_bytes_def num32_def list_all_iff zero)
  have "num256 (replicate 32 0 @ [0, 0] @ [3]) = 3" by (simp add: num256_def zero)
  then have "\<exists>label key. ?label @ ''.onion'' = label @ ''.onion'' \<and> length label = 56 \<and>
      base32_label (str_bytes label) \<and> length key = 32 \<and> num32 (str_bytes label) = num256 (key @
        take 2 (sha3_256 ref_lib (str_bytes ''.onion checksum'' @ key @ [3])) @ [3])"
    using label by (intro exI[of _ ?label] exI[of _ "replicate 32 0"]) (simp add: len(2))
  then have "is_valid_maker_address ref_lib (?label @ ''.onion'')"
    using maker_address_iff[of ref_lib "?label @ ''.onion''", OF len(1)] by blast
  moreover have "is_height 813000" by (simp add: is_height_def)
  ultimately show ?thesis using announcement_round_trip[of ref_lib "?label @ ''.onion''" 813000, OF len(1)]
    by auto
qed



end
