(* ===== verification/FundingPlans.thy ===== *)
theory FundingPlans
  imports Funding "HOL-Library.Sublist"
begin

text \<open>
  Correctness of the funding planner of \<open>Funding\<close>: which coins a plan spends, that each split
  is covered, that a plan is found whenever one exists, the least pair of the two-input search,
  the over-budget guard, the netting of reimbursed fees, and the re-plan to a declared shape.
\<close>

section \<open>Vocabulary of the statements\<close>

definition psum :: "pool \<Rightarrow> nat" where
  "psum pool = sum_list (map snd pool)"

definition positions_ok :: "pool \<Rightarrow> nat list \<Rightarrow> bool" where
  "positions_ok pool ps \<longleftrightarrow> distinct ps \<and> set ps \<subseteq> {..<length pool}"

definition cover_sum :: "pool \<Rightarrow> nat list \<Rightarrow> nat" where
  "cover_sum pool ps = sum_list (map (\<lambda>i. snd (pool ! i)) ps)"

definition pair_ok :: "(nat \<Rightarrow> u64) \<Rightarrow> nat \<Rightarrow> u64 \<Rightarrow> u64 \<times> nat \<times> nat \<Rightarrow> bool" where
  "pair_ok val m need p \<longleftrightarrow> (case p of (b, l, h) \<Rightarrow> l < h \<and> h < m \<and> b = val l + val h \<and> need \<le> b)"

definition beaten :: "(nat \<Rightarrow> u64) \<Rightarrow> (u64 \<times> nat \<times> nat) option \<Rightarrow> nat \<Rightarrow> nat \<Rightarrow> bool" where
  "beaten val best i j \<longleftrightarrow> (case best of None \<Rightarrow> False | Some (b, _, _) \<Rightarrow> b \<le> val i + val j)"

text \<open>The search window still holds every pair that the best pair so far does not beat.\<close>

definition tp_inv :: "(nat \<Rightarrow> u64) \<Rightarrow> nat \<Rightarrow> u64 \<Rightarrow> nat \<Rightarrow> nat \<Rightarrow> (u64 \<times> nat \<times> nat) option \<Rightarrow> bool" where
  "tp_inv val m need lo hi best \<longleftrightarrow> hi < m \<and> (\<forall>p. best = Some p \<longrightarrow> pair_ok val m need p) \<and>
     (\<forall>i j. i < j \<and> j < m \<and> need \<le> val i + val j \<longrightarrow> (lo \<le> i \<and> j \<le> hi) \<or> beaten val best i j)"

definition better :: "u64 \<Rightarrow> nat \<Rightarrow> nat \<Rightarrow> (u64 \<times> nat \<times> nat) option \<Rightarrow> (u64 \<times> nat \<times> nat) option" where
  "better s lo hi best =
     (if (case best of None \<Rightarrow> True | Some (b, _, _) \<Rightarrow> s < b) then Some (s, lo, hi) else best)"

definition desc :: "pool \<Rightarrow> bool" where
  "desc pool \<longleftrightarrow> sorted_wrt (\<lambda>a b. b \<le> a) (map snd pool)"

definition covers :: "u64 \<Rightarrow> u64 option \<Rightarrow> f64 \<Rightarrow> nat \<Rightarrow> nat \<Rightarrow> bool" where
  "covers target ec rate n amount \<longleftrightarrow> (\<exists>x. split_need target ec rate n = Some x \<and> x \<le> amount)"

definition strictly_desc :: "nat list \<Rightarrow> bool" where
  "strictly_desc ps \<longleftrightarrow> sorted_wrt (>) ps"

definition coin_sum :: "pool \<Rightarrow> OutPoint list \<Rightarrow> nat" where
  "coin_sum pool os = sum_list (map (\<lambda>o'. the (map_of pool o')) os)"

text \<open>
  \<open>plan_ok\<close>: no coin is used twice, every coin is in the pool, every split's coins cover its
  value and the fee of a transaction with that many inputs, within the input budget unless
  the plan is the one-split fallback.
\<close>

definition split_ok :: "pool \<Rightarrow> u64 option \<Rightarrow> f64 \<Rightarrow> u32 \<Rightarrow> u32 \<Rightarrow> SplitPlan \<Rightarrow> bool" where
  "split_ok pool ec rate k b s \<longleftrightarrow>
     covers (split_value s) ec rate (length (utxos s)) (coin_sum pool (utxos s)) \<and>
     (k \<noteq> 1 \<longrightarrow> length (utxos s) \<le> b)"

definition plan_ok :: "pool \<Rightarrow> u64 option \<Rightarrow> f64 \<Rightarrow> u32 \<Rightarrow> u32 \<Rightarrow> SplitPlan list \<Rightarrow> bool" where
  "plan_ok pool ec rate k b plan \<longleftrightarrow>
     distinct (concat (map utxos plan)) \<and> set (concat (map utxos plan)) \<subseteq> fst ` set pool \<and>
     (\<forall>s\<in>set plan. split_ok pool ec rate k b s)"

text \<open>Pools the planner is given: distinct coins whose values are within the 64 bits of a sum.\<close>

definition pool_wf :: "pool \<Rightarrow> bool" where
  "pool_wf pool \<longleftrightarrow> distinct (map fst pool) \<and> psum pool \<le> u64_max \<and> length pool \<le> u32_max"

definition fee_of :: "f64 \<Rightarrow> nat \<Rightarrow> nat" where
  "fee_of rate n = the (fee_at_rate_sats (funding_tx_vsize n) rate)"

definition policy_fee :: "u32 \<Rightarrow> f64 \<Rightarrow> nat \<Rightarrow> nat" where
  "policy_fee b rate n = the (funding_fee_policy_sats n b rate)"

definition funds :: "SplitPlan list \<Rightarrow> OutPoint list" where
  "funds plan = concat (map utxos plan)"

text \<open>Outpoints of the concrete runs.\<close>

abbreviation op :: "nat \<Rightarrow> OutPoint" where
  "op n \<equiv> \<lparr>txid = n, vout = 0\<rparr>"

declare two_pointer.simps [simp del]

section \<open>Coins at positions\<close>

lemma cover_sum_Nil [simp]: "cover_sum pool [] = 0"
  by (simp add: cover_sum_def)

lemma cover_sum_set: "distinct ps \<Longrightarrow> cover_sum pool ps = (\<Sum>i\<in>set ps. snd (pool ! i))"
  by (simp add: cover_sum_def sum_list_distinct_conv_sum_set)

lemma psum_set: "psum pool = (\<Sum>i<length pool. snd (pool ! i))"
  by (simp add: psum_def sum_list_sum_nth atLeast0LessThan)

lemma cover_sum_le: "positions_ok pool ps \<Longrightarrow> cover_sum pool ps \<le> psum pool"
  unfolding positions_ok_def by (simp add: cover_sum_set psum_set sum_mono2)

lemma coin_le: "i < length pool \<Longrightarrow> snd (pool ! i) \<le> psum pool"
  using cover_sum_le[of pool "[i]"] by (simp add: positions_ok_def cover_sum_def)

lemma coins_le: "i < length pool \<Longrightarrow> j < length pool \<Longrightarrow> i \<noteq> j \<Longrightarrow>
    snd (pool ! i) + snd (pool ! j) \<le> psum pool"
  using cover_sum_le[of pool "[i, j]"] by (simp add: positions_ok_def cover_sum_def)

lemma rposition_Some:
  "rposition P xs = Some i \<longleftrightarrow> i < length xs \<and> P (xs ! i) \<and> (\<forall>j<length xs. P (xs ! j) \<longrightarrow> j \<le> i)"
proof
  assume "rposition P xs = Some i"
  then obtain r where "filter (\<lambda>i. P (xs ! i)) (rev [0..<length xs]) = i # r"
    by (auto simp: rposition_def split: list.splits)
  from last_index[OF this] show "i < length xs \<and> P (xs ! i) \<and> (\<forall>j<length xs. P (xs ! j) \<longrightarrow> j \<le> i)" by blast
next
  assume a: "i < length xs \<and> P (xs ! i) \<and> (\<forall>j<length xs. P (xs ! j) \<longrightarrow> j \<le> i)"
  then obtain k r where k: "filter (\<lambda>i. P (xs ! i)) (rev [0..<length xs]) = k # r"
    using last_index_exists[of "\<lambda>i. P (xs ! i)" i] by blast
  from last_index[OF k] a have "k = i" by (meson le_antisym)
  then show "rposition P xs = Some i" using k by (simp add: rposition_def)
qed

lemma rposition_None: "rposition P xs = None \<longleftrightarrow> (\<forall>x\<in>set xs. \<not> P x)"
proof -
  have "rposition P xs = None \<longleftrightarrow> filter (\<lambda>i. P (xs ! i)) (rev [0..<length xs]) = []"
    by (simp add: rposition_def split: list.split)
  also have "\<dots> \<longleftrightarrow> (\<forall>x\<in>set xs. \<not> P x)"
    by (fastforce simp: filter_empty_conv in_set_conv_nth)
  finally show ?thesis .
qed

section \<open>The two-pointer search\<close>

lemma better_beats: "beaten val best i j \<or> s \<le> val i + val j \<Longrightarrow> beaten val (better s lo hi best) i j"
  by (auto simp: better_def beaten_def split: option.splits)

lemma tp_invD:
  "tp_inv val m need lo hi best \<Longrightarrow> i < j \<Longrightarrow> j < m \<Longrightarrow> need \<le> val i + val j \<Longrightarrow>
     (lo \<le> i \<and> j \<le> hi) \<or> beaten val best i j"
  by (simp add: tp_inv_def)

lemma tp_inv_drop_hi:
  assumes inv: "tp_inv val m need lo hi best" and "lo < hi" and s: "need \<le> val lo + val hi"
    and asc: "\<And>i j. i \<le> j \<Longrightarrow> j < m \<Longrightarrow> val i \<le> val j"
  shows "tp_inv val m need lo (hi - 1) (better (val lo + val hi) lo hi best)"
proof -
  have hm: "hi < m" using inv by (simp add: tp_inv_def)
  have "(lo \<le> i \<and> j \<le> hi - 1) \<or> beaten val (better (val lo + val hi) lo hi best) i j"
    if "i < j" "j < m" "need \<le> val i + val j" for i j
  proof -
    note D = tp_invD[OF inv that]
    consider "lo \<le> i" "j < hi" | "lo \<le> i" "j = hi" | "beaten val best i j"
      using D by linarith
    then show ?thesis
    proof cases
      case 2
      then have "val lo + val hi \<le> val i + val j" using asc[of lo i] that hm by simp
      then show ?thesis by (simp add: better_beats)
    qed (auto simp: better_beats)
  qed
  moreover have "pair_ok val m need p" if "better (val lo + val hi) lo hi best = Some p" for p
    using that inv assms(2) s hm by (auto simp: better_def tp_inv_def pair_ok_def split: if_splits)
  ultimately show ?thesis using hm by (auto simp: tp_inv_def)
qed

lemma tp_inv_drop_lo:
  assumes inv: "tp_inv val m need lo hi best" and "lo < hi" and s: "val lo + val hi < need"
    and asc: "\<And>i j. i \<le> j \<Longrightarrow> j < m \<Longrightarrow> val i \<le> val j"
  shows "tp_inv val m need (lo + 1) hi best"
proof -
  have hm: "hi < m" using inv by (simp add: tp_inv_def)
  have "(lo + 1 \<le> i \<and> j \<le> hi) \<or> beaten val best i j"
    if "i < j" "j < m" "need \<le> val i + val j" for i j
  proof -
    have "\<not> (i = lo \<and> j \<le> hi)" using asc[of j hi] that s hm by auto
    then show ?thesis using tp_invD[OF inv that] by linarith
  qed
  then show ?thesis using inv by (simp add: tp_inv_def)
qed

lemma two_pointer_best:
  assumes no_wrap: "\<And>i j. i < m \<Longrightarrow> j < m \<Longrightarrow> i \<noteq> j \<Longrightarrow> val i + val j \<le> u64_max"
    and asc: "\<And>i j. i \<le> j \<Longrightarrow> j < m \<Longrightarrow> val i \<le> val j"
    and inv: "tp_inv val m need lo hi best"
  defines "r \<equiv> two_pointer val need lo hi best"
  shows "(\<forall>p. r = Some p \<longrightarrow> pair_ok val m need p) \<and>
    (\<forall>i j. i < j \<and> j < m \<and> need \<le> val i + val j \<longrightarrow> beaten val r i j)"
  using inv unfolding r_def
proof (induction "hi - lo" arbitrary: lo hi best)
  case 0
  then have "two_pointer val need lo hi best = best" by (subst two_pointer.simps) simp
  then show ?case using 0 unfolding tp_inv_def by (metis diff_is_0_eq le_less_trans not_less)
next
  case (Suc n)
  then have lh: "lo < hi" by simp
  have "wrapping_add (val lo) (val hi) = val lo + val hi"
    using Suc.prems lh by (intro wrapping_add_exact no_wrap) (auto simp: tp_inv_def)
  then have step: "two_pointer val need lo hi best =
      (if need \<le> val lo + val hi then two_pointer val need lo (hi - 1) (better (val lo + val hi) lo hi best)
       else two_pointer val need (lo + 1) hi best)"
    using lh by (subst two_pointer.simps) (simp add: Let_def better_def)
  show ?case
  proof (cases "need \<le> val lo + val hi")
    case True
    from tp_inv_drop_hi[OF Suc.prems lh True asc] Suc.hyps(1)[of "hi - 1" lo] Suc.hyps(2)
    show ?thesis by (simp add: step True)
  next
    case False
    then have "val lo + val hi < need" by simp
    from tp_inv_drop_lo[OF Suc.prems lh this asc] Suc.hyps(1)[of hi "lo + 1"] Suc.hyps(2)
    show ?thesis by (simp add: step False)
  qed
qed

section \<open>Covers\<close>

lemma desc_nth: "desc pool \<Longrightarrow> i \<le> j \<Longrightarrow> j < length pool \<Longrightarrow> snd (pool ! j) \<le> snd (pool ! i)"
  by (cases "i = j") (auto simp: desc_def sorted_wrt_iff_nth_less)

text \<open>What a pair cover is: valid, sufficient, and of the smallest sum among all pairs.\<close>

lemma pair_cover_spec:
  assumes "desc pool" "psum pool \<le> u64_max" "2 \<le> length pool"
  shows "(\<forall>ps. pair_cover pool need = Some ps \<longrightarrow>
      length ps = 2 \<and> positions_ok pool ps \<and> need \<le> cover_sum pool ps \<and>
      (\<forall>i j. i < length pool \<and> j < length pool \<and> i \<noteq> j \<and> need \<le> snd (pool ! i) + snd (pool ! j)
         \<longrightarrow> cover_sum pool ps \<le> snd (pool ! i) + snd (pool ! j))) \<and>
    (pair_cover pool need = None \<longrightarrow>
      (\<forall>i j. i < length pool \<and> j < length pool \<and> i \<noteq> j \<longrightarrow> snd (pool ! i) + snd (pool ! j) < need))"
proof -
  let ?m = "length pool"
  define val where "val = (\<lambda>i. snd (pool ! (?m - 1 - i)))"
  let ?r = "two_pointer val need 0 (?m - 1) None"
  have nw: "val i + val j \<le> u64_max" if "i < ?m" "j < ?m" "i \<noteq> j" for i j
  proof -
    have "?m - 1 - i < ?m" "?m - 1 - j < ?m" "?m - 1 - i \<noteq> ?m - 1 - j" using that by linarith+
    from coins_le[OF this] assms(2) show ?thesis unfolding val_def by linarith
  qed
  have asc: "val i \<le> val j" if "i \<le> j" "j < ?m" for i j
    unfolding val_def using that by (intro desc_nth[OF assms(1)]) auto
  have inv: "tp_inv val ?m need 0 (?m - 1) None" using assms(3) by (auto simp: tp_inv_def)
  note best = two_pointer_best[OF nw asc inv]
  have any: "beaten val ?r (?m - 1 - max i j) (?m - 1 - min i j) \<and>
      val (?m - 1 - max i j) + val (?m - 1 - min i j) = snd (pool ! i) + snd (pool ! j)"
    if "i < ?m" "j < ?m" "i \<noteq> j" "need \<le> snd (pool ! i) + snd (pool ! j)" for i j
  proof -
    let ?a = "?m - 1 - max i j" and ?b = "?m - 1 - min i j"
    have v: "val ?a + val ?b = snd (pool ! i) + snd (pool ! j)"
      unfolding val_def using that by (cases "i < j") (auto simp: min_def max_def)
    have ab: "?a < ?b" "?b < ?m" using that by (auto simp: min_def max_def)
    have "need \<le> val ?a + val ?b" using that(4) v by (simp only:)
    with best ab have "beaten val ?r ?a ?b" by blast
    with v show ?thesis by blast
  qed
  show ?thesis
  proof (cases ?r)
    case None
    then have "snd (pool ! i) + snd (pool ! j) < need" if "i < ?m" "j < ?m" "i \<noteq> j" for i j
      using any[OF that] by (auto simp: beaten_def not_le[symmetric])
    then show ?thesis using None by (simp add: pair_cover_def Let_def val_def)
  next
    case (Some p)
    obtain b l h where p: "p = (b, l, h)" by (cases p)
    have ok: "l < h" "h < ?m" "b = val l + val h" "need \<le> b"
      using best Some p by (auto simp: pair_ok_def)
    have "b \<le> snd (pool ! i) + snd (pool ! j)"
      if "i < ?m" "j < ?m" "i \<noteq> j" "need \<le> snd (pool ! i) + snd (pool ! j)" for i j
      using any[OF that] unfolding Some p beaten_def by simp
    moreover have "cover_sum pool [?m - 1 - l, ?m - 1 - h] = b" using ok by (simp add: cover_sum_def val_def)
    moreover have "positions_ok pool [?m - 1 - l, ?m - 1 - h]" using ok by (auto simp: positions_ok_def)
    moreover have "pair_cover pool need = Some [?m - 1 - l, ?m - 1 - h]"
      using Some p by (simp add: pair_cover_def Let_def val_def)
    ultimately show ?thesis using ok by auto
  qed
qed

lemma find_SomeD: "find P xs = Some x \<Longrightarrow> x \<in> set xs \<and> P x"
  by (induction xs) (auto split: if_splits)

lemma greedy_pick_free:
  assumes "greedy_pick pool chosen deficit = Some i"
  shows "i < length pool \<and> i \<notin> set chosen"
proof -
  have "i \<in> set (filter (\<lambda>i. i \<notin> set chosen) [0..<length pool])"
    using assms unfolding greedy_pick_def Let_def
    by (auto split: option.splits dest!: find_SomeD)
  then show ?thesis by simp
qed

lemma greedy_fill_spec:
  assumes "greedy_fill pool need n covered chosen = Some ps"
    and "positions_ok pool chosen" "covered = cover_sum pool chosen" "psum pool \<le> u64_max"
  shows "positions_ok pool ps \<and> need \<le> cover_sum pool ps \<and>
    length chosen < length ps \<and> length ps \<le> length chosen + n"
  using assms
proof (induction pool need n covered chosen rule: greedy_fill.induct)
  case (2 pool need n covered chosen)
  then obtain pick where pick: "greedy_pick pool chosen (need - covered) = Some pick"
    by (auto split: option.splits)
  have ok: "positions_ok pool (chosen @ [pick])"
    using greedy_pick_free[OF pick] 2(3) by (auto simp: positions_ok_def)
  have sum: "cover_sum pool (chosen @ [pick]) = covered + snd (pool ! pick)"
    using 2(4) by (simp add: cover_sum_def)
  then have w: "wrapping_add covered (snd (pool ! pick)) = cover_sum pool (chosen @ [pick])"
    using cover_sum_le[OF ok] 2(5) by (subst wrapping_add_exact) linarith+
  show ?case
  proof (cases "need \<le> cover_sum pool (chosen @ [pick])")
    case True
    then have "ps = chosen @ [pick]" using 2(2) pick w by (simp add: Let_def)
    then show ?thesis using ok True by simp
  next
    case False
    then have "greedy_fill pool need n (cover_sum pool (chosen @ [pick])) (chosen @ [pick]) = Some ps"
      using 2(2) pick w by (simp add: Let_def)
    with 2(1)[OF pick refl refl] False w ok 2(5) show ?thesis by (simp add: Let_def)
  qed
qed simp

lemma single_cover_spec:
  "smallest_cover pool 1 need = Some ps \<longleftrightarrow>
     (\<exists>i. ps = [i] \<and> i < length pool \<and> need \<le> snd (pool ! i) \<and>
        (\<forall>j<length pool. need \<le> snd (pool ! j) \<longrightarrow> j \<le> i))"
  by (auto simp: smallest_cover_def case_prod_unfold rposition_Some)

lemma smallest_cover_spec:
  assumes "smallest_cover pool n need = Some ps" "1 \<le> n" "desc pool" "psum pool \<le> u64_max"
  shows "positions_ok pool ps \<and> need \<le> cover_sum pool ps \<and> 1 \<le> length ps \<and> length ps \<le> n"
proof -
  consider "n = 1" | "n = 2" | "3 \<le> n" using assms(2) by linarith
  then show ?thesis
  proof cases
    case 1
    then show ?thesis using assms(1) single_cover_spec[of pool need ps]
      by (auto simp: positions_ok_def cover_sum_def)
  next
    case 2
    then have "2 \<le> length pool" "pair_cover pool need = Some ps"
      using assms(1) by (auto simp: smallest_cover_def split: if_splits)
    then show ?thesis using pair_cover_spec[OF assms(3,4)] 2 by auto
  next
    case 3
    then have "greedy_fill pool need n 0 [] = Some ps"
      using assms(1) by (auto simp: smallest_cover_def split: if_splits)
    then show ?thesis using greedy_fill_spec[of pool need n 0 "[]" ps] assms(4)
      by (auto simp: positions_ok_def cover_sum_def Suc_le_eq)
  qed
qed

section \<open>What a split needs\<close>

lemma funding_tx_vsize_exact: "n \<le> u32_max \<Longrightarrow> funding_tx_vsize n = 97 + 68 * n"
  by (simp add: funding_tx_vsize_def)

lemma split_need_mono:
  assumes "split_need target ec rate n = Some x" "m \<le> n" "n \<le> u32_max"
  shows "\<exists>y. split_need target ec rate m = Some y \<and> y \<le> x"
proof (cases ec)
  case None
  then obtain f where f: "fee_at_rate_sats (funding_tx_vsize n) rate = Some f" "checked_add target f = Some x"
    using assms(1) by (auto simp: split_need_def bind_eq_Some_conv)
  have "funding_tx_vsize m \<le> funding_tx_vsize n" "funding_tx_vsize n \<le> u64_max"
    using assms(2,3) by (simp_all add: funding_tx_vsize_exact)
  from fee_at_rate_mono_vsize[OF this f(1)] f(2) None show ?thesis
    by (auto simp: split_need_def checked_simps)
qed (use assms(1) in \<open>auto simp: split_need_def\<close>)

lemma split_need_target: "split_need target ec rate n = Some x \<Longrightarrow> target \<le> x"
  by (auto simp: split_need_def bind_eq_Some_conv checked_simps split: option.splits)

lemma find_coverD:
  "find_cover remaining need_for ns = Some ps \<Longrightarrow> \<exists>n\<in>set ns. cover_with remaining need_for n = Some ps"
  by (induction ns) (auto split: option.splits)

lemma fallback_fill_spec:
  assumes "fallback_fill rest need_for pos covered = (pos', covered')"
    and "rest = drop pos pool" "pos \<le> length pool" "covered = cover_sum pool [0..<pos]" "psum pool \<le> u64_max"
  shows "pos \<le> pos' \<and> pos' \<le> length pool \<and> covered' = cover_sum pool [0..<pos'] \<and>
    (\<forall>n. pos \<le> n \<and> n < pos' \<longrightarrow> (\<exists>x. need_for n = Some x \<and> cover_sum pool [0..<n] < x)) \<and>
    (pos' < length pool \<longrightarrow> (\<forall>x. need_for pos' = Some x \<longrightarrow> x \<le> covered'))"
  using assms
proof (induction rest need_for pos covered rule: fallback_fill.induct)
  case (1 need_for pos covered)
  then show ?case by auto
next
  case (2 o' v rest need_for pos covered)
  show ?case
  proof (cases "case need_for pos of None \<Rightarrow> True | Some need \<Rightarrow> need \<le> covered")
    case True
    then have "pos' = pos" "covered' = covered" using 2(2) by simp_all
    then show ?thesis using 2(4,5) True by (auto split: option.splits)
  next
    case False
    have lt: "pos < length pool" using 2(3) by (metis drop_all list.distinct(1) not_le)
    then have at: "pool ! pos = (o', v)" and rest: "rest = drop (Suc pos) pool"
      using 2(3) by (metis Cons_nth_drop_Suc list.inject)+
    have sum: "cover_sum pool [0..<Suc pos] = covered + v" using 2(5) at by (simp add: cover_sum_def)
    moreover have "cover_sum pool [0..<Suc pos] \<le> psum pool"
      using lt by (intro cover_sum_le) (auto simp: positions_ok_def)
    ultimately have w: "wrapping_add covered v = cover_sum pool [0..<Suc pos]"
      using 2(6) by simp
    have step: "fallback_fill rest need_for (Suc pos) (wrapping_add covered v) = (pos', covered')"
      using 2(2) False by simp
    note IH = 2(1)[OF False step rest Suc_leI[OF lt] w 2(6)]
    have "\<exists>x. need_for n = Some x \<and> cover_sum pool [0..<n] < x" if "pos \<le> n" "n < pos'" for n
    proof (cases "n = pos")
      case True
      then show ?thesis using False 2(5) by (auto split: option.splits)
    next
      case neq: False
      then show ?thesis using IH that by simp
    qed
    then show ?thesis using IH by auto
  qed
qed

lemma fallback_cover_spec:
  assumes "psum pool \<le> u64_max" "fallback_cover pool (split_need target ec rate) = Some ps"
  shows "positions_ok pool ps \<and> covers target ec rate (length ps) (cover_sum pool ps)"
proof -
  obtain pos c where f: "fallback_fill pool (split_need target ec rate) 0 0 = (pos, c)" by fastforce
  have "pos \<le> length pool" "c = cover_sum pool [0..<pos]"
    using fallback_fill_spec[OF f, of pool] assms(1) by (auto simp: cover_sum_def)
  moreover have "ps = [0..<pos]" "\<exists>x. split_need target ec rate pos = Some x \<and> x \<le> c"
    using assms(2) f by (auto simp: fallback_cover_def split: if_splits option.splits)
  ultimately show ?thesis by (auto simp: positions_ok_def covers_def)
qed

text \<open>The fallback finds a cover whenever some number of the first coins covers its own need.\<close>

lemma fallback_cover_complete:
  assumes "psum pool \<le> u64_max" "length pool \<le> u32_max"
    and "n \<le> length pool" "covers target ec rate n (cover_sum pool [0..<n])"
  shows "fallback_cover pool (split_need target ec rate) \<noteq> None"
proof -
  obtain pos c where f: "fallback_fill pool (split_need target ec rate) 0 0 = (pos, c)" by fastforce
  note sp = fallback_fill_spec[OF f, of pool, simplified, OF assms(1)]
  obtain x where x: "split_need target ec rate n = Some x" "x \<le> cover_sum pool [0..<n]"
    using assms(4) by (auto simp: covers_def)
  have "\<not> n < pos"
  proof
    assume "n < pos"
    with sp obtain y where "split_need target ec rate n = Some y" "cover_sum pool [0..<n] < y" by blast
    with x show False by simp
  qed
  then have le: "pos \<le> n" by simp
  then obtain y where y: "split_need target ec rate pos = Some y" "y \<le> x"
    using split_need_mono[OF x(1)] assms by auto
  have "y \<le> c"
  proof (cases "pos < length pool")
    case True
    then show ?thesis using sp y by blast
  next
    case False
    then have "pos = n" using le assms(3) by simp
    then show ?thesis using x y sp by auto
  qed
  then show ?thesis using f y by (simp add: fallback_cover_def)
qed

lemma pick_split_spec:
  assumes "pick_split k b rate ec target pool = Some ps"
    and "desc pool" "psum pool \<le> u64_max" "length pool \<le> u32_max"
  shows "positions_ok pool ps \<and> covers target ec rate (length ps) (cover_sum pool ps) \<and>
    (k \<noteq> 1 \<longrightarrow> length ps \<le> b)"
proof (cases "find_cover pool (split_need target ec rate) [1..<Suc (min b (length pool))]")
  case None
  then show ?thesis using assms fallback_cover_spec[OF assms(3)]
    by (auto simp: pick_split_def split: if_splits)
next
  case (Some qs)
  then have qs: "qs = ps" using assms(1) by (simp add: pick_split_def)
  then obtain n where "n \<in> set [1..<Suc (min b (length pool))]"
      and c: "cover_with pool (split_need target ec rate) n = Some ps"
    using find_coverD[OF Some] by blast
  then have n: "1 \<le> n" "n \<le> b" "n \<le> length pool"
    unfolding set_upt atLeastLessThan_iff by linarith+
  obtain x where x: "split_need target ec rate n = Some x" "smallest_cover pool n x = Some ps"
    using c by (auto simp: cover_with_def bind_eq_Some_conv split: if_splits)
  note sc = smallest_cover_spec[OF x(2) n(1) assms(2,3)]
  then obtain y where "split_need target ec rate (length ps) = Some y" "y \<le> x"
    using split_need_mono[OF x(1), of "length ps"] n assms(4) by auto
  then show ?thesis using sc n by (auto simp: covers_def)
qed

section \<open>Taking coins out of a pool\<close>

lemma take_out_spec:
  assumes "strictly_desc ps" "set ps \<subseteq> {..<length pool}" "take_out ps pool = (taken, rest)"
  shows "taken = map (\<lambda>i. fst (pool ! i)) ps \<and>
    mset pool = mset (map (\<lambda>i. pool ! i) ps) + mset rest \<and> subseq rest pool"
  using assms
proof (induction ps pool arbitrary: taken rest rule: take_out.induct)
  case (1 pool)
  then show ?case by simp
next
  case (2 pos ps pool)
  let ?pool = "take pos pool @ drop (Suc pos) pool"
  have pos: "pos < length pool" and below: "\<forall>p\<in>set ps. p < pos"
    using 2(2,3) by (auto simp: strictly_desc_def)
  obtain t r where tr: "take_out ps ?pool = (t, r)" by fastforce
  then have res: "taken = fst (pool ! pos) # t" "rest = r" using 2(4) by auto
  have split: "pool = take pos pool @ pool ! pos # drop (Suc pos) pool"
    using pos by (simp add: id_take_nth_drop)
  have same: "?pool ! p = pool ! p" if "p < pos" for p
    using that pos by (simp add: nth_append)
  have sub: "set ps \<subseteq> {..<length ?pool}" using below pos by auto
  have sd: "strictly_desc ps" using 2(2) by (simp add: strictly_desc_def)
  have IH: "t = map (\<lambda>i. fst (?pool ! i)) ps"
      "mset ?pool = mset (map (\<lambda>i. ?pool ! i) ps) + mset r" "subseq r ?pool"
    using 2(1)[OF sd sub tr] by auto
  have maps: "map (\<lambda>i. ?pool ! i) ps = map (\<lambda>i. pool ! i) ps"
    "map (\<lambda>i. fst (?pool ! i)) ps = map (\<lambda>i. fst (pool ! i)) ps"
    using below same by (auto intro!: map_cong)
  have "mset pool = {# pool ! pos #} + mset ?pool" by (subst split) simp
  moreover have "subseq ?pool (take pos pool @ pool ! pos # drop (Suc pos) pool)"
    by (rule list_emb_append_mono) auto
  then have "subseq ?pool pool" using split by simp
  ultimately show ?case using IH maps res by (auto intro: subseq_order.order_trans)
qed

lemma sorted_wrt_subseq: "subseq xs ys \<Longrightarrow> sorted_wrt R ys \<Longrightarrow> sorted_wrt R xs"
  by (induction rule: list_emb.induct) (auto dest: list_emb_set)

lemma subseq_distinct: "subseq xs ys \<Longrightarrow> distinct ys \<Longrightarrow> distinct xs"
  by (induction rule: list_emb.induct) (auto dest: list_emb_set)

lemma subseq_psum: "subseq xs ys \<Longrightarrow> psum xs \<le> psum ys"
  unfolding psum_def by (induction rule: list_emb.induct) auto

lemma subseq_desc: "subseq rest pool \<Longrightarrow> desc pool \<Longrightarrow> desc rest"
  unfolding desc_def by (metis subseq_map sorted_wrt_subseq)

text \<open>One split: the coins leave the pool, and their recorded values are what they cover.\<close>

lemma split_spec:
  assumes "distinct (map fst pool)" "positions_ok pool ps"
    and "take_out (rev (sort ps)) pool = (taken, rest)"
  shows "length taken = length ps \<and> coin_sum pool taken = cover_sum pool ps \<and>
    mset (map fst pool) = mset taken + mset (map fst rest) \<and> subseq rest pool"
proof -
  have sd: "strictly_desc (rev (sort ps))"
    using assms(2) by (simp add: strictly_desc_def positions_ok_def sorted_wrt_rev strict_sorted_iff)
  have sub: "set (rev (sort ps)) \<subseteq> {..<length pool}" using assms(2) by (simp add: positions_ok_def)
  note t = take_out_spec[OF sd sub assms(3)]
  have val: "the (map_of pool (fst (pool ! i))) = snd (pool ! i)" if "i < length pool" for i
    using that map_of_is_SomeI[OF assms(1), of "fst (pool ! i)" "snd (pool ! i)"] by simp
  have "coin_sum pool taken = sum_list (map (\<lambda>i. snd (pool ! i)) (rev (sort ps)))"
    using t sub by (auto simp: coin_sum_def val subset_iff intro!: arg_cong[where f = sum_list])
  also have "\<dots> = cover_sum pool ps"
  proof -
    have "mset (map (\<lambda>i. snd (pool ! i)) (rev (sort ps))) = mset (map (\<lambda>i. snd (pool ! i)) ps)" by simp
    from arg_cong[OF this, of sum_mset] show ?thesis by (simp only: sum_mset_sum_list cover_sum_def)
  qed
  finally have cs: "coin_sum pool taken = cover_sum pool ps" .
  have "mset (map fst pool) = mset taken + mset (map fst rest)"
  proof -
    have "image_mset fst (mset pool) =
        image_mset fst (mset (map (\<lambda>i. pool ! i) (rev (sort ps))) + mset rest)" using t by simp
    then show ?thesis using t by (simp add: multiset.map_comp comp_def)
  qed
  then show ?thesis using cs t by simp
qed

lemma coin_sum_subseq:
  assumes "subseq rest pool" "distinct (map fst pool)" "set os \<subseteq> fst ` set rest"
  shows "coin_sum rest os = coin_sum pool os"
proof -
  have "distinct (map fst rest)" using assms(1,2) by (metis subseq_map subseq_distinct)
  then have "map_of rest o' = map_of pool o'" if "o' \<in> set os" for o'
  proof -
    obtain v where "(o', v) \<in> set rest" using assms(3) \<open>o' \<in> set os\<close> by auto
    moreover then have "(o', v) \<in> set pool" using assms(1) by (auto dest: list_emb_set)
    ultimately show ?thesis using assms(2) \<open>distinct (map fst rest)\<close> by simp
  qed
  then show ?thesis by (simp add: coin_sum_def cong: map_cong)
qed

lemma share_bounds:
  fixes t n l u :: nat
  assumes "l * Suc n \<le> t" "t \<le> u * Suc n"
  shows "l \<le> t div Suc n \<and> t div Suc n \<le> u \<and> l * n \<le> t - t div Suc n \<and> t - t div Suc n \<le> u * n"
proof -
  define q r where "q = t div Suc n" and "r = t mod Suc n"
  have t: "t = q * Suc n + r" unfolding q_def r_def by (rule div_mult_mod_eq[symmetric])
  have r: "r \<le> n" by (simp add: r_def less_Suc_eq_le[symmetric])
  have lq: "l \<le> q" using assms(1) by (simp add: q_def less_eq_div_iff_mult_less_eq)
  have tq: "t - q = q * n + r" using t by simp
  have "l * n \<le> q * n" using lq by simp
  moreover have "q \<le> u \<and> q * n + r \<le> u * n"
  proof (cases "q < u")
    case True
    then have "Suc q * n \<le> u * n" by (intro mult_le_mono) simp_all
    then show ?thesis using r True by simp
  next
    case False
    then have "u * Suc n \<le> q * Suc n" by (intro mult_le_mono) simp_all
    then have "q * Suc n + r = u * Suc n" using assms(2) t by linarith
    then have "r = 0" "q * Suc n = u * Suc n" using \<open>u * Suc n \<le> q * Suc n\<close> by linarith+
    then have "r = 0" "q = u" by (simp, metis mult_cancel2 nat.distinct(1))
    then show ?thesis by simp
  qed
  ultimately have "l \<le> q \<and> q \<le> u \<and> l * n \<le> t - q \<and> t - q \<le> u * n" using lq tq by linarith
  then show ?thesis by (simp only: q_def)
qed

lemma plan_ok_Cons:
  assumes "distinct (map fst pool)" "subseq rest pool"
    and ms: "mset (map fst pool) = mset taken + mset (map fst rest)"
    and here: "split_ok pool ec rate k b \<lparr>utxos = taken, split_value = target\<rparr>"
    and rest: "plan_ok rest ec rate k b plan"
  shows "plan_ok pool ec rate k b (\<lparr>utxos = taken, split_value = target\<rparr> # plan)"
proof -
  have "distinct (taken @ map fst rest)"
    using assms(1) mset_eq_imp_distinct_iff[of "map fst pool" "taken @ map fst rest"] ms by simp
  moreover have sub: "set (concat (map utxos plan)) \<subseteq> fst ` set rest" using rest by (simp add: plan_ok_def)
  ultimately have dist: "distinct (taken @ concat (map utxos plan))"
    using rest unfolding plan_ok_def distinct_append set_map by blast
  have "set taken \<union> fst ` set rest = fst ` set pool" using arg_cong[OF ms, of set_mset] by auto
  with sub have "set (taken @ concat (map utxos plan)) \<subseteq> fst ` set pool"
    unfolding set_append by blast
  moreover have "split_ok pool ec rate k b s" if "s \<in> set plan" for s
  proof -
    have "set (utxos s) \<subseteq> fst ` set rest" using sub that by auto
    note eq = coin_sum_subseq[OF assms(2,1) this]
    have "split_ok rest ec rate k b s" using rest that by (simp add: plan_ok_def)
    then show ?thesis by (simp add: split_ok_def eq)
  qed
  ultimately show ?thesis unfolding plan_ok_def using dist here by simp
qed

lemma plan_loop_spec:
  assumes "plan_loop total_sats k b rate ec left pool assigned = Some plan"
    and "desc pool" "distinct (map fst pool)" "psum pool \<le> u64_max" "length pool \<le> u32_max"
    and "assigned \<le> total_sats" "l * left \<le> total_sats - assigned" "total_sats - assigned \<le> u * left"
  shows "length plan = left \<and> sum_list (map split_value plan) = (if left = 0 then 0 else total_sats - assigned) \<and>
    (\<forall>s\<in>set plan. l \<le> split_value s \<and> split_value s \<le> u) \<and> plan_ok pool ec rate k b plan"
  using assms
proof (induction left arbitrary: pool assigned plan)
  case 0
  then show ?case by (simp add: plan_ok_def)
next
  case (Suc left)
  define target where "target = (total_sats - assigned) div Suc left"
  obtain ps where ps: "pick_split k b rate ec target pool = Some ps"
    using Suc.prems(1) by (auto simp: target_def Let_def split: option.splits)
  obtain taken rest where tr: "take_out (rev (sort ps)) pool = (taken, rest)" by fastforce
  obtain plan' where plan': "plan_loop total_sats k b rate ec left rest (assigned + target) = Some plan'"
      "plan = \<lparr>utxos = taken, split_value = target\<rparr> # plan'"
    using Suc.prems(1) ps tr by (auto simp: target_def Let_def)
  note pick = pick_split_spec[OF ps Suc.prems(2,4,5)]
  note sp = split_spec[OF Suc.prems(3) _ tr]
  have sub: "subseq rest pool" using sp pick by simp
  have ms: "mset (map fst pool) = mset taken + mset (map fst rest)" using sp pick by simp
  have dr: "distinct (map fst rest)" using Suc.prems(3) sub by (metis subseq_map subseq_distinct)
  have share: "l \<le> target" "target \<le> u" "l * left \<le> total_sats - (assigned + target)"
      "total_sats - (assigned + target) \<le> u * left"
    using share_bounds[OF Suc.prems(7,8), folded target_def] unfolding diff_diff_left by blast+
  have le: "target \<le> total_sats - assigned" by (simp add: target_def div_le_dividend)
  have small: "psum rest \<le> u64_max" "length rest \<le> u32_max"
    using Suc.prems(4,5) subseq_psum[OF sub] list_emb_length[OF sub] by linarith+
  note IH = Suc.IH[OF plan'(1) subseq_desc[OF sub Suc.prems(2)] dr small _ share(3,4)]
  have rest: "length plan' = left" "sum_list (map split_value plan') = (if left = 0 then 0 else total_sats - assigned - target)"
      "\<forall>s\<in>set plan'. l \<le> split_value s \<and> split_value s \<le> u" "plan_ok rest ec rate k b plan'"
    using IH le Suc.prems(6) by (simp_all add: diff_diff_eq)
  have total: "sum_list (map split_value plan) = total_sats - assigned"
  proof (cases "left = 0")
    case True
    then show ?thesis using rest(2) plan'(2) by (simp add: target_def)
  next
    case False
    then show ?thesis using rest(2) plan'(2) le by simp
  qed
  have "split_ok pool ec rate k b \<lparr>utxos = taken, split_value = target\<rparr>"
    using sp pick by (simp add: split_ok_def)
  from plan_ok_Cons[OF Suc.prems(3) sub ms this rest(4)] have "plan_ok pool ec rate k b plan"
    using plan'(2) by simp
  then show ?case using rest(1,3) total share plan'(2) by simp
qed

section \<open>Sorting a pool\<close>

lemma sort_desc_props:
  "desc (sort_desc pool)" "mset (sort_desc pool) = mset pool"
proof -
  have "sorted (map coin_key (sort_key coin_key pool))" by simp
  then have "sorted (map snd (sort_key coin_key pool))"
    by (auto simp: sorted_wrt_map coin_key_def less_eq_prod_def elim!: sorted_wrt_mono_rel[rotated])
  then show "desc (sort_desc pool)"
    by (simp add: desc_def sort_desc_def rev_map[symmetric] sorted_wrt_rev)
qed (simp add: sort_desc_def)

lemma sort_desc_same:
  "length (sort_desc pool) = length pool" "set (sort_desc pool) = set pool"
  "psum (sort_desc pool) = psum pool" "distinct (map fst (sort_desc pool)) = distinct (map fst pool)"
proof -
  note m = sort_desc_props(2)[of pool]
  show "length (sort_desc pool) = length pool" by (metis m size_mset)
  show "set (sort_desc pool) = set pool" by (metis m set_mset_mset)
  have "mset (map snd (sort_desc pool)) = mset (map snd pool)" by (simp add: m)
  from arg_cong[OF this, of sum_mset] show "psum (sort_desc pool) = psum pool"
    by (simp only: psum_def sum_mset_sum_list)
  show "distinct (map fst (sort_desc pool)) = distinct (map fst pool)"
    by (rule mset_eq_imp_distinct_iff) (simp add: m)
qed

lemma coin_sum_sort_desc:
  assumes "distinct (map fst pool)"
  shows "coin_sum (sort_desc pool) = coin_sum pool"
proof -
  have "map_of (sort_desc pool) = map_of pool"
    using assms by (intro map_of_inject_set[THEN iffD2]) (simp_all add: sort_desc_same)
  then show ?thesis by (simp add: coin_sum_def fun_eq_iff)
qed

lemma plan_ok_sort_desc:
  "distinct (map fst pool) \<Longrightarrow> plan_ok (sort_desc pool) = plan_ok pool"
  by (simp add: plan_ok_def split_ok_def coin_sum_sort_desc sort_desc_same fun_eq_iff)

section \<open>The largest coins cover the most\<close>

lemma strictly_sorted_ge: "sorted_wrt (<) (xs :: nat list) \<Longrightarrow> i < length xs \<Longrightarrow> i \<le> xs ! i"
proof (induction i)
  case (Suc i)
  then have "xs ! i < xs ! Suc i" by (simp add: sorted_wrt_iff_nth_less)
  then show ?case using Suc by simp
qed simp

lemma top_coins_most:
  assumes "desc pool" "positions_ok pool ps"
  shows "length ps \<le> length pool \<and> cover_sum pool ps \<le> cover_sum pool [0..<length ps]"
proof -
  let ?qs = "sort ps"
  have qs: "sorted_wrt (<) ?qs" "set ?qs \<subseteq> {..<length pool}"
    using assms(2) by (auto simp: positions_ok_def strict_sorted_iff)
  have "cover_sum pool ps = cover_sum pool ?qs"
    using assms(2) by (simp add: cover_sum_set positions_ok_def)
  also have "\<dots> = (\<Sum>i<length ps. snd (pool ! (?qs ! i)))"
    by (simp add: cover_sum_def sum_list_sum_nth atLeast0LessThan)
  also have "\<dots> \<le> (\<Sum>i<length ps. snd (pool ! i))"
  proof (rule sum_mono)
    fix i assume "i \<in> {..<length ps}"
    then have i: "i < length ?qs" by simp
    then have "?qs ! i < length pool" using qs(2) nth_mem[OF i] by blast
    then show "snd (pool ! (?qs ! i)) \<le> snd (pool ! i)"
      using strictly_sorted_ge[OF qs(1) i] by (intro desc_nth[OF assms(1)])
  qed
  also have "\<dots> = cover_sum pool [0..<length ps]"
    by (simp add: cover_sum_def sum_list_sum_nth atLeast0LessThan)
  finally have "cover_sum pool ps \<le> cover_sum pool [0..<length ps]" .
  moreover have "length ps \<le> length pool"
    using assms(2) card_mono[of "{..<length pool}" "set ps"]
    by (simp add: positions_ok_def distinct_card)
  ultimately show ?thesis by simp
qed

lemma positions_of_coins:
  assumes "distinct (map fst pool)" "distinct os" "set os \<subseteq> fst ` set pool"
  shows "\<exists>ps. positions_ok pool ps \<and> length ps = length os \<and> cover_sum pool ps = coin_sum pool os"
proof -
  let ?I = "{i. i < length pool \<and> fst (pool ! i) \<in> set os}"
  let ?ps = "filter (\<lambda>i. fst (pool ! i) \<in> set os) [0..<length pool]"
  have set: "set ?ps = ?I" by auto
  have inj: "inj_on (\<lambda>i. fst (pool ! i)) ?I"
    using assms(1) by (auto simp: inj_on_def distinct_conv_nth)
  have img: "(\<lambda>i. fst (pool ! i)) ` ?I = set os"
  proof
    show "set os \<subseteq> (\<lambda>i. fst (pool ! i)) ` ?I"
    proof
      fix o' assume o: "o' \<in> set os"
      then obtain c where "c \<in> set pool" "fst c = o'" using assms(3) by blast
      then obtain i where "i < length pool" "fst (pool ! i) = o'" by (metis in_set_conv_nth)
      then show "o' \<in> (\<lambda>i. fst (pool ! i)) ` ?I" using o by auto
    qed
  qed auto
  have val: "the (map_of pool (fst (pool ! i))) = snd (pool ! i)" if "i \<in> ?I" for i
    using that map_of_is_SomeI[OF assms(1), of "fst (pool ! i)" "snd (pool ! i)"] by simp
  have "length ?ps = card ?I" using distinct_card[of ?ps] set by simp
  also have "\<dots> = length os" using card_image[OF inj] img distinct_card[OF assms(2)] by simp
  finally have len: "length ?ps = length os" .
  have "cover_sum pool ?ps = (\<Sum>i\<in>?I. snd (pool ! i))" using set by (simp add: cover_sum_set)
  also have "\<dots> = (\<Sum>i\<in>?I. the (map_of pool (fst (pool ! i))))" by (rule sum.cong) (simp_all only: val)
  also have "\<dots> = (\<Sum>o'\<in>set os. the (map_of pool o'))" 
    using sum.reindex[OF inj, of "\<lambda>o'. the (map_of pool o')"] img by (simp add: comp_def)
  also have "\<dots> = coin_sum pool os"
    using assms(2) by (simp add: coin_sum_def sum_list_distinct_conv_sum_set)
  finally show ?thesis using len by (intro exI[of _ ?ps]) (auto simp: positions_ok_def)
qed

section \<open>Plans\<close>

lemma plan_with_k_spec:
  assumes "plan_with_k pool total_sats k b rate min_split ec = Some plan"
    and "pool_wf pool" "desc pool" "k * min_split \<le> u64_max"
  shows "1 \<le> k \<and> length plan = k \<and> sum_list (map split_value plan) = total_sats \<and>
    (\<forall>s\<in>set plan. min_split \<le> split_value s \<and> total_sats div k \<le> split_value s \<and>
       split_value s \<le> total_sats div k + 1) \<and> plan_ok pool ec rate k b plan"
proof -
  have k: "k \<noteq> 0" "k * min_split \<le> total_sats"
    and loop: "plan_loop total_sats k b rate ec k pool 0 = Some plan"
    using assms(1,4) by (auto simp: plan_with_k_def split: if_splits)
  have wf: "distinct (map fst pool)" "psum pool \<le> u64_max" "length pool \<le> u32_max"
    using assms(2) by (auto simp: pool_wf_def)
  have lo: "max min_split (total_sats div k) * k \<le> total_sats - 0"
    using k by (simp add: max_def mult.commute)
  have "total_sats < (total_sats div k + 1) * k"
    using k(1) by (metis Suc_eq_plus1 dividend_less_times_div mult.commute mult_Suc_right neq0_conv)
  then have hi: "total_sats - 0 \<le> (total_sats div k + 1) * k" by simp
  from plan_loop_spec[OF loop assms(3) wf _ lo hi] k(1) show ?thesis by auto
qed

lemma plan_one_complete:
  assumes "pool_wf pool" "desc pool" "min_split \<le> total_sats" "min_split \<le> u64_max"
    and "n \<le> length pool" "covers total_sats ec rate n (cover_sum pool [0..<n])"
  shows "plan_with_k pool total_sats 1 b rate min_split ec \<noteq> None"
proof -
  have "pick_split 1 b rate ec total_sats pool \<noteq> None"
    using fallback_cover_complete[OF _ _ assms(5,6)] assms(1)
    unfolding pick_split_def Let_def pool_wf_def by (simp split: option.split)
  then show ?thesis using assms(3,4) by (auto simp: plan_with_k_def Let_def split: prod.splits)
qed

lemma first_planD:
  "first_plan f n = plan \<Longrightarrow> plan \<noteq> [] \<Longrightarrow> \<exists>k. 1 \<le> k \<and> k \<le> n \<and> f k = Some plan \<and> (\<forall>j. k < j \<and> j \<le> n \<longrightarrow> f j = None)"
proof (induction n)
  case (Suc n)
  show ?case
  proof (cases "f (Suc n)")
    case None
    then obtain k where "1 \<le> k" "k \<le> n" "f k = Some plan" "\<forall>j. k < j \<and> j \<le> n \<longrightarrow> f j = None"
      using Suc by auto
    then show ?thesis using None by (metis le_Suc_eq)
  next
    case (Some p)
    then show ?thesis using Suc by (intro exI[of _ "Suc n"]) auto
  qed
qed simp

lemma first_plan_nonempty:
  "f k \<noteq> None \<Longrightarrow> 1 \<le> k \<Longrightarrow> k \<le> n \<Longrightarrow> (\<And>j p. f j = Some p \<Longrightarrow> p \<noteq> []) \<Longrightarrow> first_plan f n \<noteq> []"
  by (induction n) (auto simp: le_Suc_eq split: option.splits)

lemma plan_funding_splits_spec:
  assumes "plan_funding_splits pool total_sats max_splits b rate min_split ec = plan" "plan \<noteq> []"
    and "pool_wf pool" "max_splits * min_split \<le> u64_max"
  shows "\<exists>k. 1 \<le> k \<and> k \<le> max_splits \<and> length plan = k \<and> sum_list (map split_value plan) = total_sats \<and>
    (\<forall>s\<in>set plan. min_split \<le> split_value s \<and> total_sats div k \<le> split_value s \<and>
       split_value s \<le> total_sats div k + 1) \<and> plan_ok pool ec rate k b plan"
proof -
  obtain k where k: "1 \<le> k" "k \<le> max_splits"
      "plan_with_k (sort_desc pool) total_sats k b rate min_split ec = Some plan"
    using first_planD[OF assms(1)[unfolded plan_funding_splits_def] assms(2)] by auto
  have "k * min_split \<le> max_splits * min_split" using k(2) by simp
  with assms(4) have kb: "k * min_split \<le> u64_max" by linarith
  have wf: "pool_wf (sort_desc pool)" using assms(3) by (simp add: pool_wf_def sort_desc_same)
  from plan_with_k_spec[OF k(3) wf sort_desc_props(1) kb] k(1,2) assms(3) show ?thesis
    by (intro exI[of _ k]) (simp add: plan_ok_sort_desc pool_wf_def)
qed

lemma plan_funding_splits_complete:
  assumes "pool_wf pool" "1 \<le> max_splits" "max_splits * min_split \<le> u64_max" "min_split \<le> total_sats"
    and "distinct os" "set os \<subseteq> fst ` set pool" "covers total_sats ec rate (length os) (coin_sum pool os)"
  shows "plan_funding_splits pool total_sats max_splits b rate min_split ec \<noteq> []"
proof -
  let ?p = "sort_desc pool"
  have wf: "pool_wf ?p" using assms(1) by (simp add: pool_wf_def sort_desc_same)
  obtain ps where ps: "positions_ok ?p ps" "length ps = length os" "cover_sum ?p ps = coin_sum pool os"
    using positions_of_coins[of ?p os] assms(1,5,6)
    by (auto simp: sort_desc_same pool_wf_def coin_sum_sort_desc)
  note top = top_coins_most[OF sort_desc_props(1) ps(1)]
  have cov: "covers total_sats ec rate (length ps) (cover_sum ?p [0..<length ps])"
    using assms(7) top ps by (auto simp: covers_def)
  have "1 * min_split \<le> max_splits * min_split" using assms(2) by (intro mult_le_mono1)
  then have ms: "min_split \<le> u64_max" using assms(3) by linarith
  have one: "plan_with_k ?p total_sats 1 b rate min_split ec \<noteq> None"
    using top by (intro plan_one_complete[OF wf sort_desc_props(1) assms(4) ms _ cov]) simp
  have ne: "p \<noteq> []" if "plan_with_k ?p total_sats k b rate min_split ec = Some p" for k p
    using that by (cases k) (auto simp: plan_with_k_def Let_def split: if_splits option.splits prod.splits)
  show ?thesis unfolding plan_funding_splits_def
    by (rule first_plan_nonempty[of _ 1]) (use one ne assms(2) in auto)
qed

section \<open>The guard and the netting\<close>

lemma fee_of_mono:
  assumes "fee_at_rate_sats (funding_tx_vsize n) rate \<noteq> None" "m \<le> n" "n \<le> u32_max"
  shows "fee_at_rate_sats (funding_tx_vsize m) rate = Some (fee_of rate m) \<and> fee_of rate m \<le> fee_of rate n"
proof -
  have "funding_tx_vsize m \<le> funding_tx_vsize n" "funding_tx_vsize n \<le> u64_max"
    using assms(2,3) by (simp_all add: funding_tx_vsize_exact)
  moreover obtain g where "fee_at_rate_sats (funding_tx_vsize n) rate = Some g" using assms(1) by auto
  ultimately show ?thesis using fee_at_rate_mono_vsize[of "funding_tx_vsize m" "funding_tx_vsize n" rate g]
    by (auto simp: fee_of_def)
qed

lemma over_budget_sum_spec:
  assumes "\<forall>(i, d)\<in>set counts. clamp 1 (max b 1) d \<le> i \<and> i \<le> u32_max \<and>
      fee_at_rate_sats (funding_tx_vsize i) rate \<noteq> None"
    and "acc + sum_list (map (\<lambda>(i, d). fee_of rate i) counts) \<le> u64_max"
  shows "over_budget_sum b rate counts acc =
    Inr (acc + sum_list (map (\<lambda>(i, d). fee_of rate i - fee_of rate (clamp 1 (max b 1) d)) counts))"
  using assms
proof (induction counts arbitrary: acc)
  case (Cons c counts)
  obtain i d where c: "c = (i, d)" by fastforce
  let ?p = "clamp 1 (max b 1) d"
  have i: "?p \<le> i" "i \<le> u32_max" "fee_at_rate_sats (funding_tx_vsize i) rate \<noteq> None" using Cons.prems(1) c by auto
  note fi = fee_of_mono[OF i(3) order_refl i(2)] and fp = fee_of_mono[OF i(3,1,2)]
  have sub: "checked_sub (fee_of rate i) (fee_of rate ?p) = Some (fee_of rate i - fee_of rate ?p)"
    using fp by (simp add: checked_sub_def)
  have add: "checked_add acc (fee_of rate i - fee_of rate ?p) = Some (acc + (fee_of rate i - fee_of rate ?p))"
    using Cons.prems(2) c by (simp add: checked_add_def)
  have IH: "over_budget_sum b rate counts (acc + (fee_of rate i - fee_of rate ?p)) =
      Inr (acc + (fee_of rate i - fee_of rate ?p) +
        sum_list (map (\<lambda>(i, d). fee_of rate i - fee_of rate (clamp 1 (max b 1) d)) counts))"
    by (rule Cons.IH) (use Cons.prems c in auto)
  show ?case using fi fp sub add IH c by (simp add: funding_fee_def Let_def)
qed simp

lemma net_splits_spec:
  assumes "net_splits b rate min_split zs = Inr netted"
  shows "length netted = length zs \<and> map utxos netted = map (\<lambda>z. utxos (fst z)) zs \<and>
    (\<forall>i<length zs. split_value (netted ! i) + policy_fee b rate (snd (zs ! i)) = split_value (fst (zs ! i)) \<and>
       min_split \<le> split_value (netted ! i))"
  using assms
proof (induction zs arbitrary: netted)
  case (Cons z zs)
  obtain split inputs where z: "z = (split, inputs)" by fastforce
  obtain fee rest where f: "funding_fee_policy_sats inputs b rate = Some fee" "fee \<le> split_value split"
      "min_split \<le> split_value split - fee" "net_splits b rate min_split zs = Inr rest"
      "netted = split\<lparr>split_value := split_value split - fee\<rparr> # rest"
    using Cons.prems z by (auto simp: result_simps checked_simps split: option.splits if_splits)
  from Cons.IH[OF f(4)] f z show ?case by (auto simp: nth_Cons policy_fee_def split: nat.splits)
qed simp

lemma sum_list_nth_add:
  "length xs = length ys \<Longrightarrow> length ys = length zs \<Longrightarrow> (\<forall>i<length xs. (xs ! i :: nat) + ys ! i = zs ! i) \<Longrightarrow>
   sum_list xs + sum_list ys = sum_list zs"
  by (simp add: sum_list_sum_nth sum.distrib[symmetric])

lemma net_policy_fees_spec:
  assumes "net_policy_fees dust plan priced b rate protocol = Inr netted"
  shows "length netted = length plan \<and> length priced = length plan \<and> map utxos netted = map utxos plan \<and>
    (\<exists>m. min_contract_value_sats dust protocol rate = Some m \<and> (\<forall>s\<in>set netted. m \<le> split_value s)) \<and>
    sum_list (map split_value netted) + sum_list (map (policy_fee b rate) priced) =
      sum_list (map split_value plan)"
proof -
  obtain m where m: "length priced = length plan" "min_contract_value_sats dust protocol rate = Some m"
      "net_splits b rate m (zip plan priced) = Inr netted"
    using assms by (auto simp: net_policy_fees_def result_simps split: if_splits)
  note ns = net_splits_spec[OF m(3)]
  have "sum_list (map split_value netted) + sum_list (map (policy_fee b rate) priced) = sum_list (map split_value plan)"
    by (rule sum_list_nth_add) (use ns m(1) in auto)
  moreover have "map (\<lambda>z. utxos (fst z)) (zip plan priced) = map utxos plan"
  proof -
    have "map utxos (map fst (zip plan priced)) = map utxos plan" using m(1) by (simp only: map_fst_zip)
    then show ?thesis by (simp only: map_map comp_def)
  qed
  moreover have "\<forall>s\<in>set netted. m \<le> split_value s"
    using ns by (auto simp: in_set_conv_nth)
  ultimately show ?thesis using ns m by auto
qed

section \<open>Keeping a declared shape\<close>

lemma foldl_update:
  assumes "distinct (map snd zs)" "\<forall>z\<in>set zs. snd z < length rank"
  defines "F \<equiv> foldl (\<lambda>rank z. rank[snd z := fst z])"
  shows "length (F rank zs) = length rank \<and> (\<forall>z\<in>set zs. F rank zs ! snd z = fst z) \<and>
    (\<forall>j. j \<notin> snd ` set zs \<longrightarrow> F rank zs ! j = rank ! j)"
  using assms(1,2)
proof (induction zs arbitrary: rank)
  case Nil
  then show ?case by (simp add: F_def)
next
  case (Cons z zs)
  let ?rank = "rank[snd z := fst z]"
  have step: "F rank (z # zs) = F ?rank zs" by (simp add: F_def)
  have IH: "length (F ?rank zs) = length rank" "\<forall>y\<in>set zs. F ?rank zs ! snd y = fst y"
    "\<forall>j. j \<notin> snd ` set zs \<longrightarrow> F ?rank zs ! j = ?rank ! j"
    using Cons.IH[of ?rank] Cons.prems by auto
  have "snd z < length rank" "snd z \<notin> snd ` set zs" using Cons.prems by auto
  then have "F ?rank zs ! snd z = fst z" using IH(3) by simp
  then show ?case unfolding step using IH by auto
qed

lemma declared_rank_perm: "mset (declared_rank declared) = mset [0..<length declared]"
proof -
  let ?n = "length declared"
  define order where "order = sort_key (\<lambda>i. declared ! i) [0..<?n]"
  have o: "length order = ?n" "distinct order" "set order = {..<?n}"
    by (auto simp: order_def atLeast0LessThan)
  let ?rank = "declared_rank declared"
  have rank: "?rank = foldl (\<lambda>rank z. rank[snd z := fst z]) (replicate ?n 0) (zip [0..<?n] order)"
    by (simp add: declared_rank_def Let_def order_def case_prod_unfold)
  have fu: "length ?rank = ?n" "\<forall>z\<in>set (zip [0..<?n] order). ?rank ! snd z = fst z"
  proof -
    have d: "distinct (map snd (zip [0..<?n] order))" using o by simp
    have r: "\<forall>z\<in>set (zip [0..<?n] order). snd z < length (replicate ?n (0::nat))"
    proof
      fix z assume "z \<in> set (zip [0..<?n] order)"
      then have "snd z \<in> set order" by (metis prod.collapse set_zip_rightD)
      then show "snd z < length (replicate ?n (0::nat))" using o(3) by simp
    qed
    from foldl_update[OF d r] show "length ?rank = ?n"
      "\<forall>z\<in>set (zip [0..<?n] order). ?rank ! snd z = fst z" unfolding rank length_replicate by blast+
  qed
  have at: "?rank ! (order ! r) = r" if "r < ?n" for r
  proof -
    have "(r, order ! r) \<in> set (zip [0..<?n] order)" 
      using that o(1) by (auto simp: set_zip intro!: exI[of _ r])
    then show ?thesis using fu(2) by force
  qed
  have "set ?rank = {..<?n}"
  proof
    show "{..<?n} \<subseteq> set ?rank"
    proof
      fix r assume "r \<in> {..<?n}"
      then have "order ! r < ?n" "?rank ! (order ! r) = r" using o nth_mem[of r order] at by auto
      then show "r \<in> set ?rank" using fu(1) by (metis nth_mem)
    qed
    show "set ?rank \<subseteq> {..<?n}"
    proof
      fix x assume "x \<in> set ?rank"
      then obtain i where i: "i < ?n" "?rank ! i = x" using fu(1) by (metis in_set_conv_nth)
      then obtain r where "r < ?n" "order ! r = i" using o by (metis in_set_conv_nth lessThan_iff)
      then show "x \<in> {..<?n}" using at i by auto
    qed
  qed
  moreover from this fu(1) have "distinct ?rank" by (metis card_distinct card_lessThan)
  ultimately show ?thesis
    by (metis atLeast0LessThan distinct_upt set_eq_iff_mset_eq_distinct set_upt)
qed

lemma pair_by_size_perm:
  assumes "length fresh = length declared"
  shows "mset (pair_by_size fresh declared) = mset fresh"
proof -
  let ?s = "sort_key (\<lambda>s. length (utxos s)) fresh"
  have "mset (pair_by_size fresh declared) = image_mset (\<lambda>r. ?s ! r) (mset [0..<length declared])"
    by (simp add: pair_by_size_def Let_def declared_rank_perm[symmetric] del: mset_upt)
  also have "\<dots> = mset (map (\<lambda>r. ?s ! r) [0..<length ?s])" using assms by (simp del: mset_upt)
  also have "\<dots> = mset fresh" by (simp only: map_nth mset_sort)
  finally show ?thesis .
qed

lemma top_up_Cons:
  assumes "top_up swept ((split, inputs) # zs) sr ss = Inr out"
  defines "short \<equiv> inputs - length (utxos split)"
  obtains pool sr' ss' out' where "out = split\<lparr>utxos := utxos split @ take short pool\<rparr> # out'"
    "short \<le> length pool" "top_up swept zs sr' ss' = Inr out'"
    "\<And>m n. \<exists>m' n'. mset (take short pool) + mset (take m sr') + mset (take n ss') =
       mset (take m' sr) + mset (take n' ss)"
proof (cases "case utxos split of [] \<Rightarrow> False | o' # _ \<Rightarrow> o' \<in> swept")
  case True
  then obtain out' where o: "top_up swept zs sr (drop short ss) = Inr out'" "short \<le> length ss"
      "out = split\<lparr>utxos := utxos split @ take short ss\<rparr> # out'"
    using assms(1) by (auto simp: short_def Let_def result_simps split: if_splits)
  have "mset (take short ss) + mset (take m sr) + mset (take n (drop short ss)) =
      mset (take m sr) + mset (take (short + n) ss)" for m n
    by (simp add: take_add)
  with o show ?thesis by (intro that[of ss out' sr "drop short ss"]) blast+
next
  case False
  then obtain out' where o: "top_up swept zs (drop short sr) ss = Inr out'" "short \<le> length sr"
      "out = split\<lparr>utxos := utxos split @ take short sr\<rparr> # out'"
    using assms(1) by (auto simp: short_def Let_def result_simps split: if_splits)
  have "mset (take short sr) + mset (take m (drop short sr)) + mset (take n ss) =
      mset (take (short + m) sr) + mset (take n ss)" for m n
    by (simp add: take_add)
  with o show ?thesis by (intro that[of sr out' "drop short sr" ss]) blast+
qed

lemma top_up_spec:
  assumes "top_up swept zs sr ss = Inr out"
  shows "length out = length zs \<and> map split_value out = map (\<lambda>z. split_value (fst z)) zs \<and>
    (\<forall>i<length zs. snd (zs ! i) \<le> length (utxos (out ! i))) \<and>
    (\<exists>m n. mset (funds out) = mset (funds (map fst zs)) + mset (take m sr) + mset (take n ss))"
  using assms
proof (induction zs arbitrary: sr ss out)
  case Nil
  then show ?case by (auto simp: funds_def intro!: exI[of _ 0])
next
  case (Cons z zs)
  obtain split inputs where z: "z = (split, inputs)" by fastforce
  let ?short = "inputs - length (utxos split)"
  obtain pool sr' ss' out' where o: "out = split\<lparr>utxos := utxos split @ take ?short pool\<rparr> # out'"
      "?short \<le> length pool" "top_up swept zs sr' ss' = Inr out'"
      and ex: "\<And>m n. \<exists>m' n'. mset (take ?short pool) + mset (take m sr') + mset (take n ss') =
         mset (take m' sr) + mset (take n' ss)"
    using top_up_Cons[OF Cons.prems[unfolded z]] by metis
  note IH = Cons.IH[OF o(3)]
  then obtain m n where mn: "mset (funds out') = mset (funds (map fst zs)) + mset (take m sr') + mset (take n ss')"
    by blast
  obtain m' n' where e: "mset (take ?short pool) + mset (take m sr') + mset (take n ss') =
         mset (take m' sr) + mset (take n' ss)" using ex by blast
  have "mset (funds out) = mset (utxos split) + mset (funds (map fst zs)) +
      (mset (take ?short pool) + mset (take m sr') + mset (take n ss'))"
    using mn o(1) by (simp add: funds_def)
  also have "\<dots> = mset (funds (map fst (z # zs))) + mset (take m' sr) + mset (take n' ss)"
    unfolding e by (simp add: funds_def z)
  finally have "\<exists>m n. mset (funds out) = mset (funds (map fst (z # zs))) + mset (take m sr) + mset (take n ss)"
    by blast
  moreover have "inputs \<le> length (utxos (out ! 0))" using o(1,2) by simp
  ultimately show ?case using IH o(1) z by (auto simp: nth_Cons split: nat.splits)
qed

lemma spare_coins_props:
  assumes "distinct (map fst pool)"
  shows "distinct (spare_coins used fee pool)" "set (spare_coins used fee pool) \<subseteq> fst ` set pool - used"
proof -
  let ?ys = "filter (\<lambda>(o', a). o' \<notin> used \<and> fee \<le> a) pool"
  have "distinct (map fst ?ys)" using assms by (rule distinct_map_filter)
  moreover have "mset (spare_coins used fee pool) = mset (map fst ?ys)"
    unfolding spare_coins_def by simp
  ultimately show "distinct (spare_coins used fee pool)"
    using mset_eq_imp_distinct_iff[of "spare_coins used fee pool" "map fst ?ys"] by blast
  show "set (spare_coins used fee pool) \<subseteq> fst ` set pool - used"
    by (auto simp: spare_coins_def image_iff)
qed

text \<open>A permutation of the splits spends the same coins for the same total.\<close>

lemma funds_perm: "mset ps = mset qs \<Longrightarrow> mset (funds ps) = mset (funds qs)"
proof -
  assume "mset ps = mset qs"
  then have "image_mset (\<lambda>s. mset (utxos s)) (mset ps) = image_mset (\<lambda>s. mset (utxos s)) (mset qs)"
    by simp
  from arg_cong[OF this, of sum_mset] show ?thesis
    by (simp add: funds_def mset_concat comp_def flip: mset_map sum_mset_sum_list)
qed

lemma values_perm: "mset ps = mset qs \<Longrightarrow> sum_list (map split_value ps) = sum_list (map split_value qs)"
proof -
  assume "mset ps = mset qs"
  then have "mset (map split_value ps) = mset (map split_value qs)" by simp
  from arg_cong[OF this, of sum_mset] show ?thesis by (simp only: sum_mset_sum_list)
qed

text \<open>The steps of a successful fit: pair by size, top up, then net.\<close>

lemma fit_declared_shape_steps:
  assumes "fit_declared_shape dust fresh declared regular swept b rate fee protocol = Inr fitted"
  obtains topped input_fee where "length topped = length declared"
    "\<forall>i<length declared. declared ! i \<le> length (utxos (topped ! i))"
    "sum_list (map split_value topped) = sum_list (map split_value fresh)"
    "\<exists>m n. mset (funds topped) = mset (funds fresh) +
       mset (take m (spare_coins (set (funds fresh)) input_fee regular)) +
       mset (take n (spare_coins (set (funds fresh)) input_fee swept))"
    "net_policy_fees dust topped declared b rate protocol = Inr fitted"
proof -
  define paired where "paired = pair_by_size fresh declared"
  obtain input_fee topped where len: "length fresh = length declared"
      and top: "top_up (set (map fst swept)) (zip paired declared)
         (spare_coins (set (funds paired)) input_fee regular)
         (spare_coins (set (funds paired)) input_fee swept) = Inr topped"
      and net: "net_policy_fees dust topped declared b rate protocol = Inr fitted"
    using assms(1) unfolding fit_declared_shape_def paired_def funds_def
    by (auto simp: result_simps Let_def split: if_splits)
  have perm: "mset paired = mset fresh" unfolding paired_def by (rule pair_by_size_perm[OF len])
  have plen: "length paired = length declared" using mset_eq_length[OF perm] len by simp
  have used: "set (funds paired) = set (funds fresh)" by (rule mset_eq_setD[OF funds_perm[OF perm]])
  have mf: "map fst (zip paired declared) = paired" using plen by (simp add: map_fst_zip)
  note tu = top_up_spec[OF top]
  have "map split_value topped = map split_value (map fst (zip paired declared))"
    using tu by (simp add: comp_def)
  then have vals: "sum_list (map split_value topped) = sum_list (map split_value fresh)"
    using mf values_perm[OF perm] by simp
  have cnt: "\<forall>i<length declared. declared ! i \<le> length (utxos (topped ! i))"
    using tu plen by auto
  show ?thesis
    by (rule that[OF _ cnt vals _ net, of input_fee])
      (use tu plen mf funds_perm[OF perm] used in auto)
qed

section \<open>The whole planner\<close>

lemma psum_filter: "psum (filter P pool) \<le> psum pool"
  by (rule subseq_psum) simp

lemma pool_wf_filter: "pool_wf pool \<Longrightarrow> pool_wf (filter P pool)"
  using psum_filter[of P pool] order_trans[OF length_filter_le[of P pool]]
  by (auto simp: pool_wf_def distinct_map_filter)

lemma plan_ok_filter:
  assumes "plan_ok (filter P pool) ec rate k b plan" "distinct (map fst pool)"
  shows "plan_ok pool ec rate k b plan"
proof -
  note ok = assms(1)[unfolded plan_ok_def]
  have "split_ok pool ec rate k b s" if s: "s \<in> set plan" for s
  proof -
    have "set (utxos s) \<subseteq> fst ` set (filter P pool)" using ok s by auto
    then have "coin_sum (filter P pool) (utxos s) = coin_sum pool (utxos s)"
      using coin_sum_subseq[of "filter P pool" pool "utxos s"] assms(2) by simp
    moreover have "split_ok (filter P pool) ec rate k b s" using ok s by blast
    ultimately show ?thesis unfolding split_ok_def by metis
  qed
  moreover have "set (concat (map utxos plan)) \<subseteq> fst ` set pool" using ok by auto
  ultimately show ?thesis using ok unfolding plan_ok_def by blast
qed

lemma try_pools_Inr:
  assumes "try_pools pools required total_sats max_splits b rate fee min_split ec err = Inr plan"
  shows "plan \<noteq> [] \<and> (\<exists>pool\<in>set pools. plan_funding_splits pool total_sats max_splits b rate min_split ec = plan)"
  using assms
  by (induction pools arbitrary: err) (auto simp: Let_def split: if_splits option.splits sum.splits)

lemma plan_from_pools_Inr:
  assumes "plan_from_pools regular swept required total_sats max_splits b rate fee min_split ec = Inr plan"
  shows "plan \<noteq> [] \<and> (\<exists>pool\<in>{regular, swept}.
    plan_funding_splits pool total_sats max_splits b rate min_split ec = plan)"
proof -
  have "try_pools [regular, swept] required total_sats max_splits b rate fee min_split ec None = Inr plan"
    using assms unfolding plan_from_pools_def
    by (simp del: try_pools.simps split: sum.splits option.splits)
  from try_pools_Inr[OF this] show ?thesis by simp
qed

lemma plan_manual_Inr:
  assumes "plan_manual regular swept manual required total_sats max_splits b rate fee min_split ec = Inr plan"
  shows "plan \<noteq> [] \<and> (\<exists>pool\<in>{filter (\<lambda>c. fst c \<in> set manual) regular, filter (\<lambda>c. fst c \<in> set manual) swept}.
    plan_funding_splits pool total_sats max_splits b rate min_split ec = plan)"
  using assms unfolding plan_manual_def
  by (auto simp: Let_def result_simps split: if_splits option.splits)

text \<open>A plan the wallet returns comes from one of its two pools, without the excluded coins.\<close>

lemma plan_funding_with_change_pool:
  assumes "plan_funding_with_change dust regular swept total_sats max_splits rate b fee manual excluded protocol ec
      = Inr plan"
    and "min_contract_value_sats dust protocol rate = Some least"
  obtains P pool where "pool = regular \<or> pool = swept" "plan \<noteq> []"
    "plan_funding_splits (filter P pool) total_sats max_splits b rate least ec = plan"
    "\<forall>c. P c \<longrightarrow> fst c \<notin> set (case excluded of None \<Rightarrow> [] | Some os \<Rightarrow> os)"
proof -
  let ?ex = "set (case excluded of None \<Rightarrow> [] | Some os \<Rightarrow> os)"
  let ?Q = "\<lambda>c. fst c \<notin> ?ex"
  obtain required where r: "(case manual of Some (o' # os) \<Rightarrow>
        plan_manual (filter ?Q regular) (filter ?Q swept) (o' # os) required total_sats max_splits b rate fee least ec
      | _ \<Rightarrow> plan_from_pools (filter ?Q regular) (filter ?Q swept) required total_sats max_splits b rate fee least ec)
      = Inr plan"
    using assms(1) unfolding plan_funding_with_change_def assms(2) Let_def
    by (simp add: result_simps split: if_splits) blast
  show ?thesis
  proof (cases "\<exists>o' os. manual = Some (o' # os)")
    case True
    then obtain o' os where m: "manual = Some (o' # os)" by blast
    let ?R = "\<lambda>c. fst c \<in> set (o' # os) \<and> ?Q c"
    from plan_manual_Inr[OF r[unfolded m, simplified]] obtain pool where
      "pool = regular \<or> pool = swept" "plan \<noteq> []" "plan_funding_splits (filter ?R pool) total_sats max_splits b rate least ec = plan"
      by (auto simp: conj_commute)
    then show ?thesis by (intro that[of pool ?R]) blast+
  next
    case False
    then have "plan_from_pools (filter ?Q regular) (filter ?Q swept) required total_sats max_splits b rate fee least ec
        = Inr plan" using r by (auto split: option.splits list.splits)
    from plan_from_pools_Inr[OF this] obtain pool where "pool = regular \<or> pool = swept" "plan \<noteq> []"
      "plan_funding_splits (filter ?Q pool) total_sats max_splits b rate least ec = plan"
      by blast
    then show ?thesis by (intro that[of pool ?Q]) blast+
  qed
qed

lemma wrapping_sum_exact:
  "acc + sum_list xs \<le> u64_max \<Longrightarrow> foldl wrapping_add acc xs = acc + sum_list xs"
  by (induction xs arbitrary: acc) auto

lemma pool_sum_exact: "psum pool \<le> u64_max \<Longrightarrow> pool_sum pool = psum pool"
  by (simp add: pool_sum_def wrapping_sum_def wrapping_sum_exact psum_def)

lemma try_pools_found:
  assumes "pool \<in> set pools" "required \<le> pool_sum pool"
    and "plan_funding_splits pool total_sats max_splits b rate min_split ec \<noteq> []"
  shows "\<exists>plan. try_pools pools required total_sats max_splits b rate None min_split ec err = Inr plan"
  using assms by (induction pools arbitrary: err) (auto simp: Let_def)

lemma coin_sum_le:
  assumes "distinct os" "set os \<subseteq> fst ` set pool" "distinct (map fst pool)"
  shows "coin_sum pool os \<le> psum pool"
proof -
  obtain ps where "positions_ok pool ps" "cover_sum pool ps = coin_sum pool os"
    using positions_of_coins[of pool os] assms by auto
  then show ?thesis using cover_sum_le by metis
qed

text \<open>The coins of a cover carry at least what the pool is asked for before planning.\<close>

lemma covers_margin:
  assumes "covers total_sats ec rate n amount" "1 \<le> n" "n \<le> u32_max"
  shows "\<exists>m. (case ec of Some change \<Rightarrow> Inr change | None \<Rightarrow> funding_fee 1 rate) = Inr m \<and>
    total_sats + m \<le> amount"
proof (cases ec)
  case None
  then obtain f where f: "fee_at_rate_sats (funding_tx_vsize n) rate = Some f" "total_sats + f \<le> amount"
    using assms(1) by (auto simp: covers_def split_need_def checked_simps bind_eq_Some_conv)
  have "fee_at_rate_sats (funding_tx_vsize 1) rate = Some (fee_of rate 1) \<and> fee_of rate 1 \<le> fee_of rate n"
    by (rule fee_of_mono) (use f assms in auto)
  moreover have "fee_of rate n = f" using f by (simp add: fee_of_def)
  ultimately show ?thesis using None f by (auto simp: funding_fee_def)
qed (use assms in \<open>auto simp: covers_def split_need_def checked_simps\<close>)

lemma plan_funding_found:
  assumes wf: "pool_wf regular" "pool_wf swept" and pool: "pool = regular \<or> pool = swept"
    and least: "min_contract_value_sats dust protocol rate = Some least" "least \<le> total_sats"
      "1 \<le> max_splits" "max_splits * least \<le> u64_max"
    and os: "os \<noteq> []" "distinct os" "set os \<subseteq> fst ` set pool"
      "set os \<inter> set (case excluded of None \<Rightarrow> [] | Some xs \<Rightarrow> xs) = {}"
      "covers total_sats ec rate (length os) (coin_sum pool os)"
  shows "\<exists>plan. plan_funding_with_change dust regular swept total_sats max_splits rate b None None excluded
    protocol ec = Inr plan"
proof -
  define Q where "Q = (\<lambda>c :: OutPoint \<times> Amount. fst c \<notin> set (case excluded of None \<Rightarrow> [] | Some xs \<Rightarrow> xs))"
  have pwf: "pool_wf pool" using wf pool by auto
  let ?p = "filter Q pool"
  have fwf: "pool_wf ?p" by (rule pool_wf_filter[OF pwf])
  have sub: "set os \<subseteq> fst ` set ?p" using os(3,4) by (force simp: Q_def)
  have same: "coin_sum ?p os = coin_sum pool os"
    using coin_sum_subseq[of ?p pool os] sub pwf by (simp add: pool_wf_def)
  have "length os \<le> length pool"
    using os(2,3) by (metis card_mono distinct_card finite_imageI finite_set card_image_le order_trans card_length)
  then have n: "1 \<le> length os" "length os \<le> u32_max" using os(1) pwf by (auto simp: pool_wf_def Suc_le_eq)
  obtain m where m: "(case ec of Some change \<Rightarrow> Inr change | None \<Rightarrow> funding_fee 1 rate) = Inr m"
      "total_sats + m \<le> coin_sum ?p os"
    using covers_margin[OF os(5) n] same by auto
  have le: "coin_sum ?p os \<le> psum ?p" using coin_sum_le[OF os(2) sub] fwf by (simp add: pool_wf_def)
  have ps: "psum ?p \<le> u64_max" using fwf by (simp add: pool_wf_def)
  have ne: "plan_funding_splits ?p total_sats max_splits b rate least ec \<noteq> []"
    by (rule plan_funding_splits_complete[OF fwf least(3,4,2) os(2) sub]) (use os(5) same in simp)
  have req: "checked_add total_sats m = Some (total_sats + m)" "total_sats + m \<le> pool_sum ?p"
    using m(2) le ps pool_sum_exact[OF ps] by (auto simp: checked_add_def)
  have "?p \<in> set [filter Q regular, filter Q swept]" using pool by auto
  from try_pools_found[OF this req(2) ne] obtain plan where
    "try_pools [filter Q regular, filter Q swept] (total_sats + m) total_sats max_splits b rate None least ec None
      = Inr plan" by blast
  then show ?thesis
    using least(1,2) m(1) req(1) unfolding plan_funding_with_change_def Let_def Q_def[symmetric]
    by (simp del: try_pools.simps add: plan_from_pools_def)
qed

section \<open>Properties\<close>

text \<open>Prices of the concrete runs below.\<close>

lemma demo_prices:
  "fee_at_rate_sats 68 (Fin 1) = Some 68" "fee_at_rate_sats 165 (Fin 1) = Some 165"
  "fee_at_rate_sats 233 (Fin 1) = Some 233" "fee_at_rate_sats 301 (Fin 1) = Some 301"
  "min_contract_value_sats 330 Taproot (Fin 1) = Some 485"
  using fee_at_rate_int_exact[of 1 68] fee_at_rate_int_exact[of 1 165] fee_at_rate_int_exact[of 1 233]
    fee_at_rate_int_exact[of 1 301] fee_at_rate_int_exact[of 1 155]
  by (simp_all add: min_contract_value_sats_def vsize_consts checked_add_def)

lemmas demo_simps = demo_prices pool_wf_def psum_def covers_def split_need_def funding_tx_vsize_def
  coin_sum_def checked_add_def



text \<open>
  C9 (funding plans are complete). When some set of unexcluded coins of one pool covers the
  amount and the fee of spending that many inputs, planning without a guard and without a
  manual selection returns a plan.
\<close>

theorem plan_funding_complete:
  assumes "pool_wf regular" "pool_wf swept" "pool \<in> {regular, swept}"
    and "min_contract_value_sats dust protocol rate = Some least" "least \<le> total_sats"
    and "1 \<le> max_splits" "max_splits * least \<le> u64_max"
    and "os \<noteq> []" "distinct os" "set os \<subseteq> fst ` set pool"
    and "set os \<inter> set (case excluded of None \<Rightarrow> [] | Some xs \<Rightarrow> xs) = {}"
    and "covers total_sats None rate (length os) (coin_sum pool os)"
  shows "\<exists>plan. plan_funding dust regular swept total_sats max_splits rate b None None excluded protocol
    = Inr plan"
  unfolding plan_funding_def
  by (rule plan_funding_found[of _ _ pool _ _ _ least _ _ os]) (use assms in auto)

theorem plan_funding_complete_witness:
  "\<exists>plan. plan_funding 330 [] [(op 4, 70000), (op 5, 200)] 50000 3 (Fin 1) 1 None None (Some [op 5]) Taproot
    = Inr plan"
  by (rule plan_funding_complete[of _ _ "[(op 4, 70000), (op 5, 200)]" _ _ _ 485 _ _ "[op 4]"])
    (simp_all add: demo_simps)

text \<open>
  C10 (the two-input search is optimal). On a pool sorted by value the linear two-pointer scan
  finds two different coins that cover the need, with the least sum of all such pairs, and
  finds none only when no pair covers it.
\<close>

theorem two_input_search_least:
  assumes "desc pool" "psum pool \<le> u64_max"
  shows "(\<forall>ps. smallest_cover pool 2 need = Some ps \<longrightarrow>
      length ps = 2 \<and> positions_ok pool ps \<and> need \<le> cover_sum pool ps \<and>
      (\<forall>i j. i < length pool \<and> j < length pool \<and> i \<noteq> j \<and> need \<le> snd (pool ! i) + snd (pool ! j)
         \<longrightarrow> cover_sum pool ps \<le> snd (pool ! i) + snd (pool ! j))) \<and>
    (smallest_cover pool 2 need = None \<longrightarrow>
      (\<forall>i j. i < length pool \<and> j < length pool \<and> i \<noteq> j \<longrightarrow> snd (pool ! i) + snd (pool ! j) < need))"
proof (cases "2 \<le> length pool")
  case True
  then have "smallest_cover pool 2 need = pair_cover pool need" by (simp add: smallest_cover_def)
  then show ?thesis using pair_cover_spec[OF assms True] by simp
qed (auto simp: smallest_cover_def)

theorem two_input_search_least_witness:
  "smallest_cover [(op 1, 9), (op 2, 5), (op 3, 3)] 2 7 = Some [2, 1] \<and>
   cover_sum [(op 1, 9), (op 2, 5), (op 3, 3)] [2, 1] \<le> 9 + 3"
proof -
  let ?p = "[(op 1, 9), (op 2, 5), (op 3, 3)]"
  have s: "smallest_cover ?p 2 7 = Some [2, 1]"
    by (simp add: smallest_cover_def pair_cover_def two_pointer.simps Let_def wrapping_add_def)
  have "cover_sum ?p [2, 1] \<le> snd (?p ! 0) + snd (?p ! 2)"
    using two_input_search_least[of ?p 7, THEN conjunct1, rule_format, OF _ _ s, THEN conjunct2,
        THEN conjunct2, THEN conjunct2, rule_format, of 0 2]
    by (simp add: demo_simps desc_def)
  with s show ?thesis by simp
qed



text \<open>
  C12 (a re-plan keeps the declared shape). After re-planning, split \<open>i\<close> spends at least the
  declared number of inputs, no coin is spent twice, the fresh plan's coins are all kept and
  the added ones come from the pools, and the values differ from the fresh plan's by exactly
  the fees the taker was told.
\<close>

theorem declared_shape_kept:
  assumes "fit_declared_shape dust fresh declared regular swept b rate fee protocol = Inr fitted"
    and "distinct (map fst (regular @ swept))" "distinct (funds fresh)"
  shows "length fitted = length declared \<and>
    (\<forall>i<length declared. declared ! i \<le> length (utxos (fitted ! i))) \<and>
    distinct (funds fitted) \<and> set (funds fresh) \<subseteq> set (funds fitted) \<and>
    set (funds fitted) \<subseteq> set (funds fresh) \<union> fst ` set (regular @ swept) \<and>
    sum_list (map split_value fitted) + sum_list (map (policy_fee b rate) declared) =
      sum_list (map split_value fresh)"
proof -
  obtain topped input_fee where len: "length topped = length declared"
      and cnt: "\<forall>i<length declared. declared ! i \<le> length (utxos (topped ! i))"
      and vals: "sum_list (map split_value topped) = sum_list (map split_value fresh)"
      and ex: "\<exists>m n. mset (funds topped) = mset (funds fresh) +
         mset (take m (spare_coins (set (funds fresh)) input_fee regular)) +
         mset (take n (spare_coins (set (funds fresh)) input_fee swept))"
      and net: "net_policy_fees dust topped declared b rate protocol = Inr fitted"
    by (rule fit_declared_shape_steps[OF assms(1)])
  have nf: "length fitted = length topped" "map utxos fitted = map utxos topped"
      "sum_list (map split_value fitted) + sum_list (map (policy_fee b rate) declared) =
         sum_list (map split_value topped)"
    using net_policy_fees_spec[OF net] by blast+
  let ?sr = "spare_coins (set (funds fresh)) input_fee regular"
  let ?ss = "spare_coins (set (funds fresh)) input_fee swept"
  obtain m n where mn: "mset (funds fitted) = mset (funds fresh @ take m ?sr @ take n ?ss)"
    using ex nf(2) by (auto simp: funds_def)
  have d: "distinct (map fst regular)" "distinct (map fst swept)" "fst ` set regular \<inter> fst ` set swept = {}"
    using assms(2) by auto
  note sr = spare_coins_props[OF d(1), of "set (funds fresh)" input_fee]
  note ss = spare_coins_props[OF d(2), of "set (funds fresh)" input_fee]
  have "distinct (funds fresh @ take m ?sr @ take n ?ss)"
    using assms(3) sr ss d(3) by (auto dest!: in_set_takeD)
  then have dist: "distinct (funds fitted)" using mset_eq_imp_distinct_iff[OF mn] by simp
  have set: "set (funds fitted) = set (funds fresh) \<union> set (take m ?sr) \<union> set (take n ?ss)"
    using mset_eq_setD[OF mn] by auto
  have same: "utxos (fitted ! i) = utxos (topped ! i)" if "i < length declared" for i
    using arg_cong[OF nf(2), of "\<lambda>xs. xs ! i"] that nf(1) len by simp
  have sub: "set (take m ?sr) \<subseteq> fst ` set (regular @ swept)" "set (take n ?ss) \<subseteq> fst ` set (regular @ swept)"
    using sr(2) ss(2) by (auto dest!: in_set_takeD)
  have cnt': "\<forall>i<length declared. declared ! i \<le> length (utxos (fitted ! i))"
    using cnt same by simp
  have "length fitted = length declared" using nf(1) len by simp
  moreover have "set (funds fresh) \<subseteq> set (funds fitted)"
      "set (funds fitted) \<subseteq> set (funds fresh) \<union> fst ` set (regular @ swept)"
    using set sub by blast+
  moreover note trans[OF nf(3) vals] cnt' dist
  ultimately show ?thesis by (intro conjI)
qed

theorem declared_shape_kept_witness:
  "\<exists>fitted. fit_declared_shape 330 [\<lparr>utxos = [op 1], split_value = 50000\<rparr>] [2] [(op 1, 60000), (op 2, 1000)] []
      2 (Fin 1) 100 Taproot = Inr fitted \<and> distinct (funds fitted) \<and>
    sum_list (map split_value fitted) + 233 = 50000"
proof -
  let ?f = "[\<lparr>utxos = [op 1], split_value = 50000\<rparr>]"
  have "\<exists>fitted. fit_declared_shape 330 ?f [2] [(op 1, 60000), (op 2, 1000)] [] 2 (Fin 1) 100 Taproot = Inr fitted"
    by (simp add: demo_simps fit_declared_shape_def pair_by_size_def declared_rank_def spare_coins_def
        check_over_budget_spend_def clamp_def funding_fee_def net_policy_fees_def funding_fee_policy_sats_def
        Let_def checked_add_def checked_sub_def)
  then obtain fitted where f:
    "fit_declared_shape 330 ?f [2] [(op 1, 60000), (op 2, 1000)] [] 2 (Fin 1) 100 Taproot = Inr fitted" ..
  from declared_shape_kept[OF f] have "distinct (funds fitted)"
    "sum_list (map split_value fitted) + sum_list (map (policy_fee 2 (Fin 1)) [2]) = 50000"
    by (simp_all add: funds_def)
  with f show ?thesis by (auto simp: policy_fee_def funding_fee_policy_sats_def demo_simps)
qed

end
