(* ===== verification/Spec2Isabelle.thy ===== *)
theory Spec2Isabelle
  imports Settlement Spend WatchTower Bonds FundingPlans
begin

text \<open>
  Openswap: coin swaps over routes of makers, with on-chain contracts. A taker negotiates a swap
  with each maker of a route; every hop funds a contract that its receiver claims with a preimage
  or a key and that its sender refunds after a timelock. This development models the code under
  \<open>src/src\<close>; file names below are relative to it.

  \<^bold>\<open>Parts and theories.\<close>

  \<^item> \<open>Prelude\<close>: machine integers as natural numbers with their width written out (\<open>checked_add\<close>,
    \<open>saturating_sub\<close>, \<open>mod (u32_max + 1)\<close> where code wraps), \<open>Result\<close> as a sum with the error on the
    left. \<open>F64\<close>: IEEE 754 doubles. \<open>Effects\<close>: methods that change state and may return early, and the
    rules that carry relations and invariants through them.
  \<^item> \<open>Fees\<close>: \<open>utill.rs\<close>, the fee parts of \<open>wallet/api.rs\<close> and \<open>maker/api.rs\<close>.
  \<^item> \<open>Features\<close>: \<open>protocol/features.rs\<close>, the feature pins and requirements of a swap.
  \<^item> \<open>Bitcoin\<close>: transactions, keys and scripts, and the bitcoin library as the record \<open>bitcoin_lib\<close>.
    \<open>Messages\<close>: the wire messages. \<open>Contract\<close>: \<open>protocol/contract.rs\<close>, \<open>protocol/contract2.rs\<close>.
  \<^item> \<open>SwapCoins\<close>: \<open>wallet/swapcoin.rs\<close> and the MuSig2 calls; the three spends of a contract.
  \<^item> \<open>Funding\<close>: \<open>wallet/funding.rs\<close>, which coins fund which split; \<open>FundingPlans\<close>: its correctness.
  \<^item> \<open>Text\<close>, \<open>Fidelity\<close>, \<open>Announce\<close>: bonds and their announcements (\<open>wallet/fidelity.rs\<close>,
    \<open>watch_tower/utils.rs\<close>); \<open>Bonds\<close>: their correctness.
  \<^item> \<open>Registry\<close>, \<open>CoreRpc\<close>, \<open>Watcher\<close>: the watch tower (\<open>watch_tower/registry_storage.rs\<close>,
    \<open>wallet/blockchain/corerpc.rs\<close>, \<open>watch_tower/watcher.rs\<close>); \<open>WatchTower\<close>: its correctness.
  \<^item> \<open>Store\<close>, \<open>Sync\<close>, \<open>Recovery\<close>: the wallet (\<open>wallet/storage.rs\<close>, \<open>wallet/api.rs\<close>). A method is a
    program over \<open>world\<close>: the store in memory, the store last written to disk, and the log of the
    transactions handed to the backend, each with the two stores at that moment.
  \<^item> \<open>Frames\<close>, \<open>Books\<close>, \<open>RecoverySends\<close>, \<open>Settlement\<close>: what the wallet's programs keep, what they
    broadcast and when a coin leaves the books.

  \<^bold>\<open>What the lemmas show.\<close> Fees are exact at integral rates, monotone and never below the stated
  minimum; pins and requirements decide exactly the swaps both sides serve; scripts and
  announcements read back what was built; every contract has the claim and the refund its two
  sides rely on; a funding plan spends distinct coins, covers every split and is found when one
  exists; the watch tower loses no recorded spend, terminates, and answers each query once; the
  wallet never reserves an input for two swaps, never rebinds a contract, puts everything back
  after a failed write, records a sweep before it is sent, never sends a refund beside a claim of
  the same swap, and drops a coin only when its fate is settled on chain.

  \<^bold>\<open>Parameters.\<close> Third-party code is an argument: \<open>bitcoin_lib\<close> (scripts, hashes, keys, signatures),
  \<open>core_rpc\<close> and \<open>chain_view\<close> (the node; every answer depends on the moment of the call, so nothing
  is assumed of two answers), \<open>wallet_env\<close> (the outcome of each write, the clock, randomness, the
  stop flag). What a theorem needs of them is a locale assumption or a named hypothesis, and the
  reference codec \<open>ref_lib\<close> shows that the assumptions can hold.

  \<^bold>\<open>Fuel and termination.\<close> Loops bounded by data are structural or carry a measure. The wait for
  confirmations ends by its deadline, since every round sleeps. \<open>sync_no_fail\<close> retries for as long
  as the backend fails, so it takes the number of retries as \<open>w_fuel\<close> and reports \<open>WDiverged\<close> when
  they are spent; every theorem about it holds for every number.

  \<^bold>\<open>Not modelled.\<close> The maker's message handlers and server (\<open>maker/\<close>), the taker's route driver and
  offer book (\<open>taker/\<close>), Lightning swaps (\<open>lightning/\<close>), the Electrum client, nostr traffic, the
  seed, the encrypted file formats and backups, reports, and the command line programs.
\<close>

end
